(* ===== verification/Prelude.thy ===== *)
theory Prelude
  imports Main "HOL-Library.Word" "HOL-Library.Sublist" "HOL-Library.Code_Target_Nat"
begin

text \<open>
  Shared vocabulary of the wireproxy development: Go's error values, the two-valued results
  that stand for \<open>(T, error)\<close> returns, 64-bit signed wrap-around, durations, and the generic
  list lemmas that several components use.  The collections \<open>go_simps\<close> (defining equations of
  the modelled parts of Go's standard library) and \<open>go_result\<close> (case analysis of results) are
  filled by the component theories.
\<close>

named_theorems go_simps \<open>definitions of the modelled standard library functions\<close>
named_theorems go_result \<open>elimination of successful and failed results\<close>

section \<open>Errors\<close>

text \<open>
  An error value as the program can observe it: its message, whether \<open>errors.Is\<close> finds
  \<open>net.ErrClosed\<close> in its chain of wrapped errors, and whether the outermost value is a
  \<open>net.Error\<close> whose \<open>Timeout\<close> method answers true.
\<close>

datatype go_error =
    ErrMsg string
  | ErrWrap string go_error
  | ErrClosed
  | ErrTimeout string

primrec err_Error :: "go_error \<Rightarrow> string" where
  "err_Error (ErrMsg s) = s"
| "err_Error (ErrWrap s e) = s @ err_Error e"
| "err_Error ErrClosed = ''use of closed network connection''"
| "err_Error (ErrTimeout s) = s"

primrec errors_Is_ErrClosed :: "go_error \<Rightarrow> bool" where
  "errors_Is_ErrClosed (ErrMsg s) = False"
| "errors_Is_ErrClosed (ErrWrap s e) = errors_Is_ErrClosed e"
| "errors_Is_ErrClosed ErrClosed = True"
| "errors_Is_ErrClosed (ErrTimeout s) = False"

primrec net_Error_Timeout :: "go_error \<Rightarrow> bool" where
  "net_Error_Timeout (ErrMsg s) = False"
| "net_Error_Timeout (ErrWrap s e) = False"
| "net_Error_Timeout ErrClosed = False"
| "net_Error_Timeout (ErrTimeout s) = True"

text \<open>A return pair \<open>(T, error)\<close>: \<open>Inl\<close> is a non-nil error.\<close>

type_synonym 'a result = "go_error + 'a"

definition is_ok :: "'a result \<Rightarrow> bool" where
  "is_ok r = (case r of Inl e \<Rightarrow> False | Inr x \<Rightarrow> True)"

lemma is_ok_simps [simp]: "is_ok (Inr x)" "\<not> is_ok (Inl e)"
  by (simp_all add: is_ok_def)

lemma result_cases [case_names Err Ok, go_result]:
  obtains e where "(r :: 'a result) = Inl e" | x where "r = Inr x"
  by (cases r) auto

section \<open>Collecting the results of a loop with early return\<close>

text \<open>
  The shape of every \<open>for ... range\<close> loop of the parser that appends to a slice and returns
  on the first error.
\<close>

fun collect :: "('a \<Rightarrow> 'b result) \<Rightarrow> 'a list \<Rightarrow> 'b list result" where
  "collect f [] = Inr []"
| "collect f (x # xs) =
     (case f x of Inl e \<Rightarrow> Inl e
      | Inr y \<Rightarrow> (case collect f xs of Inl e \<Rightarrow> Inl e | Inr ys \<Rightarrow> Inr (y # ys)))"

lemma collect_Inr_iff:
  "collect f xs = Inr ys \<longleftrightarrow> list_all2 (\<lambda>x y. f x = Inr y) xs ys"
proof (induction xs arbitrary: ys)
  case Nil
  then show ?case by auto
next
  case (Cons x xs)
  show ?case
  proof (cases "f x")
    case (Inr y)
    then have "collect f (x # xs) = Inr ys \<longleftrightarrow> (\<exists>zs. collect f xs = Inr zs \<and> ys = y # zs)"
      by (auto split: sum.splits)
    with Inr show ?thesis
      by (auto simp: Cons.IH list_all2_Cons1)
  qed (auto simp: list_all2_Cons1)
qed

lemma collect_Inl_iff:
  "(\<exists>e. collect f xs = Inl e) \<longleftrightarrow> (\<exists>x \<in> set xs. \<exists>e. f x = Inl e)"
  by (induction xs) (auto split: sum.splits)

lemma collect_append:
  "collect f (xs @ ys) =
     (case collect f xs of Inl e \<Rightarrow> Inl e
      | Inr as \<Rightarrow> (case collect f ys of Inl e \<Rightarrow> Inl e | Inr bs \<Rightarrow> Inr (as @ bs)))"
  by (induction xs) (auto split: sum.splits)

lemma collect_length: "collect f xs = Inr ys \<Longrightarrow> length ys = length xs"
  by (simp add: collect_Inr_iff list_all2_lengthD)

lemma collect_set:
  "collect f xs = Inr ys \<Longrightarrow> y \<in> set ys \<Longrightarrow> \<exists>x \<in> set xs. f x = Inr y"
  by (fastforce simp: collect_Inr_iff list_all2_conv_all_nth in_set_conv_nth)

lemma collect_map: "collect f (map g xs) = collect (\<lambda>x. f (g x)) xs"
  by (induction xs) (auto split: sum.splits)

lemma collect_cong:
  "(\<And>x. x \<in> set xs \<Longrightarrow> f x = g x) \<Longrightarrow> collect f xs = collect g xs"
  by (induction xs) (auto split: sum.splits)

section \<open>Machine integers\<close>

text \<open>Go's \<open>int\<close> and \<open>time.Duration\<close> are 64-bit two's complement.\<close>

definition wrap64 :: "int \<Rightarrow> int" where
  "wrap64 x = (x + 2 ^ 63) mod 2 ^ 64 - 2 ^ 63"

lemma wrap64_id: "- (2 ^ 63) \<le> x \<Longrightarrow> x < 2 ^ 63 \<Longrightarrow> wrap64 x = x"
  by (simp add: wrap64_def)

lemma wrap64_range: "- (2 ^ 63) \<le> wrap64 x \<and> wrap64 x < 2 ^ 63"
  by (simp add: wrap64_def)

definition in_int64 :: "int \<Rightarrow> bool" where
  "in_int64 x \<longleftrightarrow> - (2 ^ 63) \<le> x \<and> x < 2 ^ 63"

text \<open>\<open>time.Duration(n) * time.Second\<close>, in nanoseconds.\<close>

definition seconds :: "int \<Rightarrow> int" where
  "seconds n = wrap64 (n * 1000000000)"

lemma seconds_small: "0 \<le> n \<Longrightarrow> n \<le> 9223372036 \<Longrightarrow> seconds n = n * 1000000000"
  unfolding seconds_def by (rule wrap64_id) simp_all

text \<open>\<open>Time.Sub\<close> saturates at the ends of the \<open>Duration\<close> range; times are in nanoseconds.\<close>

definition time_Sub :: "int \<Rightarrow> int \<Rightarrow> int" where
  "time_Sub t u = max (- (2 ^ 63)) (min (2 ^ 63 - 1) (t - u))"

lemma time_Sub_exact: "in_int64 (t - u) \<Longrightarrow> time_Sub t u = t - u"
  by (simp add: time_Sub_def in_int64_def)

section \<open>Lists\<close>

lemma find_SomeD: "find P xs = Some x \<Longrightarrow> P x \<and> x \<in> set xs"
  by (induction xs) (auto split: if_splits)

lemma takeWhile_all_iff: "takeWhile P xs = xs \<longleftrightarrow> (\<forall>x \<in> set xs. P x)"
  by (induction xs) auto

lemma takeWhile_append_stop:
  "\<lbrakk>\<forall>x \<in> set xs. P x; \<not> P y\<rbrakk> \<Longrightarrow> takeWhile P (xs @ y # ys) = xs"
  by (induction xs) auto

lemma dropWhile_append_stop:
  "\<lbrakk>\<forall>x \<in> set xs. P x; \<not> P y\<rbrakk> \<Longrightarrow> dropWhile P (xs @ y # ys) = y # ys"
  by (induction xs) auto

lemma takeWhile_neq_append [simp]:
  "c \<notin> set s \<Longrightarrow> takeWhile (\<lambda>x. x \<noteq> c) (s @ c # t) = s"
  by (induction s) auto

lemma dropWhile_neq_append [simp]:
  "c \<notin> set s \<Longrightarrow> dropWhile (\<lambda>x. x \<noteq> c) (s @ c # t) = c # t"
  by (induction s) auto

end
