(* ===== verification/GoStrings.thy ===== *)
theory GoStrings
  imports Prelude
begin

text \<open>
  The parts of Go's \<open>strings\<close>, \<open>bytes\<close> and \<open>strconv\<close> packages that wireproxy uses.  A Go string
  is a byte sequence, so it is a \<open>char list\<close> here.  The locales at the end state what a printer
  and its parser promise each other; every textual format of the development (decimal numbers,
  IP octets, base64, hexadecimal keys) is an interpretation of them.
\<close>

section \<open>Prefixes, suffixes, substrings\<close>

definition strings_HasPrefix :: "string \<Rightarrow> string \<Rightarrow> bool" where
  [go_simps]: "strings_HasPrefix s p = prefix p s"

definition strings_TrimPrefix :: "string \<Rightarrow> string \<Rightarrow> string" where
  [go_simps]: "strings_TrimPrefix s p = (if prefix p s then drop (length p) s else s)"

definition strings_TrimSuffix :: "string \<Rightarrow> string \<Rightarrow> string" where
  [go_simps]: "strings_TrimSuffix s p =
     (if suffix p s then take (length s - length p) s else s)"

definition strings_Contains :: "string \<Rightarrow> string \<Rightarrow> bool" where
  [go_simps]: "strings_Contains s sub = sublist sub s"

text \<open>\<open>strings.Replace(s, old, new, 1)\<close> for a non-empty \<open>old\<close>: the first occurrence only.\<close>

fun strings_Replace1 :: "string \<Rightarrow> string \<Rightarrow> string \<Rightarrow> string" where
  "strings_Replace1 [] old new = []"
| "strings_Replace1 (c # s) old new =
     (if prefix old (c # s) then new @ drop (length old) (c # s)
      else c # strings_Replace1 s old new)"

section \<open>Splitting and joining\<close>

fun strings_Split :: "char \<Rightarrow> string \<Rightarrow> string list" where
  "strings_Split c [] = [[]]"
| "strings_Split c (x # xs) =
     (if x = c then [] # strings_Split c xs
      else (case strings_Split c xs of [] \<Rightarrow> [[x]] | y # ys \<Rightarrow> (x # y) # ys))"

fun join_on :: "char \<Rightarrow> string list \<Rightarrow> string" where
  "join_on c [] = []"
| "join_on c [x] = x"
| "join_on c (x # y # ys) = x @ c # join_on c (y # ys)"

text \<open>\<open>SplitN(s, c, 2)\<close>: at most one cut, at the first occurrence of the separator.\<close>

definition strings_SplitN2 :: "char \<Rightarrow> string \<Rightarrow> string list" where
  "strings_SplitN2 c s =
     (if c \<in> set s then [takeWhile (\<lambda>x. x \<noteq> c) s, tl (dropWhile (\<lambda>x. x \<noteq> c) s)] else [s])"

text \<open>The text before and after the last occurrence of a byte (\<open>LastIndexByte\<close>).\<close>

definition cut_last :: "char \<Rightarrow> string \<Rightarrow> (string \<times> string) option" where
  "cut_last c s =
     (if c \<in> set s
      then Some (rev (tl (dropWhile (\<lambda>x. x \<noteq> c) (rev s))), rev (takeWhile (\<lambda>x. x \<noteq> c) (rev s)))
      else None)"

lemma strings_Split_nonempty [simp]: "strings_Split c s \<noteq> []"
  by (induction s) (auto split: list.splits)

lemma strings_Split_no_sep: "x \<in> set (strings_Split c s) \<Longrightarrow> c \<notin> set x"
proof (induction s arbitrary: x)
  case (Cons a s)
  then show ?case
    by (auto split: if_splits list.splits)
qed simp

lemma strings_Split_absent: "c \<notin> set s \<Longrightarrow> strings_Split c s = [s]"
  by (induction s) auto

lemma strings_Split_append:
  "c \<notin> set s \<Longrightarrow> strings_Split c (s @ c # t) = s # strings_Split c t"
  by (induction s) auto

lemma join_on_Cons: "xs \<noteq> [] \<Longrightarrow> join_on c (x # xs) = x @ c # join_on c xs"
  by (cases xs) auto

lemma strings_Split_join:
  assumes "xs \<noteq> []" and "\<forall>x \<in> set xs. c \<notin> set x"
  shows "strings_Split c (join_on c xs) = xs"
  using assms
proof (induction xs)
  case (Cons x xs)
  then show ?case
    by (cases "xs = []")
      (auto simp: strings_Split_absent strings_Split_append join_on_Cons)
qed simp

lemma join_Split: "join_on c (strings_Split c s) = s"
proof (induction s)
  case (Cons x s)
  obtain y ys where "strings_Split c s = y # ys"
    by (cases "strings_Split c s") auto
  with Cons show ?case by (cases ys) auto
qed simp

lemma set_join_on:
  "set (join_on c xs) \<subseteq> insert c (\<Union> (set ` set xs))"
  by (induction c xs rule: join_on.induct) auto

lemma strings_SplitN2_append:
  "c \<notin> set s \<Longrightarrow> strings_SplitN2 c (s @ c # t) = [s, t]"
  by (simp add: strings_SplitN2_def)

lemma strings_SplitN2_two:
  assumes "strings_SplitN2 c s = [a, b]"
  shows "s = a @ c # b \<and> c \<notin> set a"
proof -
  from assms have c: "c \<in> set s" and a: "a = takeWhile (\<lambda>x. x \<noteq> c) s"
    and b: "b = tl (dropWhile (\<lambda>x. x \<noteq> c) s)"
    by (auto simp: strings_SplitN2_def split: if_splits)
  from c have "dropWhile (\<lambda>x. x \<noteq> c) s \<noteq> []"
    by (auto simp: dropWhile_eq_Nil_conv)
  then have "dropWhile (\<lambda>x. x \<noteq> c) s = c # b"
    using b hd_dropWhile [of "\<lambda>x. x \<noteq> c" s] by (cases "dropWhile (\<lambda>x. x \<noteq> c) s") auto
  moreover have "c \<notin> set a"
    using a by (auto dest: set_takeWhileD)
  ultimately show ?thesis
    using a takeWhile_dropWhile_id [of "\<lambda>x. x \<noteq> c" s] by simp
qed

lemma strings_SplitN2_length: "length (strings_SplitN2 c s) = 2 \<longleftrightarrow> c \<in> set s"
  by (simp add: strings_SplitN2_def)

lemma cut_last_append:
  assumes "c \<notin> set t"
  shows "cut_last c (s @ c # t) = Some (s, t)"
  using assms by (simp add: cut_last_def)

lemma cut_last_None [simp]: "cut_last c s = None \<longleftrightarrow> c \<notin> set s"
  by (simp add: cut_last_def)

lemma cut_last_Some:
  assumes "cut_last c s = Some (a, b)"
  shows "s = a @ c # b \<and> c \<notin> set b"
proof -
  from assms have "c \<in> set s"
    by (auto simp: cut_last_def split: if_splits)
  then obtain u v where s: "s = u @ c # v" and v: "c \<notin> set v"
    by (meson split_list_last)
  with assms show ?thesis
    by (simp add: cut_last_append)
qed

section \<open>White space and letter case\<close>

text \<open>
  The UTF-8 encodings of the code points that \<open>unicode.IsSpace\<close> accepts.  No encoding is a
  proper prefix or suffix of another, so removing runes from either end is removing one of these
  byte strings.
\<close>

definition space_runes :: "string list" where
  "space_runes =
     [[CHR 0x09], [CHR 0x0A], [CHR 0x0B], [CHR 0x0C], [CHR 0x0D], [CHR 0x20],
      [CHR 0xC2, CHR 0x85], [CHR 0xC2, CHR 0xA0], [CHR 0xE1, CHR 0x9A, CHR 0x80],
      [CHR 0xE2, CHR 0x80, CHR 0x80], [CHR 0xE2, CHR 0x80, CHR 0x81],
      [CHR 0xE2, CHR 0x80, CHR 0x82], [CHR 0xE2, CHR 0x80, CHR 0x83],
      [CHR 0xE2, CHR 0x80, CHR 0x84], [CHR 0xE2, CHR 0x80, CHR 0x85],
      [CHR 0xE2, CHR 0x80, CHR 0x86], [CHR 0xE2, CHR 0x80, CHR 0x87],
      [CHR 0xE2, CHR 0x80, CHR 0x88], [CHR 0xE2, CHR 0x80, CHR 0x89],
      [CHR 0xE2, CHR 0x80, CHR 0x8A], [CHR 0xE2, CHR 0x80, CHR 0xA8],
      [CHR 0xE2, CHR 0x80, CHR 0xA9], [CHR 0xE2, CHR 0x80, CHR 0xAF],
      [CHR 0xE2, CHR 0x81, CHR 0x9F], [CHR 0xE3, CHR 0x80, CHR 0x80]]"

function drop_runes :: "string list \<Rightarrow> string \<Rightarrow> string" where
  "drop_runes ws s =
     (case find (\<lambda>w. w \<noteq> [] \<and> prefix w s) ws of
        None \<Rightarrow> s
      | Some w \<Rightarrow> drop_runes ws (drop (length w) s))"
  by pat_completeness auto
termination
proof (relation "measure (\<lambda>(ws, s). length s)")
  fix ws s w
  assume "find (\<lambda>w. w \<noteq> [] \<and> prefix w s) ws = Some w"
  then have "w \<noteq> [] \<and> prefix w s"
    by (auto dest: find_SomeD)
  then have "0 < length w" and "length w \<le> length s"
    by (auto dest: prefix_length_le)
  then have "length s - length w < length s"
    by linarith
  then show "((ws, drop (length w) s), ws, s) \<in> measure (\<lambda>(ws, s). length s)"
    by simp
qed simp

declare drop_runes.simps [simp del]

definition strings_TrimSpace :: "string \<Rightarrow> string" where
  "strings_TrimSpace s =
     rev (drop_runes (map rev space_runes) (rev (drop_runes space_runes s)))"

lemma drop_runes_suffix: "suffix (drop_runes ws s) s"
proof (induction ws s rule: drop_runes.induct)
  case (1 ws s)
  show ?case
  proof (cases "find (\<lambda>w. w \<noteq> [] \<and> prefix w s) ws")
    case None
    then show ?thesis by (simp add: drop_runes.simps [of ws s])
  next
    case (Some w)
    with 1 have "suffix (drop_runes ws (drop (length w) s)) (drop (length w) s)" by simp
    then have "suffix (drop_runes ws (drop (length w) s)) s"
      using suffix_drop suffix_order.trans by blast
    with Some show ?thesis by (simp add: drop_runes.simps [of ws s])
  qed
qed

lemma drop_runes_id:
  "(\<forall>w \<in> set ws. w = [] \<or> \<not> prefix w s) \<Longrightarrow> drop_runes ws s = s"
  by (subst drop_runes.simps) (auto split: option.splits dest: find_SomeD)

lemma strings_TrimSpace_sublist: "sublist (strings_TrimSpace s) s"
proof -
  have "suffix (drop_runes (map rev space_runes) (rev (drop_runes space_runes s)))
      (rev (drop_runes space_runes s))"
    by (rule drop_runes_suffix)
  then have "prefix (strings_TrimSpace s) (drop_runes space_runes s)"
    by (metis strings_TrimSpace_def suffix_to_prefix rev_rev_ident)
  then show ?thesis
    by (metis drop_runes_suffix prefix_imp_sublist suffix_imp_sublist sublist_order.order.trans)
qed

lemma set_TrimSpace: "set (strings_TrimSpace s) \<subseteq> set s"
  using strings_TrimSpace_sublist by (meson set_mono_sublist)

text \<open>A text of printable ASCII bytes has nothing to trim, whatever blanks stand before it.\<close>

definition graphic :: "char \<Rightarrow> bool" where
  "graphic c \<longleftrightarrow> 33 \<le> (of_char c :: nat) \<and> (of_char c :: nat) < 127"

lemma space_rune_edges:
  assumes "w \<in> set space_runes \<union> set (map rev space_runes)"
  shows "w \<noteq> [] \<and> \<not> graphic (hd w)"
proof -
  have "list_all (\<lambda>w. w \<noteq> [] \<and> \<not> graphic (hd w)) (space_runes @ map rev space_runes)"
    by code_simp
  then show ?thesis
    using assms by (auto simp: list_all_iff simp del: list_all_append)
qed

lemma drop_runes_graphic:
  assumes "ws = space_runes \<or> ws = map rev space_runes" and "s = [] \<or> graphic (hd s)"
  shows "drop_runes ws s = s"
proof (rule drop_runes_id, intro ballI disjI2 notI)
  fix w assume "w \<in> set ws" and "prefix w s"
  then have "w \<noteq> [] \<and> \<not> graphic (hd w)"
    using assms(1) by (intro space_rune_edges) auto
  with \<open>prefix w s\<close> assms(2) show False
    by (auto simp: prefix_def)
qed

lemma drop_runes_blank:
  "drop_runes space_runes (CHR '' '' # s) = drop_runes space_runes s"
proof -
  have "find (\<lambda>w. w \<noteq> [] \<and> prefix w (CHR '' '' # s)) space_runes = Some '' ''"
    by (simp add: space_runes_def)
  then show ?thesis by (subst drop_runes.simps) simp
qed

lemma drop_runes_blanks:
  "drop_runes space_runes (replicate n CHR '' '' @ s) = drop_runes space_runes s"
  by (induction n) (simp_all add: drop_runes_blank)

lemma strings_TrimSpace_padded:
  assumes "\<forall>c \<in> set s. graphic c"
  shows "strings_TrimSpace (replicate n CHR '' '' @ s) = s"
proof -
  have edges: "t = [] \<or> graphic (hd t)" if "set t \<subseteq> set s" for t
    using assms that by (cases t) auto
  have "drop_runes space_runes s = s"
    by (rule drop_runes_graphic) (simp_all add: edges)
  moreover have "drop_runes (map rev space_runes) (rev s) = rev s"
    using edges [of "rev s"] by (intro drop_runes_graphic) simp_all
  ultimately show ?thesis
    by (simp add: strings_TrimSpace_def drop_runes_blanks)
qed

text \<open>
  \<open>strings.ToLower\<close>: bytewise on ASCII text.  A text with a byte above 127 goes through Go's
  Unicode case tables, the parameter \<open>uni\<close>.
\<close>

definition is_ascii :: "string \<Rightarrow> bool" where
  "is_ascii s \<longleftrightarrow> (\<forall>c \<in> set s. (of_char c :: nat) < 128)"

definition lower_byte :: "char \<Rightarrow> char" where
  "lower_byte c = (let n = (of_char c :: nat) in if 65 \<le> n \<and> n \<le> 90 then char_of (n + 32) else c)"

definition strings_ToLower :: "(string \<Rightarrow> string) \<Rightarrow> string \<Rightarrow> string" where
  "strings_ToLower uni s = (if is_ascii s then map lower_byte s else uni s)"

lemma lower_byte_idem [simp]: "lower_byte (lower_byte c) = lower_byte c"
  by (auto simp: lower_byte_def Let_def)

lemma lower_byte_ascii: "(of_char c :: nat) < 128 \<Longrightarrow> (of_char (lower_byte c) :: nat) < 128"
  by (auto simp: lower_byte_def Let_def)

lemma strings_ToLower_idem:
  "is_ascii s \<Longrightarrow> strings_ToLower uni (strings_ToLower uni s) = strings_ToLower uni s"
  by (auto simp: strings_ToLower_def is_ascii_def lower_byte_ascii)

section \<open>Slash-separated paths\<close>

text \<open>
  \<open>path.Clean\<close> (and \<open>filepath.Clean\<close> on a Unix system): empty and dot components go, a dot-dot
  removes the component before it, or stays when there is none and the path is relative.
\<close>

fun clean_step :: "bool \<Rightarrow> string list \<Rightarrow> string \<Rightarrow> string list" where
  "clean_step rooted stack c =
     (if c = [] \<or> c = ''.'' then stack
      else if c = ''..'' then
        (if stack \<noteq> [] \<and> hd stack \<noteq> ''..'' then tl stack
         else if rooted then stack else ''..'' # stack)
      else c # stack)"

definition path_Clean :: "string \<Rightarrow> string" where
  "path_Clean p =
     (let rooted = prefix ''/'' p;
          out = (if rooted then ''/'' else []) @
                join_on CHR ''/'' (rev (foldl (clean_step rooted) [] (strings_Split CHR ''/'' p)))
      in if out = [] then ''.'' else out)"

text \<open>\<open>filepath.Base\<close>, \<open>filepath.Dir\<close> and the two-argument \<open>filepath.Join\<close> on a Unix system.\<close>

definition filepath_Base :: "string \<Rightarrow> string" where
  "filepath_Base p =
     (if p = [] then ''.''
      else let q = rev (dropWhile (\<lambda>c. c = CHR ''/'') (rev p))
           in if q = [] then ''/'' else last (strings_Split CHR ''/'' q))"

definition filepath_Dir :: "string \<Rightarrow> string" where
  "filepath_Dir p =
     (case cut_last CHR ''/'' p of None \<Rightarrow> ''.'' | Some (d, f) \<Rightarrow> path_Clean (d @ ''/''))"

definition filepath_Join :: "string \<Rightarrow> string \<Rightarrow> string" where
  "filepath_Join d f =
     (if d = [] \<and> f = [] then [] else if d = [] then path_Clean f
      else if f = [] then path_Clean d else path_Clean (d @ ''/'' @ f))"

end
