(* ===== verification/GoCodec.thy ===== *)
theory GoCodec
  imports GoStrings
begin

text \<open>
  What a printer and its parser promise each other, as locales, and the two formats that carry
  everything else: decimal numbers (\<open>strconv.Itoa\<close>, \<open>strconv.Atoi\<close>, \<open>strconv.ParseUint\<close>) and the
  key encodings (\<open>encoding/base64\<close>, \<open>encoding/hex\<close>).
\<close>

section \<open>Interfaces\<close>

locale text_codec =
  fixes enc :: "'a \<Rightarrow> string"
    and dec :: "string \<Rightarrow> 'a option"
    and valid :: "'a \<Rightarrow> bool"
  assumes dec_enc: "valid x \<Longrightarrow> dec (enc x) = Some x"
begin

lemma enc_inject: "valid x \<Longrightarrow> valid y \<Longrightarrow> enc x = enc y \<longleftrightarrow> x = y"
  by (metis dec_enc option.inject)

lemma those_dec_enc: "\<forall>x \<in> set xs. valid x \<Longrightarrow> those (map dec (map enc xs)) = Some xs"
  by (induction xs) (auto simp: dec_enc)

end

text \<open>A codec whose texts never contain a separator can be used in separated lists.\<close>

locale field_codec = text_codec enc dec valid
  for enc :: "'a \<Rightarrow> string" and dec :: "string \<Rightarrow> 'a option" and valid :: "'a \<Rightarrow> bool" +
  fixes sep :: char
  assumes enc_no_sep: "valid x \<Longrightarrow> sep \<notin> set (enc x)"
begin

lemma split_join_enc:
  "xs \<noteq> [] \<Longrightarrow> \<forall>x \<in> set xs. valid x \<Longrightarrow>
     strings_Split sep (join_on sep (map enc xs)) = map enc xs"
  by (rule strings_Split_join) (auto dest: enc_no_sep)

lemma those_split_join:
  "xs \<noteq> [] \<Longrightarrow> \<forall>x \<in> set xs. valid x \<Longrightarrow>
     those (map dec (strings_Split sep (join_on sep (map enc xs)))) = Some xs"
  using split_join_enc [of xs] those_dec_enc [of xs] by metis

end

section \<open>Decimal numbers\<close>

definition is_digit :: "char \<Rightarrow> bool" where
  "is_digit c \<longleftrightarrow> 48 \<le> (of_char c :: nat) \<and> (of_char c :: nat) \<le> 57"

definition digit_val :: "char \<Rightarrow> nat" where
  "digit_val c = of_char c - 48"

definition digit_char :: "nat \<Rightarrow> char" where
  "digit_char n = char_of (48 + n)"

lemma digit_char_inverse [simp]:
  "n < 10 \<Longrightarrow> is_digit (digit_char n)" "n < 10 \<Longrightarrow> digit_val (digit_char n) = n"
  by (simp_all add: is_digit_def digit_val_def digit_char_def)

fun dec_digits :: "nat \<Rightarrow> string \<Rightarrow> nat option" where
  "dec_digits acc [] = Some acc"
| "dec_digits acc (c # s) = (if is_digit c then dec_digits (10 * acc + digit_val c) s else None)"

definition parse_nat :: "string \<Rightarrow> nat option" where
  "parse_nat s = (if s = [] then None else dec_digits 0 s)"

fun itoa_nat :: "nat \<Rightarrow> string" where
  "itoa_nat n = (if n < 10 then [digit_char n] else itoa_nat (n div 10) @ [digit_char (n mod 10)])"

declare itoa_nat.simps [simp del]

lemma dec_digits_append:
  "dec_digits a (s @ t) = Option.bind (dec_digits a s) (\<lambda>b. dec_digits b t)"
  by (induction s arbitrary: a) auto

lemma dec_digits_itoa: "dec_digits 0 (itoa_nat n) = Some n"
proof (induction n rule: itoa_nat.induct)
  case (1 n)
  show ?case
    by (cases "n < 10") (use 1 in \<open>simp_all add: itoa_nat.simps [of n] dec_digits_append\<close>)
qed

lemma itoa_nat_nonempty [simp]: "itoa_nat n \<noteq> []"
  by (subst itoa_nat.simps) simp

lemma itoa_nat_digits: "c \<in> set (itoa_nat n) \<Longrightarrow> is_digit c"
proof (induction n rule: itoa_nat.induct)
  case (1 n)
  then show ?case
    by (cases "n < 10") (auto simp: itoa_nat.simps [of n])
qed

lemma is_digit_neq:
  "is_digit c \<Longrightarrow> \<not> is_digit d \<Longrightarrow> c \<noteq> d"
  by auto

lemma not_digits [simp]:
  "\<not> is_digit CHR ''.''" "\<not> is_digit CHR '':''" "\<not> is_digit CHR ''-''" "\<not> is_digit CHR ''+''"
  "\<not> is_digit CHR ''/''" "\<not> is_digit CHR '',''" "\<not> is_digit CHR '' ''" "\<not> is_digit CHR ''[''"
  "\<not> is_digit CHR '']''" "\<not> is_digit CHR ''%''" "\<not> is_digit CHR ''=''"
  "\<not> is_digit (CHR 0x0A)"
  by (simp_all add: is_digit_def)

lemma digits_exclude: "\<forall>c \<in> set s. is_digit c \<Longrightarrow> \<not> is_digit d \<Longrightarrow> d \<notin> set s"
  by auto

lemma itoa_nat_notin [simp]: "\<not> is_digit d \<Longrightarrow> d \<notin> set (itoa_nat n)"
  by (auto dest: itoa_nat_digits)

lemma parse_nat_itoa [simp]: "parse_nat (itoa_nat n) = Some n"
  by (simp add: parse_nat_def dec_digits_itoa)

lemma hd_itoa_nat: "is_digit (hd (itoa_nat n))"
  by (meson hd_in_set itoa_nat_digits itoa_nat_nonempty)

lemma hd_itoa_nat_pos: "0 < n \<Longrightarrow> hd (itoa_nat n) \<noteq> CHR ''0''"
proof (induction n rule: itoa_nat.induct)
  case (1 n)
  show ?case
  proof (cases "n < 10")
    case True
    have "digit_char n \<noteq> CHR ''0''"
    proof
      assume "digit_char n = CHR ''0''"
      then have "digit_val (digit_char n) = digit_val CHR ''0''" by (rule arg_cong)
      with True 1 show False by (simp add: digit_val_def [of "CHR ''0''"])
    qed
    with True show ?thesis by (simp add: itoa_nat.simps [of n])
  next
    case False
    with 1 show ?thesis by (simp add: itoa_nat.simps [of n])
  qed
qed

lemma length_itoa_nat_small: "n < 256 \<Longrightarrow> length (itoa_nat n) \<le> 3"
  by (subst itoa_nat.simps, subst itoa_nat.simps, subst itoa_nat.simps) auto

definition strconv_Itoa :: "int \<Rightarrow> string" where
  "strconv_Itoa i = (if i < 0 then CHR ''-'' # itoa_nat (nat (- i)) else itoa_nat (nat i))"

definition strconv_Atoi :: "string \<Rightarrow> int option" where
  "strconv_Atoi s =
     (let (neg, ds) = (case s of [] \<Rightarrow> (False, [])
                       | c # t \<Rightarrow> if c = CHR ''-'' then (True, t)
                                 else if c = CHR ''+'' then (False, t) else (False, s))
      in case parse_nat ds of None \<Rightarrow> None
         | Some n \<Rightarrow> let v = (if neg then - int n else int n)
                     in if in_int64 v then Some v else None)"

definition strconv_ParseUint16 :: "string \<Rightarrow> 16 word option" where
  "strconv_ParseUint16 s =
     (case parse_nat s of None \<Rightarrow> None
      | Some n \<Rightarrow> if n < 65536 then Some (of_nat n) else None)"

lemma strconv_Atoi_Itoa: "in_int64 i \<Longrightarrow> strconv_Atoi (strconv_Itoa i) = Some i"
proof (cases "i < 0")
  case False
  moreover obtain c t where ct: "itoa_nat (nat i) = c # t"
    by (cases "itoa_nat (nat i)") auto
  moreover have "is_digit c"
    using hd_itoa_nat [of "nat i"] ct by simp
  moreover have "parse_nat (c # t) = Some (nat i)"
    using ct parse_nat_itoa by metis
  moreover assume "in_int64 i"
  ultimately show ?thesis
    by (auto simp: strconv_Atoi_def strconv_Itoa_def Let_def)
qed (simp add: strconv_Atoi_def strconv_Itoa_def Let_def)

lemma strconv_Atoi_range: "strconv_Atoi s = Some i \<Longrightarrow> in_int64 i"
  by (auto simp: strconv_Atoi_def Let_def split: list.splits option.splits if_splits prod.splits)

lemma strconv_Atoi_empty [simp]: "strconv_Atoi [] = None"
  by (simp add: strconv_Atoi_def parse_nat_def)

lemma strconv_Itoa_of_nat [simp]: "strconv_Itoa (int n) = itoa_nat n"
  by (simp add: strconv_Itoa_def)

interpretation int_codec: text_codec strconv_Itoa strconv_Atoi in_int64
  by unfold_locales (rule strconv_Atoi_Itoa)

lemma strconv_ParseUint16_itoa: "strconv_ParseUint16 (itoa_nat (unat (w :: 16 word))) = Some w"
  using unsigned_less [where 'a = nat and w = w] by (simp add: strconv_ParseUint16_def)

end
