(* ===== verification/GoEncoding.thy ===== *)
theory GoEncoding
  imports GoCodec
begin

text \<open>
  \<open>encoding/hex.EncodeToString\<close> and \<open>encoding/base64.StdEncoding.DecodeString\<close>, with the inverse
  directions as reference functions, and both as interpretations of the codec interface.
\<close>

section \<open>Hexadecimal\<close>

definition hex_digit :: "nat \<Rightarrow> char" where
  "hex_digit n = (if n < 10 then char_of (48 + n) else char_of (87 + n))"

definition hex_val :: "char \<Rightarrow> nat option" where
  "hex_val c = (let n = (of_char c :: nat) in
     if 48 \<le> n \<and> n \<le> 57 then Some (n - 48)
     else if 97 \<le> n \<and> n \<le> 102 then Some (n - 87)
     else if 65 \<le> n \<and> n \<le> 70 then Some (n - 55) else None)"

definition hex_EncodeToString :: "string \<Rightarrow> string" where
  "hex_EncodeToString bs =
     concat (map (\<lambda>c. [hex_digit (of_char c div 16), hex_digit (of_char c mod 16)]) bs)"

fun hex_DecodeString :: "string \<Rightarrow> string option" where
  "hex_DecodeString [] = Some []"
| "hex_DecodeString [c] = None"
| "hex_DecodeString (c # d # s) =
     (case (hex_val c, hex_val d, hex_DecodeString s) of
        (Some a, Some b, Some t) \<Rightarrow> Some (char_of (16 * a + b) # t)
      | _ \<Rightarrow> None)"

lemma hex_val_digit [simp]: "n < 16 \<Longrightarrow> hex_val (hex_digit n) = Some n"
  by (auto simp: hex_val_def hex_digit_def Let_def)

lemma of_char_less [simp]: "(of_char c :: nat) < 256"
  by (metis of_char_of nat_of_char_less_256)

lemma of_char_div_16 [simp]: "(of_char c :: nat) div 16 < 16"
  using of_char_less [of c] by (simp add: less_mult_imp_div_less)

lemma hex_decode_encode: "hex_DecodeString (hex_EncodeToString bs) = Some bs"
  by (induction bs) (auto simp: hex_EncodeToString_def)

lemma length_hex_Encode [simp]: "length (hex_EncodeToString bs) = 2 * length bs"
  by (induction bs) (auto simp: hex_EncodeToString_def)

definition is_lower_hex :: "char \<Rightarrow> bool" where
  "is_lower_hex c \<longleftrightarrow> (let n = (of_char c :: nat) in 48 \<le> n \<and> n \<le> 57 \<or> 97 \<le> n \<and> n \<le> 102)"

lemma hex_digit_lower: "n < 16 \<Longrightarrow> is_lower_hex (hex_digit n)"
  by (auto simp: is_lower_hex_def hex_digit_def Let_def)

lemma hex_Encode_lower: "\<forall>c \<in> set (hex_EncodeToString bs). is_lower_hex c"
  by (auto simp: hex_EncodeToString_def hex_digit_lower)

interpretation hex_codec: text_codec hex_EncodeToString hex_DecodeString "\<lambda>_. True"
  by unfold_locales (rule hex_decode_encode)

section \<open>Base64\<close>

definition b64_char :: "nat \<Rightarrow> char" where
  "b64_char n =
     (if n < 26 then char_of (65 + n) else if n < 52 then char_of (71 + n)
      else if n < 62 then char_of (n - 4) else if n = 62 then CHR ''+'' else CHR ''/'')"

definition b64_val :: "char \<Rightarrow> nat option" where
  "b64_val c = (let n = (of_char c :: nat) in
     if 65 \<le> n \<and> n \<le> 90 then Some (n - 65)
     else if 97 \<le> n \<and> n \<le> 122 then Some (n - 71)
     else if 48 \<le> n \<and> n \<le> 57 then Some (n + 4)
     else if n = 43 then Some 62 else if n = 47 then Some 63 else None)"

text \<open>The text in groups of four; padding may close the last group only.\<close>

fun b64_quanta :: "string \<Rightarrow> string option" where
  "b64_quanta [] = Some []"
| "b64_quanta (a # b # c # d # s) =
     (case (b64_val a, b64_val b) of
        (Some x, Some y) \<Rightarrow>
          (if c = CHR ''='' then
             (if d = CHR ''='' \<and> s = [] then Some [char_of ((x * 64 + y) div 16)] else None)
           else (case b64_val c of None \<Rightarrow> None
             | Some z \<Rightarrow>
                 (if d = CHR ''='' then
                    (if s = [] then (let v = x * 4096 + y * 64 + z
                                     in Some [char_of (v div 1024), char_of (v div 4)]) else None)
                  else (case (b64_val d, b64_quanta s) of
                          (Some w, Some t) \<Rightarrow>
                            (let v = x * 262144 + y * 4096 + z * 64 + w
                             in Some (char_of (v div 65536) # char_of (v div 256) # char_of v # t))
                        | _ \<Rightarrow> None))))
      | _ \<Rightarrow> None)"
| "b64_quanta s = None"

text \<open>Go's decoder skips carriage returns and line feeds wherever they are.\<close>

definition base64_DecodeString :: "string \<Rightarrow> string option" where
  "base64_DecodeString s = b64_quanta (filter (\<lambda>c. c \<noteq> CHR 0x0A \<and> c \<noteq> CHR 0x0D) s)"

fun base64_EncodeToString :: "string \<Rightarrow> string" where
  "base64_EncodeToString [] = []"
| "base64_EncodeToString [a] =
     (let v = of_char a * 16
      in [b64_char (v div 64), b64_char (v mod 64), CHR ''='', CHR ''=''])"
| "base64_EncodeToString [a, b] =
     (let v = (of_char a * 256 + of_char b) * 4
      in [b64_char (v div 4096), b64_char (v div 64 mod 64), b64_char (v mod 64), CHR ''=''])"
| "base64_EncodeToString (a # b # c # s) =
     (let v = of_char a * 65536 + of_char b * 256 + of_char c
      in b64_char (v div 262144) # b64_char (v div 4096 mod 64) # b64_char (v div 64 mod 64) #
         b64_char (v mod 64) # base64_EncodeToString s)"

lemma b64_val_char [simp]: "n < 64 \<Longrightarrow> b64_val (b64_char n) = Some n"
  by (auto simp: b64_val_def b64_char_def Let_def)

lemma b64_char_special [simp]:
  "n < 64 \<Longrightarrow> b64_char n \<noteq> CHR ''=''"
  "n < 64 \<Longrightarrow> b64_char n \<noteq> CHR 0x0A"
  "n < 64 \<Longrightarrow> b64_char n \<noteq> CHR 0x0D"
  using b64_val_char [of n] by (auto simp: b64_val_def)

text \<open>Cutting a number into sextets and putting them together again.\<close>

lemma sextets2: "v div 64 * 64 + v mod 64 = (v :: nat)"
  by simp

lemma sextets3: "v div 4096 * 4096 + v div 64 mod 64 * 64 + v mod 64 = (v :: nat)"
proof -
  have "v div 4096 * 4096 + v div 64 mod 64 * 64 = (v div 64 div 64 * 64 + v div 64 mod 64) * 64"
    by (simp add: div_mult2_eq [symmetric] algebra_simps)
  then show ?thesis
    using sextets2 [of v] sextets2 [of "v div 64"] by simp
qed

lemma sextets4:
  "v div 262144 * 262144 + v div 4096 mod 64 * 4096 + v div 64 mod 64 * 64 + v mod 64 = (v :: nat)"
proof -
  have "v div 262144 * 262144 + v div 4096 mod 64 * 4096 =
      (v div 4096 div 64 * 64 + v div 4096 mod 64) * 4096"
    by (simp add: div_mult2_eq [symmetric] algebra_simps)
  then show ?thesis
    using sextets3 [of v] sextets2 [of "v div 4096"] by simp
qed

lemma bytes3:
  fixes x y z :: nat
  assumes "x < 256" and "y < 256" and "z < 256"
  shows "(x * 65536 + y * 256 + z) div 65536 = x"
    and "(x * 65536 + y * 256 + z) div 256 mod 256 = y"
    and "(x * 65536 + y * 256 + z) mod 256 = z"
    and "(x * 65536 + y * 256 + z) div 262144 < 64"
proof -
  have *: "x * 65536 + y * 256 + z = (x * 256 + y) * 256 + z" by simp
  have **: "(x * 65536 + y * 256 + z) div 256 = x * 256 + y"
    unfolding * using assms(3) by simp
  then show "(x * 65536 + y * 256 + z) div 256 mod 256 = y"
    using assms(2) by simp
  have "(x * 65536 + y * 256 + z) div 65536 = (x * 65536 + y * 256 + z) div 256 div 256"
    by (simp add: div_mult2_eq [symmetric])
  also have "\<dots> = x"
    unfolding ** using assms(2) by simp
  finally show "(x * 65536 + y * 256 + z) div 65536 = x" .
  show "(x * 65536 + y * 256 + z) mod 256 = z"
    unfolding * using assms(3) by (metis mod_less mod_mult_self3)
  show "(x * 65536 + y * 256 + z) div 262144 < 64"
    using assms by (simp add: less_mult_imp_div_less)
qed

lemma bytes2: "x < 256 \<Longrightarrow> y < 256 \<Longrightarrow> (x * 256 + y) * 4 div 4096 < (64 :: nat)"
  by (subst div_less_iff_less_mult) simp_all

lemma b64_quanta_last1:
  assumes "x < 64" and "y < 64"
  shows "b64_quanta [b64_char x, b64_char y, CHR ''='', CHR ''=''] =
     Some [char_of ((x * 64 + y) div 16)]"
  using assms by simp

lemma b64_quanta_last2:
  assumes "x < 64" and "y < 64" and "z < 64"
  shows "b64_quanta [b64_char x, b64_char y, b64_char z, CHR ''=''] =
     Some [char_of ((x * 4096 + y * 64 + z) div 1024), char_of ((x * 4096 + y * 64 + z) div 4)]"
  using assms by (simp add: Let_def)

lemma b64_quanta_step:
  assumes "x < 64" and "y < 64" and "z < 64" and "w < 64" and "b64_quanta s = Some t"
    and "v = x * 262144 + y * 4096 + z * 64 + w"
  shows "b64_quanta (b64_char x # b64_char y # b64_char z # b64_char w # s) =
     Some (char_of (v div 65536) # char_of (v div 256) # char_of v # t)"
  using assms by (simp add: Let_def)

lemma b64_quanta_encode: "b64_quanta (base64_EncodeToString bs) = Some bs"
proof (induction bs rule: base64_EncodeToString.induct)
  case (2 a)
  have "of_char a * 16 div 64 < (64 :: nat)"
    using of_char_less [of a] by (simp add: less_mult_imp_div_less)
  then show ?case
    unfolding base64_EncodeToString.simps Let_def
    by (subst b64_quanta_last1) (simp_all only: sextets2, simp_all)
next
  case (3 a b)
  have "(of_char a * 256 + of_char b) * 4 div 4096 < (64 :: nat)"
    by (rule bytes2) simp_all
  moreover have "(of_char a * 256 + of_char b) div 256 = (of_char a :: nat)"
    using of_char_less [of b] by simp
  moreover have "char_of ((of_char a * 256 + of_char b) :: nat) = b"
    using of_char_less [of b] by (metis char_of_mod_256 char_of_char mod_mult_self3 mod_less)
  ultimately show ?case
    unfolding base64_EncodeToString.simps Let_def
    by (subst b64_quanta_last2) (simp_all only: sextets3, simp_all add: mult.commute)
next
  case (4 a b c s)
  let ?v = "of_char a * 65536 + of_char b * 256 + of_char c :: nat"
  note bytes = bytes3 [of "of_char a" "of_char b" "of_char c"]
  have "b64_quanta (base64_EncodeToString (a # b # c # s)) =
      Some (char_of (?v div 65536) # char_of (?v div 256) # char_of ?v # s)"
    unfolding base64_EncodeToString.simps Let_def
    by (rule b64_quanta_step) (use bytes(4) 4 sextets4 [of ?v] in \<open>simp_all\<close>)
  moreover have "char_of (?v div 65536) = a"
    using bytes(1) by simp
  moreover have "char_of (?v div 256) = b"
    using bytes(2) by (metis char_of_mod_256 char_of_char of_char_less)
  moreover have "char_of ?v = c"
    using bytes(3) by (metis char_of_mod_256 char_of_char of_char_less)
  ultimately show ?case by simp
qed simp

lemma base64_Encode_no_newline:
  "\<forall>c \<in> set (base64_EncodeToString bs). c \<noteq> CHR 0x0A \<and> c \<noteq> CHR 0x0D"
proof (induction bs rule: base64_EncodeToString.induct)
  case (2 a)
  then show ?case
    using of_char_less [of a] by (auto simp: Let_def less_mult_imp_div_less)
next
  case (3 a b)
  have "(of_char a * 256 + of_char b) * 4 div 4096 < (64 :: nat)"
    by (rule bytes2) simp_all
  then show ?case unfolding base64_EncodeToString.simps Let_def by auto
next
  case (4 a b c s)
  with bytes3(4) [of "of_char a" "of_char b" "of_char c"] show ?case by (auto simp: Let_def)
qed simp

lemma base64_decode_encode: "base64_DecodeString (base64_EncodeToString bs) = Some bs"
  using base64_Encode_no_newline [of bs]
  by (simp add: base64_DecodeString_def b64_quanta_encode filter_id_conv [THEN iffD2])

interpretation base64_codec: text_codec base64_EncodeToString base64_DecodeString "\<lambda>_. True"
  by unfold_locales (rule base64_decode_encode)

end
