(* ===== verification/GoNet.thy ===== *)
theory GoNet
  imports GoEncoding
begin

text \<open>
  Host and port texts (\<open>net.SplitHostPort\<close>, \<open>net.JoinHostPort\<close>) and the value types of
  \<open>net/netip\<close>: \<open>Addr\<close>, \<open>Prefix\<close>, \<open>AddrPort\<close> with their parsers and printers.  A parser's error
  text never reaches a decision of the program, so a failed parse is \<open>None\<close>.
\<close>

section \<open>Host and port\<close>

text \<open>The message of \<open>net.AddrError\<close>.\<close>

definition addr_error :: "string \<Rightarrow> string \<Rightarrow> go_error" where
  "addr_error hp why = ErrMsg (if hp = [] then why else ''address '' @ hp @ '': '' @ why)"

definition net_SplitHostPort :: "string \<Rightarrow> (string \<times> string) result" where
  "net_SplitHostPort hp =
     (case cut_last CHR '':'' hp of
        None \<Rightarrow> Inl (addr_error hp ''missing port in address'')
      | Some (front, port) \<Rightarrow>
          if hd hp = CHR ''['' then
            (if CHR '']'' \<notin> set hp then Inl (addr_error hp ''missing ']' in address'')
             else let host = takeWhile (\<lambda>c. c \<noteq> CHR '']'') (tl hp);
                      after = tl (dropWhile (\<lambda>c. c \<noteq> CHR '']'') hp)
                  in if after = [] then Inl (addr_error hp ''missing port in address'')
                     else if front \<noteq> CHR ''['' # host @ '']'' then
                       (if hd after = CHR '':''
                        then Inl (addr_error hp ''too many colons in address'')
                        else Inl (addr_error hp ''missing port in address''))
                     else if CHR ''['' \<in> set (tl hp)
                       then Inl (addr_error hp ''unexpected '[' in address'')
                     else if CHR '']'' \<in> set after
                       then Inl (addr_error hp ''unexpected ']' in address'')
                     else Inr (host, port))
          else if CHR '':'' \<in> set front
            then Inl (addr_error hp ''too many colons in address'')
          else if CHR ''['' \<in> set hp
            then Inl (addr_error hp ''unexpected '[' in address'')
          else if CHR '']'' \<in> set hp
            then Inl (addr_error hp ''unexpected ']' in address'')
          else Inr (front, port))"

definition net_JoinHostPort :: "string \<Rightarrow> string \<Rightarrow> string" where
  "net_JoinHostPort host port =
     (if CHR '':'' \<in> set host then CHR ''['' # host @ '']:'' @ port else host @ CHR '':'' # port)"

definition plain_host :: "string \<Rightarrow> bool" where
  "plain_host h \<longleftrightarrow> CHR ''['' \<notin> set h \<and> CHR '']'' \<notin> set h"

definition plain_port :: "string \<Rightarrow> bool" where
  "plain_port p \<longleftrightarrow> CHR '':'' \<notin> set p \<and> CHR ''['' \<notin> set p \<and> CHR '']'' \<notin> set p"

lemma SplitHostPort_plain:
  assumes "plain_host h" and "CHR '':'' \<notin> set h" and "plain_port p"
  shows "net_SplitHostPort (h @ CHR '':'' # p) = Inr (h, p)"
proof -
  have "cut_last CHR '':'' (h @ CHR '':'' # p) = Some (h, p)"
    using assms by (intro cut_last_append) (simp add: plain_port_def)
  moreover have "hd (h @ CHR '':'' # p) \<noteq> CHR ''[''"
    using assms by (cases h) (auto simp: plain_host_def)
  ultimately show ?thesis
    using assms by (simp add: net_SplitHostPort_def plain_host_def plain_port_def)
qed

lemma SplitHostPort_bracketed:
  assumes "plain_host h" and "plain_port p"
  shows "net_SplitHostPort (CHR ''['' # h @ '']:'' @ p) = Inr (h, p)"
proof -
  have cut: "cut_last CHR '':'' (CHR ''['' # h @ CHR '']'' # CHR '':'' # p) =
      Some (CHR ''['' # h @ '']'', p)"
    using cut_last_append [of "CHR '':''" p "CHR ''['' # h @ '']''"] assms
    by (simp add: plain_port_def)
  have drop: "dropWhile (\<lambda>c. c \<noteq> CHR '']'') (CHR ''['' # h @ CHR '']'' # CHR '':'' # p) =
      CHR '']'' # CHR '':'' # p"
    using assms dropWhile_neq_append [of "CHR '']''" "CHR ''['' # h"] by (simp add: plain_host_def)
  show ?thesis
    using assms by (simp add: net_SplitHostPort_def cut drop plain_host_def plain_port_def)
qed

lemma SplitHostPort_JoinHostPort:
  "plain_host h \<Longrightarrow> plain_port p \<Longrightarrow> net_SplitHostPort (net_JoinHostPort h p) = Inr (h, p)"
  using SplitHostPort_plain [of h p] SplitHostPort_bracketed [of h p]
  by (simp add: net_JoinHostPort_def)

lemma SplitHostPort_empty [simp]: "is_ok (net_SplitHostPort []) = False"
  by (simp add: net_SplitHostPort_def cut_last_def)

section \<open>Addresses\<close>

text \<open>
  \<open>netip.Addr\<close>: the zero value, an IPv4 address, or an IPv6 address (eight 16-bit groups and a
  zone).  \<open>Addr_wf\<close> holds of every value the package constructs.
\<close>

datatype addr =
    AddrInvalid
  | V4 "8 word" "8 word" "8 word" "8 word"
  | V6 "16 word list" string

fun Addr_wf :: "addr \<Rightarrow> bool" where
  "Addr_wf (V6 gs z) = (length gs = 8)"
| "Addr_wf _ = True"

fun Addr_Is4 :: "addr \<Rightarrow> bool" where
  "Addr_Is4 (V4 a b c d) = True"
| "Addr_Is4 _ = False"

fun Addr_Is6 :: "addr \<Rightarrow> bool" where
  "Addr_Is6 (V6 gs z) = True"
| "Addr_Is6 _ = False"

fun Addr_Is4In6 :: "addr \<Rightarrow> bool" where
  "Addr_Is4In6 (V6 gs z) = (take 6 gs = [0, 0, 0, 0, 0, 0xFFFF])"
| "Addr_Is4In6 _ = False"

fun Addr_IsValid :: "addr \<Rightarrow> bool" where
  "Addr_IsValid AddrInvalid = False"
| "Addr_IsValid _ = True"

lemma Addr_Is4_Is6: "\<not> (Addr_Is4 a \<and> Addr_Is6 a)"
  by (cases a) auto

lemma Addr_IsValid_iff: "Addr_IsValid a \<longleftrightarrow> Addr_Is4 a \<or> Addr_Is6 a"
  by (cases a) auto

subsection \<open>IPv4 text\<close>

definition parse_octet :: "string \<Rightarrow> 8 word option" where
  "parse_octet s =
     (case parse_nat s of None \<Rightarrow> None
      | Some n \<Rightarrow> if n \<le> 255 \<and> (length s = 1 \<or> hd s \<noteq> CHR ''0'') then Some (of_nat n) else None)"

definition string_octet :: "8 word \<Rightarrow> string" where
  "string_octet w = itoa_nat (unat w)"

definition parseIPv4Fields :: "string \<Rightarrow> (8 word \<times> 8 word \<times> 8 word \<times> 8 word) option" where
  "parseIPv4Fields s =
     (case those (map parse_octet (strings_Split CHR ''.'' s)) of
        Some [a, b, c, d] \<Rightarrow> Some (a, b, c, d)
      | _ \<Rightarrow> None)"

definition string4 :: "8 word \<Rightarrow> 8 word \<Rightarrow> 8 word \<Rightarrow> 8 word \<Rightarrow> string" where
  "string4 a b c d = join_on CHR ''.'' (map string_octet [a, b, c, d])"

lemma parse_octet_string: "parse_octet (string_octet w) = Some w"
proof -
  have le: "unat w < 256"
    using unsigned_less [where 'a = nat and w = w] by simp
  have "length (itoa_nat (unat w)) = 1 \<or> hd (itoa_nat (unat w)) \<noteq> CHR ''0''"
    by (cases "unat w = 0") (auto simp: itoa_nat.simps [of 0] hd_itoa_nat_pos)
  with le show ?thesis
    by (simp add: parse_octet_def string_octet_def)
qed

lemma string_octet_notin: "\<not> is_digit d \<Longrightarrow> d \<notin> set (string_octet w)"
  by (simp add: string_octet_def)

interpretation octet: field_codec string_octet parse_octet "\<lambda>_. True" "CHR ''.''"
  by unfold_locales (simp_all add: parse_octet_string string_octet_notin)

lemma parseIPv4Fields_string4: "parseIPv4Fields (string4 a b c d) = Some (a, b, c, d)"
  using octet.those_split_join [of "[a, b, c, d]"]
  by (simp add: parseIPv4Fields_def string4_def)

lemma set_string4: "x \<in> set (string4 a b c d) \<Longrightarrow> is_digit x \<or> x = CHR ''.''"
  by (auto simp: string4_def string_octet_def dest: itoa_nat_digits)

lemma string4_notin: "\<not> is_digit x \<Longrightarrow> x \<noteq> CHR ''.'' \<Longrightarrow> x \<notin> set (string4 a b c d)"
  by (auto dest: set_string4)

subsection \<open>IPv6 text\<close>

definition hex_nat :: "string \<Rightarrow> nat" where
  "hex_nat s = foldl (\<lambda>a c. 16 * a + (case hex_val c of Some v \<Rightarrow> v | None \<Rightarrow> 0)) 0 s"

definition is_hex :: "char \<Rightarrow> bool" where
  "is_hex c \<longleftrightarrow> hex_val c \<noteq> None"

definition group_of_bytes :: "8 word \<Rightarrow> 8 word \<Rightarrow> 16 word" where
  "group_of_bytes a b = of_nat (unat a * 256 + unat b)"

text \<open>
  The loop of \<open>parseIPv6\<close>: the groups read so far, the position of an ellipsis, the rest of the
  text.  Each round consumes at least one hexadecimal digit.
\<close>

function parse6_loop ::
  "16 word list \<Rightarrow> nat option \<Rightarrow> string \<Rightarrow> (16 word list \<times> nat option \<times> string) option" where
  "parse6_loop acc ell s =
     (if 8 \<le> length acc then Some (acc, ell, s)
      else let digits = takeWhile is_hex s; rest = dropWhile is_hex s in
        if digits = [] \<or> 4 < length digits then None
        else if rest \<noteq> [] \<and> hd rest = CHR ''.'' then
          (if ell = None \<and> length acc \<noteq> 6 then None
           else if 8 < length acc + 2 then None
           else (case parseIPv4Fields s of None \<Rightarrow> None
                 | Some (a, b, c, d) \<Rightarrow>
                     Some (acc @ [group_of_bytes a b, group_of_bytes c d], ell, [])))
        else let acc' = acc @ [of_nat (hex_nat digits)] in
          (case rest of
             [] \<Rightarrow> Some (acc', ell, [])
           | c # t \<Rightarrow>
               if c \<noteq> CHR '':'' \<or> t = [] then None
               else if hd t = CHR '':'' then
                 (if ell \<noteq> None then None
                  else if tl t = [] then Some (acc', Some (length acc'), [])
                  else parse6_loop acc' (Some (length acc')) (tl t))
               else parse6_loop acc' ell t))"
  by pat_completeness auto
termination
proof (relation "measure (\<lambda>(acc, ell, s). length s)", goal_cases)
  case 1
  then show ?case by simp
next
  case (2 acc ell s digits rest acc' c t)
  have "length rest \<le> length s"
    using 2(3) by (simp add: length_dropWhile_le)
  moreover have "length rest = Suc (length t)"
    by (metis 2(7) length_Cons)
  ultimately show ?case by (cases t) auto
next
  case (3 acc ell s digits rest acc' c t)
  have "length rest \<le> length s"
    using 3(3) by (simp add: length_dropWhile_le)
  moreover have "length rest = Suc (length t)"
    by (metis 3(7) length_Cons)
  ultimately show ?case by simp
qed

declare parse6_loop.simps [simp del]

definition parse6_finish :: "16 word list \<times> nat option \<times> string \<Rightarrow> 16 word list option" where
  "parse6_finish r =
     (case r of (acc, ell, s) \<Rightarrow>
        if s \<noteq> [] then None
        else if length acc < 8 then
          (case ell of None \<Rightarrow> None
           | Some e \<Rightarrow> Some (take e acc @ replicate (8 - length acc) 0 @ drop e acc))
        else if ell \<noteq> None then None else Some acc)"

definition parse6_groups :: "string \<Rightarrow> 16 word list option" where
  "parse6_groups s =
     (if prefix ''::'' s then
        (if drop 2 s = [] then Some (replicate 8 0)
         else Option.bind (parse6_loop [] (Some 0) (drop 2 s)) parse6_finish)
      else Option.bind (parse6_loop [] None s) parse6_finish)"

definition netip_parseIPv6 :: "string \<Rightarrow> addr option" where
  "netip_parseIPv6 s =
     (if CHR ''%'' \<in> set s then
        (let body = takeWhile (\<lambda>c. c \<noteq> CHR ''%'') s; zone = tl (dropWhile (\<lambda>c. c \<noteq> CHR ''%'') s)
         in if zone = [] then None else map_option (\<lambda>gs. V6 gs zone) (parse6_groups body))
      else map_option (\<lambda>gs. V6 gs []) (parse6_groups s))"

definition netip_parseIPv4 :: "string \<Rightarrow> addr option" where
  "netip_parseIPv4 s = map_option (\<lambda>(a, b, c, d). V4 a b c d) (parseIPv4Fields s)"

definition netip_ParseAddr :: "string \<Rightarrow> addr option" where
  "netip_ParseAddr s =
     (case find (\<lambda>c. c = CHR ''.'' \<or> c = CHR '':'' \<or> c = CHR ''%'') s of
        None \<Rightarrow> None
      | Some c \<Rightarrow> if c = CHR ''.'' then netip_parseIPv4 s
                  else if c = CHR '':'' then netip_parseIPv6 s else None)"

lemma parse6_loop_length:
  "parse6_loop acc ell s = Some (acc', ell', s') \<Longrightarrow> length acc \<le> 8 \<Longrightarrow> length acc' \<le> 8"
proof (induction acc ell s rule: parse6_loop.induct)
  case (1 acc ell s)
  show ?case
  proof (cases "8 \<le> length acc")
    case True
    with 1 show ?thesis by (simp add: parse6_loop.simps [of acc ell s])
  next
    case False
    with 1 show ?thesis
      by (subst (asm) parse6_loop.simps)
        (auto simp: Let_def split: if_splits option.splits list.splits)
  qed
qed

lemma parse6_finish_length:
  "parse6_finish (acc, ell, s) = Some gs \<Longrightarrow> length acc \<le> 8 \<Longrightarrow> length gs = 8"
  by (auto simp: parse6_finish_def split: if_splits option.splits)

lemma parse6_groups_length: "parse6_groups s = Some gs \<Longrightarrow> length gs = 8"
  by (auto simp: parse6_groups_def bind_eq_Some_conv split: if_splits
      dest!: parse6_finish_length dest: parse6_loop_length)

lemma ParseAddr_wf: "netip_ParseAddr s = Some a \<Longrightarrow> Addr_wf a \<and> Addr_IsValid a"
  by (auto simp: netip_ParseAddr_def netip_parseIPv4_def netip_parseIPv6_def Let_def
      dest: parse6_groups_length split: option.splits if_splits)

end
