(* ===== verification/GoNetIP.thy ===== *)
theory GoNetIP
  imports GoNet
begin

text \<open>
  Printing of \<open>netip\<close> values and the round trips: every well-formed address, prefix and
  address-port pair is recovered from its text.
\<close>

section \<open>Printing\<close>

fun string_hex :: "nat \<Rightarrow> string" where
  "string_hex n = (if n < 16 then [hex_digit n] else string_hex (n div 16) @ [hex_digit (n mod 16)])"

declare string_hex.simps [simp del]

definition string_group :: "16 word \<Rightarrow> string" where
  "string_group g = string_hex (unat g)"

text \<open>
  The longest run of at least two zero groups, the first one among equals, as its start and end
  (\<open>appendTo6\<close>): index \<open>i\<close> is considered against the best run found at smaller indices.
\<close>

definition zero_run_at :: "16 word list \<Rightarrow> nat \<Rightarrow> nat" where
  "zero_run_at gs i = length (takeWhile (\<lambda>g. g = 0) (drop i gs))"

definition zero_run :: "16 word list \<Rightarrow> (nat \<times> nat) option" where
  "zero_run gs =
     foldl (\<lambda>best i. let l = zero_run_at gs i in
              case best of
                None \<Rightarrow> if 2 \<le> l then Some (i, i + l) else None
              | Some (b, e) \<Rightarrow> if 2 \<le> l \<and> e - b < l then Some (i, i + l) else best)
       None [0..<8]"

definition string6 :: "16 word list \<Rightarrow> string" where
  "string6 gs =
     (case zero_run gs of
        None \<Rightarrow> join_on CHR '':'' (map string_group gs)
      | Some (b, e) \<Rightarrow>
          join_on CHR '':'' (map string_group (take b gs)) @ ''::'' @
          join_on CHR '':'' (map string_group (drop e gs)))"

definition group_hi :: "16 word \<Rightarrow> 8 word" where
  "group_hi g = of_nat (unat g div 256)"

definition group_lo :: "16 word \<Rightarrow> 8 word" where
  "group_lo g = of_nat (unat g mod 256)"

definition string4In6 :: "16 word list \<Rightarrow> string" where
  "string4In6 gs =
     ''::ffff:'' @ string4 (group_hi (gs ! 6)) (group_lo (gs ! 6)) (group_hi (gs ! 7)) (group_lo (gs ! 7))"

fun Addr_String :: "addr \<Rightarrow> string" where
  "Addr_String AddrInvalid = ''invalid IP''"
| "Addr_String (V4 a b c d) = string4 a b c d"
| "Addr_String (V6 gs z) =
     (if Addr_Is4In6 (V6 gs z) then string4In6 gs else string6 gs) @
     (if z = [] then [] else CHR ''%'' # z)"

section \<open>Hexadecimal groups\<close>

lemma hex_nat_append1: "hex_nat (s @ [c]) = 16 * hex_nat s + (case hex_val c of Some v \<Rightarrow> v | None \<Rightarrow> 0)"
  by (simp add: hex_nat_def)

lemma hex_nat_string_hex: "hex_nat (string_hex n) = n"
proof (induction n rule: string_hex.induct)
  case (1 n)
  show ?case
    by (cases "n < 16") (use 1 in \<open>simp_all add: string_hex.simps [of n] hex_nat_append1\<close>, simp add: hex_nat_def)
qed

lemma is_hex_digit [simp]: "n < 16 \<Longrightarrow> is_hex (hex_digit n)"
  by (simp add: is_hex_def)

lemma string_hex_is_hex: "c \<in> set (string_hex n) \<Longrightarrow> is_hex c"
proof (induction n rule: string_hex.induct)
  case (1 n)
  then show ?case
    by (cases "n < 16") (auto simp: string_hex.simps [of n])
qed

lemma string_hex_nonempty [simp]: "string_hex n \<noteq> []"
  by (subst string_hex.simps) simp

lemma length_string_hex: "n < 65536 \<Longrightarrow> length (string_hex n) \<le> 4"
  by (subst string_hex.simps, subst string_hex.simps, subst string_hex.simps, subst string_hex.simps)
    (auto simp: div_mult2_eq [symmetric])

lemma not_hex [simp]:
  "\<not> is_hex CHR '':''" "\<not> is_hex CHR ''.''" "\<not> is_hex CHR ''%''" "\<not> is_hex CHR ''[''"
  "\<not> is_hex CHR '']''" "\<not> is_hex CHR ''/''" "\<not> is_hex CHR '',''" "\<not> is_hex CHR '' ''"
  by (simp_all add: is_hex_def hex_val_def)

lemma digit_is_hex: "is_digit c \<Longrightarrow> is_hex c"
  by (simp add: is_hex_def hex_val_def is_digit_def Let_def)

lemma string_group_hex: "c \<in> set (string_group g) \<Longrightarrow> is_hex c"
  by (simp add: string_group_def string_hex_is_hex)

lemma string_group_nonempty [simp]: "string_group g \<noteq> []"
  by (simp add: string_group_def)

lemma length_string_group: "length (string_group g) \<le> 4"
  using unsigned_less [where 'a = nat and w = g] by (simp add: string_group_def length_string_hex)

lemma hex_nat_string_group [simp]: "of_nat (hex_nat (string_group g)) = g"
  by (simp add: string_group_def hex_nat_string_hex)

definition parse_group :: "string \<Rightarrow> 16 word option" where
  "parse_group s = (if s = [] \<or> 4 < length s \<or> \<not> list_all is_hex s then None else Some (of_nat (hex_nat s)))"

interpretation group: field_codec string_group parse_group "\<lambda>_. True" "CHR '':''"
  by unfold_locales
    (auto simp: parse_group_def list_all_iff string_group_hex not_less length_string_group
      dest: string_group_hex)

lemma group_hi_lo: "group_of_bytes (group_hi g) (group_lo g) = g"
proof -
  have "unat g < 65536"
    using unsigned_less [where 'a = nat and w = g] by simp
  then have "unat g div 256 < 256"
    by (simp add: less_mult_imp_div_less)
  then have "unat (group_hi g) = unat g div 256"
    by (simp add: group_hi_def unat_of_nat)
  moreover have "unat (group_lo g) = unat g mod 256"
    by (simp add: group_lo_def unat_of_nat)
  ultimately show ?thesis
    by (simp add: group_of_bytes_def div_mult_mod_eq)
qed

section \<open>The IPv6 round trip\<close>

lemma takeWhile_group [simp]:
  "\<not> is_hex c \<Longrightarrow> takeWhile is_hex (string_group g @ c # t) = string_group g"
  "takeWhile is_hex (string_group g) = string_group g"
  by (auto intro!: takeWhile_append_stop simp: takeWhile_all_iff dest: string_group_hex)

lemma dropWhile_group [simp]:
  "\<not> is_hex c \<Longrightarrow> dropWhile is_hex (string_group g @ c # t) = c # t"
  "dropWhile is_hex (string_group g) = []"
  by (auto intro!: dropWhile_append_stop simp: dropWhile_eq_Nil_conv dest: string_group_hex)

lemma parse6_loop_group:
  "length acc < 8 \<Longrightarrow> t \<noteq> [] \<Longrightarrow> hd t \<noteq> CHR '':'' \<Longrightarrow>
     parse6_loop acc ell (string_group g @ CHR '':'' # t) = parse6_loop (acc @ [g]) ell t"
  using length_string_group [of g]
  by (subst parse6_loop.simps) (simp add: Let_def)

lemma parse6_loop_last:
  "length acc < 8 \<Longrightarrow> parse6_loop acc ell (string_group g) = Some (acc @ [g], ell, [])"
  using length_string_group [of g]
  by (subst parse6_loop.simps) (simp add: Let_def)

lemma parse6_loop_ellipsis:
  "length acc < 8 \<Longrightarrow> t \<noteq> [] \<Longrightarrow>
     parse6_loop acc None (string_group g @ CHR '':'' # CHR '':'' # t) =
     parse6_loop (acc @ [g]) (Some (Suc (length acc))) t"
  "length acc < 8 \<Longrightarrow>
     parse6_loop acc None (string_group g @ ''::'') = Some (acc @ [g], Some (Suc (length acc)), [])"
  using length_string_group [of g]
  by (subst parse6_loop.simps, simp add: Let_def)+

abbreviation join_groups :: "16 word list \<Rightarrow> string" where
  "join_groups gs \<equiv> join_on CHR '':'' (map string_group gs)"

lemma join_groups_hd:
  assumes "gs \<noteq> []"
  shows "join_groups gs \<noteq> []" "is_hex (hd (join_groups gs @ t))"
proof -
  obtain g gs' where gs: "gs = g # gs'" using assms by (cases gs) auto
  have "\<exists>u. join_groups gs = string_group g @ u"
    by (cases gs') (auto simp: gs)
  moreover have "is_hex (hd (string_group g))"
    by (meson hd_in_set string_group_hex string_group_nonempty)
  ultimately show "join_groups gs \<noteq> []" "is_hex (hd (join_groups gs @ t))"
    by auto
qed

lemma hd_join_groups_colon: "gs \<noteq> [] \<Longrightarrow> hd (join_groups gs @ t) \<noteq> CHR '':''"
  using join_groups_hd(2) [of gs t] by auto

lemma parse6_loop_join:
  "gs \<noteq> [] \<Longrightarrow> length acc + length gs \<le> 8 \<Longrightarrow>
     parse6_loop acc ell (join_groups gs) = Some (acc @ gs, ell, [])"
proof (induction gs arbitrary: acc)
  case (Cons g gs)
  show ?case
  proof (cases "gs = []")
    case False
    with Cons show ?thesis
      using join_groups_hd(1) [of gs] hd_join_groups_colon [of gs "[]"]
      by (simp add: join_on_Cons parse6_loop_group)
  qed (use Cons in \<open>simp add: parse6_loop_last\<close>)
qed simp

lemma parse6_loop_join_ellipsis:
  "gs \<noteq> [] \<Longrightarrow> length acc + length gs + length hs \<le> 8 \<Longrightarrow>
     parse6_loop acc None (join_groups gs @ ''::'' @ join_groups hs) =
     Some (acc @ gs @ hs, Some (length acc + length gs), [])"
proof (induction gs arbitrary: acc)
  case (Cons g gs)
  show ?case
  proof (cases "gs = []")
    case True
    with Cons show ?thesis
      using join_groups_hd(1) [of hs] parse6_loop_join [of hs "acc @ [g]" "Some (Suc (length acc))"]
      by (cases "hs = []") (auto simp: parse6_loop_ellipsis)
  next
    case False
    have "hd (join_groups gs @ ''::'' @ join_groups hs) \<noteq> CHR '':''"
      by (rule hd_join_groups_colon [OF False])
    with Cons False show ?thesis
      using parse6_loop_group [of acc "join_groups gs @ ''::'' @ join_groups hs" None g]
      by (simp add: join_on_Cons)
  qed
qed simp

lemma zero_run_foldl:
  assumes "foldl (\<lambda>best i. let l = f i in
              case best of
                None \<Rightarrow> if 2 \<le> l then Some (i, i + l) else None
              | Some (b, e) \<Rightarrow> if 2 \<le> l \<and> e - b < l then Some (i, i + l) else best)
       start is = Some (b, e)"
    and "\<And>b e. start = Some (b, e) \<Longrightarrow> e = b + f b \<and> 2 \<le> f b"
  shows "e = b + f b \<and> 2 \<le> f b"
  using assms
proof (induction "is" arbitrary: start)
  case (Cons i "is")
  show ?case
    by (rule Cons.IH [OF Cons.prems(1) [unfolded foldl.simps]])
      (use Cons.prems(2) in \<open>auto simp: Let_def split: option.splits if_splits prod.splits\<close>)
qed simp

lemma zero_run_Some:
  assumes "zero_run gs = Some (b, e)"
  shows "b < e \<and> e \<le> length gs \<and> gs = take b gs @ replicate (e - b) 0 @ drop e gs"
proof -
  let ?l = "length (takeWhile (\<lambda>g. g = 0) (drop b gs))"
  have e: "e = b + ?l" and l: "2 \<le> ?l"
    using zero_run_foldl [of "zero_run_at gs" None "[0..<8]" b e] assms
    by (simp_all add: zero_run_def zero_run_at_def)
  have le: "?l \<le> length (drop b gs)"
    by (rule length_takeWhile_le)
  have "takeWhile (\<lambda>g. g = 0) (drop b gs) = replicate ?l 0"
    by (metis (mono_tags, lifting) replicate_length_same set_takeWhileD)
  moreover have "dropWhile (\<lambda>g. g = 0) (drop b gs) = drop e gs"
    by (simp add: dropWhile_eq_drop e add.commute)
  ultimately have "drop b gs = replicate (e - b) 0 @ drop e gs"
    using takeWhile_dropWhile_id [of "\<lambda>g. g = 0" "drop b gs"] e by simp
  then have "gs = take b gs @ replicate (e - b) 0 @ drop e gs"
    by (metis append_take_drop_id)
  moreover have "b < e" and "e \<le> length gs"
    using e l le by auto
  ultimately show ?thesis by blast
qed

lemma parse6_groups_noellipsis:
  "\<not> prefix ''::'' s \<Longrightarrow> parse6_groups s = Option.bind (parse6_loop [] None s) parse6_finish"
  by (simp add: parse6_groups_def)

lemma not_prefix_ellipsis: "gs \<noteq> [] \<Longrightarrow> \<not> prefix ''::'' (join_groups gs @ t)"
  using hd_join_groups_colon [of gs t] by (cases "join_groups gs @ t") auto

lemma parse6_groups_string6:
  assumes "length gs = 8"
  shows "parse6_groups (string6 gs) = Some gs"
proof (cases "zero_run gs")
  case None
  have "gs \<noteq> []" using assms by auto
  then show ?thesis
    using None assms not_prefix_ellipsis [of gs "[]"] parse6_loop_join [of gs "[]" None]
    by (simp add: string6_def parse6_groups_noellipsis parse6_finish_def)
next
  case (Some be)
  obtain b e where be: "be = (b, e)" by (cases be)
  with Some have run: "b < e" "e \<le> 8" "gs = take b gs @ replicate (e - b) 0 @ drop e gs"
    using zero_run_Some [of gs b e] assms by auto
  have n: "length (take b gs) = b" "length (drop e gs) = 8 - e"
    using run assms by auto
  have str: "string6 gs = join_groups (take b gs) @ ''::'' @ join_groups (drop e gs)"
    using Some be by (simp add: string6_def)
  show ?thesis
  proof (cases "b = 0")
    case True
    show ?thesis
    proof (cases "e = 8")
      case True
      with \<open>b = 0\<close> str run n show ?thesis by (simp add: parse6_groups_def)
    next
      case False
      with run n have "drop e gs \<noteq> []" by auto
      then have "parse6_loop [] (Some 0) (join_groups (drop e gs)) = Some (drop e gs, Some 0, [])"
        and "join_groups (drop e gs) \<noteq> []"
        using n run parse6_loop_join [of "drop e gs" "[]" "Some 0"] join_groups_hd(1) [of "drop e gs"]
        by auto
      with True str run n show ?thesis
        by (simp add: parse6_groups_def parse6_finish_def)
    qed
  next
    case False
    with n have ne: "take b gs \<noteq> []" by auto
    have "parse6_loop [] None (string6 gs) = Some (take b gs @ drop e gs, Some b, [])"
      using parse6_loop_join_ellipsis [OF ne, of "[]" "drop e gs"] n run by (simp add: str)
    moreover have "\<not> prefix ''::'' (string6 gs)"
      using not_prefix_ellipsis [OF ne] str by simp
    moreover have "8 - (b + (8 - e)) = e - b"
      using run by simp
    ultimately show ?thesis
      using run n by (simp add: parse6_groups_noellipsis parse6_finish_def)
  qed
qed

lemma string4_shape:
  "\<exists>t. string4 a b c d = string_octet a @ CHR ''.'' # t"
  by (simp add: string4_def)

lemma string_octet_hex: "x \<in> set (string_octet a) \<Longrightarrow> is_hex x"
  by (auto simp: string_octet_def dest: itoa_nat_digits digit_is_hex)

lemma length_string_octet: "length (string_octet a) \<le> 3" "string_octet a \<noteq> []"
  using unsigned_less [where 'a = nat and w = a] by (simp_all add: string_octet_def length_itoa_nat_small)

lemma parse6_loop_string4:
  assumes "length acc = 6 \<or> ell \<noteq> None" and "length acc \<le> 6"
  shows "parse6_loop acc ell (string4 a b c d) =
     Some (acc @ [group_of_bytes a b, group_of_bytes c d], ell, [])"
proof -
  obtain t where t: "string4 a b c d = string_octet a @ CHR ''.'' # t"
    using string4_shape by blast
  have "takeWhile is_hex (string4 a b c d) = string_octet a"
    unfolding t by (rule takeWhile_append_stop) (auto dest: string_octet_hex)
  moreover have "dropWhile is_hex (string4 a b c d) = CHR ''.'' # t"
    unfolding t by (rule dropWhile_append_stop) (auto dest: string_octet_hex)
  ultimately show ?thesis
    using assms length_string_octet [of a]
    by (subst parse6_loop.simps) (auto simp: Let_def parseIPv4Fields_string4)
qed

lemma string_group_ffff: "string_group 0xFFFF = ''ffff''"
  by (simp add: string_group_def string_hex.simps hex_digit_def, code_simp)

lemma Is4In6_groups:
  assumes "length gs = 8" and "take 6 gs = [0, 0, 0, 0, 0, 0xFFFF]"
  shows "gs = [0, 0, 0, 0, 0, 0xFFFF, gs ! 6, gs ! 7]"
proof -
  have "drop 6 gs = [gs ! 6, gs ! 7]"
    using assms(1) by (simp add: Cons_nth_drop_Suc [symmetric] numeral_eq_Suc)
  then show ?thesis
    using append_take_drop_id [of 6 gs] assms(2) by simp
qed

lemma parse6_groups_string4In6:
  assumes "length gs = 8" and "take 6 gs = [0, 0, 0, 0, 0, 0xFFFF]"
  shows "parse6_groups (string4In6 gs) = Some gs"
proof -
  let ?s = "string4 (group_hi (gs ! 6)) (group_lo (gs ! 6)) (group_hi (gs ! 7)) (group_lo (gs ! 7))"
  obtain t where t: "?s = string_octet (group_hi (gs ! 6)) @ CHR ''.'' # t"
    using string4_shape by blast
  have "hd ?s \<noteq> CHR '':''" and "?s \<noteq> []"
    using length_string_octet(2) [of "group_hi (gs ! 6)"] string_octet_hex [of "CHR '':''" "group_hi (gs ! 6)"]
    by (auto simp: t dest: hd_in_set)
  then have "parse6_loop [] (Some 0) (''ffff:'' @ ?s) = parse6_loop [0xFFFF] (Some 0) ?s"
    using parse6_loop_group [of "[]" ?s "Some 0" "0xFFFF"] by (simp add: string_group_ffff)
  also have "\<dots> = Some ([0xFFFF, gs ! 6, gs ! 7], Some 0, [])"
    by (simp add: parse6_loop_string4 group_hi_lo)
  finally show ?thesis
    using Is4In6_groups [OF assms]
    by (simp add: string4In6_def parse6_groups_def parse6_finish_def numeral_eq_Suc)
qed

definition string6_body :: "16 word list \<Rightarrow> string" where
  "string6_body gs =
     (if take 6 gs = [0, 0, 0, 0, 0, 0xFFFF] then string4In6 gs else string6 gs)"

lemma parse6_groups_body: "length gs = 8 \<Longrightarrow> parse6_groups (string6_body gs) = Some gs"
  by (simp add: string6_body_def parse6_groups_string4In6 parse6_groups_string6)

lemma set_join_groups: "c \<in> set (join_groups gs) \<Longrightarrow> is_hex c \<or> c = CHR '':''"
  using set_join_on [of "CHR '':''" "map string_group gs"] by (auto dest: string_group_hex)

lemma is_hex_ffff [simp]: "is_hex CHR ''f''"
  by (simp add: is_hex_def hex_val_def)

lemma set_string6_body:
  "c \<in> set (string6_body gs) \<Longrightarrow> is_hex c \<or> c = CHR '':'' \<or> c = CHR ''.''"
  by (auto simp: string6_body_def string4In6_def string6_def split: if_splits option.splits
      dest: set_join_groups set_string4 digit_is_hex)

lemma colon_after_hexI: "s = u @ CHR '':'' # t \<Longrightarrow> \<forall>c \<in> set u. is_hex c \<Longrightarrow>
    \<exists>u t. s = u @ CHR '':'' # t \<and> (\<forall>c \<in> set u. is_hex c)"
  by blast

lemma join_groups_colon:
  assumes "2 \<le> length hs \<or> v = CHR '':'' # w"
  shows "\<exists>u t. join_groups hs @ v = u @ CHR '':'' # t \<and> (\<forall>c \<in> set u. is_hex c)"
proof (cases hs)
  case Nil
  with assms show ?thesis by (intro colon_after_hexI [of _ "[]" w]) auto
next
  case (Cons g hs')
  show ?thesis
  proof (cases "hs' = []")
    case True
    with assms Cons show ?thesis
      by (intro colon_after_hexI [of _ "string_group g" w]) (auto dest: string_group_hex)
  next
    case False
    with Cons show ?thesis
      by (intro colon_after_hexI [of _ "string_group g" "join_groups hs' @ v"])
        (auto simp: join_on_Cons dest: string_group_hex)
  qed
qed

lemma string6_body_colon:
  assumes "length gs = 8"
  shows "\<exists>u t. string6_body gs = u @ CHR '':'' # t \<and> (\<forall>c \<in> set u. is_hex c)"
proof (cases "take 6 gs = [0, 0, 0, 0, 0, 0xFFFF]")
  case True
  then show ?thesis
    by (intro colon_after_hexI [of _ "[]"]) (simp_all add: string6_body_def string4In6_def)
next
  case False
  show ?thesis
  proof (cases "zero_run gs")
    case None
    with False assms show ?thesis
      using join_groups_colon [of gs "[]"] by (simp add: string6_body_def string6_def)
  next
    case (Some be)
    with False show ?thesis
      using join_groups_colon [of "take (fst be) gs" "''::'' @ join_groups (drop (snd be) gs)"
          "CHR '':'' # join_groups (drop (snd be) gs)"]
      by (cases be) (simp add: string6_body_def string6_def)
  qed
qed

lemma find_after_hex:
  "\<forall>c \<in> set u. is_hex c \<Longrightarrow>
     find (\<lambda>c. c = CHR ''.'' \<or> c = CHR '':'' \<or> c = CHR ''%'') (u @ CHR '':'' # t) = Some CHR '':''"
  by (induction u) auto

lemma find_after_digits:
  "\<forall>c \<in> set u. is_digit c \<Longrightarrow>
     find (\<lambda>c. c = CHR ''.'' \<or> c = CHR '':'' \<or> c = CHR ''%'') (u @ CHR ''.'' # t) = Some CHR ''.''"
  by (induction u) auto

lemma Addr_String_V6: "Addr_String (V6 gs z) = string6_body gs @ (if z = [] then [] else CHR ''%'' # z)"
  by (simp add: string6_body_def)

lemma ParseAddr_V6:
  assumes "length gs = 8"
  shows "netip_ParseAddr (Addr_String (V6 gs z)) = Some (V6 gs z)"
proof -
  obtain u t where "string6_body gs = u @ CHR '':'' # t" and "\<forall>c \<in> set u. is_hex c"
    using string6_body_colon [OF assms] by blast
  then have "netip_ParseAddr (Addr_String (V6 gs z)) = netip_parseIPv6 (Addr_String (V6 gs z))"
    unfolding Addr_String_V6 by (simp add: netip_ParseAddr_def find_after_hex)
  moreover have "CHR ''%'' \<notin> set (string6_body gs)"
    by (auto dest: set_string6_body)
  ultimately show ?thesis
    unfolding Addr_String_V6 using assms
    by (simp add: netip_parseIPv6_def parse6_groups_body Let_def)
qed

lemma ParseAddr_V4: "netip_ParseAddr (Addr_String (V4 a b c d)) = Some (V4 a b c d)"
proof -
  obtain t where t: "string4 a b c d = string_octet a @ CHR ''.'' # t"
    using string4_shape by blast
  have "\<forall>x \<in> set (string_octet a). is_digit x"
    by (auto simp: string_octet_def dest: itoa_nat_digits)
  then have "netip_ParseAddr (string4 a b c d) = netip_parseIPv4 (string4 a b c d)"
    unfolding t by (simp add: netip_ParseAddr_def find_after_digits)
  then show ?thesis
    by (simp add: netip_parseIPv4_def parseIPv4Fields_string4)
qed

lemma ParseAddr_String: "Addr_wf a \<Longrightarrow> Addr_IsValid a \<Longrightarrow> netip_ParseAddr (Addr_String a) = Some a"
  by (cases a) (auto simp del: Addr_String.simps simp: ParseAddr_V4 ParseAddr_V6)

interpretation addr_codec: text_codec Addr_String netip_ParseAddr "\<lambda>a. Addr_wf a \<and> Addr_IsValid a"
  by unfold_locales (simp add: ParseAddr_String)

section \<open>Prefixes and address-port pairs\<close>

record ip_prefix =
  px_ip :: addr
  px_bits :: nat

definition Addr_BitLen :: "addr \<Rightarrow> nat" where
  "Addr_BitLen a = (if Addr_Is6 a then 128 else 32)"

fun Addr_Zone :: "addr \<Rightarrow> string" where
  "Addr_Zone (V6 gs z) = z"
| "Addr_Zone _ = []"

definition Prefix_wf :: "ip_prefix \<Rightarrow> bool" where
  "Prefix_wf p \<longleftrightarrow> Addr_wf (px_ip p) \<and> Addr_IsValid (px_ip p) \<and> Addr_Zone (px_ip p) = [] \<and>
     px_bits p \<le> Addr_BitLen (px_ip p)"

definition netip_ParsePrefix :: "string \<Rightarrow> ip_prefix option" where
  "netip_ParsePrefix s =
     (case cut_last CHR ''/'' s of None \<Rightarrow> None
      | Some (front, bits_str) \<Rightarrow>
          (case netip_ParseAddr front of None \<Rightarrow> None
           | Some ip \<Rightarrow>
               if Addr_Is6 ip \<and> Addr_Zone ip \<noteq> [] then None
               else if 1 < length bits_str \<and> \<not> (is_digit (hd bits_str) \<and> hd bits_str \<noteq> CHR ''0'') then None
               else (case strconv_Atoi bits_str of None \<Rightarrow> None
                     | Some bits \<Rightarrow>
                         if bits < 0 \<or> int (Addr_BitLen ip) < bits then None
                         else Some \<lparr>px_ip = ip, px_bits = nat bits\<rparr>)))"

definition Prefix_String :: "ip_prefix \<Rightarrow> string" where
  "Prefix_String p = Addr_String (px_ip p) @ CHR ''/'' # itoa_nat (px_bits p)"

lemma ParsePrefix_wf: "netip_ParsePrefix s = Some p \<Longrightarrow> Prefix_wf p"
  by (auto simp: netip_ParsePrefix_def Prefix_wf_def dest!: ParseAddr_wf split: option.splits if_splits)
    (metis Addr_IsValid_iff Addr_Is4.elims(2) Addr_Zone.simps(2,3))+

lemma Atoi_itoa_nat: "int n < 2 ^ 63 \<Longrightarrow> strconv_Atoi (itoa_nat n) = Some (int n)"
  using strconv_Atoi_Itoa [of "int n"] by (simp add: in_int64_def)

lemma ParsePrefix_String:
  assumes "Prefix_wf p"
  shows "netip_ParsePrefix (Prefix_String p) = Some p"
proof -
  let ?b = "itoa_nat (px_bits p)"
  have bits: "px_bits p \<le> 128"
    using assms by (auto simp: Prefix_wf_def Addr_BitLen_def split: if_splits)
  have "is_digit (hd ?b) \<and> hd ?b \<noteq> CHR ''0''" if "1 < length ?b"
  proof -
    have "length (itoa_nat 0) = 1"
      by (simp add: itoa_nat.simps [of 0])
    with that have "px_bits p \<noteq> 0" by (metis less_irrefl)
    then show ?thesis by (simp add: hd_itoa_nat hd_itoa_nat_pos)
  qed
  then show ?thesis
    using assms bits
    by (simp add: netip_ParsePrefix_def Prefix_String_def cut_last_append ParseAddr_String
        Prefix_wf_def Atoi_itoa_nat)
qed

interpretation prefix_codec: text_codec Prefix_String netip_ParsePrefix Prefix_wf
  by unfold_locales (rule ParsePrefix_String)

type_synonym addr_port = "addr \<times> 16 word"

text \<open>\<open>splitAddrPort\<close> and \<open>ParseAddrPort\<close>.\<close>

definition netip_splitAddrPort :: "string \<Rightarrow> (string \<times> string \<times> bool) option" where
  "netip_splitAddrPort s =
     (case cut_last CHR '':'' s of None \<Rightarrow> None
      | Some (ip, port) \<Rightarrow>
          if ip = [] \<or> port = [] then None
          else if hd ip = CHR ''['' then
            (if length ip < 2 \<or> last ip \<noteq> CHR '']'' then None
             else Some (butlast (tl ip), port, True))
          else Some (ip, port, False))"

definition netip_ParseAddrPort :: "string \<Rightarrow> addr_port option" where
  "netip_ParseAddrPort s =
     (case netip_splitAddrPort s of None \<Rightarrow> None
      | Some (ip, port, v6) \<Rightarrow>
          (case strconv_ParseUint16 port of None \<Rightarrow> None
           | Some p \<Rightarrow>
               (case netip_ParseAddr ip of None \<Rightarrow> None
                | Some a \<Rightarrow>
                    if v6 \<and> Addr_Is4 a \<or> \<not> v6 \<and> Addr_Is6 a then None else Some (a, p))))"

definition AddrPort_IsValid :: "addr_port \<Rightarrow> bool" where
  "AddrPort_IsValid ap = Addr_IsValid (fst ap)"

lemma ParseAddrPort_valid: "netip_ParseAddrPort s = Some ap \<Longrightarrow> AddrPort_IsValid ap"
  by (auto simp: netip_ParseAddrPort_def AddrPort_IsValid_def dest!: ParseAddr_wf
      split: option.splits if_splits prod.splits)

lemma colon_in_V6: "length gs = 8 \<Longrightarrow> CHR '':'' \<in> set (Addr_String (V6 gs z))"
  using string6_body_colon [of gs] unfolding Addr_String_V6 by auto

lemma colon_notin_V4: "CHR '':'' \<notin> set (Addr_String (V4 a b c d))"
  by (simp add: string4_notin)

lemma hd_V4: "hd (Addr_String (V4 a b c d)) \<noteq> CHR ''[''" "Addr_String (V4 a b c d) \<noteq> []"
proof -
  show ne: "Addr_String (V4 a b c d) \<noteq> []"
    using string4_shape [of a b c d] by auto
  show "hd (Addr_String (V4 a b c d)) \<noteq> CHR ''[''"
    using hd_in_set [OF ne] string4_notin [of "CHR ''[''" a b c d] by auto
qed

lemma splitAddrPort_bracketed:
  "port \<noteq> [] \<Longrightarrow> CHR '':'' \<notin> set port \<Longrightarrow>
     netip_splitAddrPort (CHR ''['' # h @ '']:'' @ port) = Some (h, port, True)"
  using cut_last_append [of "CHR '':''" port "CHR ''['' # h @ '']''"]
  by (simp add: netip_splitAddrPort_def butlast_append)

lemma splitAddrPort_plain:
  "h \<noteq> [] \<Longrightarrow> hd h \<noteq> CHR ''['' \<Longrightarrow> port \<noteq> [] \<Longrightarrow> CHR '':'' \<notin> set port \<Longrightarrow>
     netip_splitAddrPort (h @ CHR '':'' # port) = Some (h, port, False)"
  by (simp add: netip_splitAddrPort_def cut_last_append)

lemma ParseUint16_nonempty: "strconv_ParseUint16 port = Some p \<Longrightarrow> port \<noteq> []"
  by (auto simp: strconv_ParseUint16_def parse_nat_def)

lemma dec_digits_all: "dec_digits a s = Some n \<Longrightarrow> \<forall>c \<in> set s. is_digit c"
  by (induction s arbitrary: a) (auto split: if_splits)

lemma ParseUint16_digits: "strconv_ParseUint16 port = Some p \<Longrightarrow> \<forall>c \<in> set port. is_digit c"
  by (auto simp: strconv_ParseUint16_def parse_nat_def dest: dec_digits_all split: option.splits if_splits)

lemma ParseAddrPort_Join:
  assumes wf: "Addr_wf a" "Addr_IsValid a" and port: "strconv_ParseUint16 port = Some p"
  shows "netip_ParseAddrPort (net_JoinHostPort (Addr_String a) port) = Some (a, p)"
proof (cases a)
  case (V4 x y z w)
  have "CHR '':'' \<notin> set port"
    using ParseUint16_digits [OF port] by auto
  with V4 port show ?thesis
    using colon_notin_V4 [of x y z w] hd_V4 [of x y z w] ParseUint16_nonempty [OF port] ParseAddr_V4 [of x y z w]
    by (simp add: net_JoinHostPort_def netip_ParseAddrPort_def splitAddrPort_plain del: Addr_String.simps)
next
  case (V6 gs z)
  have "CHR '':'' \<notin> set port"
    using ParseUint16_digits [OF port] by auto
  with V6 port wf show ?thesis
    using colon_in_V6 [of gs z] ParseUint16_nonempty [OF port] ParseAddr_V6 [of gs z]
      splitAddrPort_bracketed [of port "Addr_String (V6 gs z)"]
    by (simp add: net_JoinHostPort_def netip_ParseAddrPort_def del: Addr_String.simps)
qed (use wf in simp)

end
