(* ===== verification/Router.thy ===== *)
theory Router
  imports GoNetIP
begin

text \<open>
  \<open>router.go\<close> and the dial callbacks of \<open>routine.go\<close>: the decision whether a connection to a host
  goes through the WireGuard tunnel or is dialled directly.  Go's \<open>regexp\<close> engine is the parameter
  \<open>match\<close> (\<open>Regexp.MatchString\<close>), the Unicode case tables the parameter \<open>uni\<close>.
\<close>

section \<open>The domain router\<close>

record 're DomainRouter =
  patterns :: "'re list"
  logNames :: bool

definition NewDomainRouter :: "'re list \<Rightarrow> bool \<Rightarrow> 're DomainRouter" where
  "NewDomainRouter pats log_names = \<lparr>patterns = pats, logNames = log_names\<rparr>"

definition normalise_host :: "(string \<Rightarrow> string) \<Rightarrow> string \<Rightarrow> string" where
  "normalise_host uni host = strings_ToLower uni (strings_TrimSuffix host ''.'')"

text \<open>A nil router is \<open>None\<close>.\<close>

definition shouldTunnel ::
  "('re \<Rightarrow> string \<Rightarrow> bool) \<Rightarrow> (string \<Rightarrow> string) \<Rightarrow> 're DomainRouter option \<Rightarrow> string \<Rightarrow> bool" where
  "shouldTunnel match uni r host =
     (case r of None \<Rightarrow> True
      | Some d \<Rightarrow> if patterns d = [] then True
                  else let h = normalise_host uni host in list_ex (\<lambda>p. match p h) (patterns d))"

text \<open>The decision and the lines written to the log.\<close>

definition route ::
  "('re \<Rightarrow> string \<Rightarrow> bool) \<Rightarrow> (string \<Rightarrow> string) \<Rightarrow> 're DomainRouter option \<Rightarrow> string \<Rightarrow>
     bool \<times> string list" where
  "route match uni r host =
     (let tunnel = shouldTunnel match uni r host;
          logged = (case r of None \<Rightarrow> False | Some d \<Rightarrow> logNames d);
          dest = (if tunnel then ''TUNNEL'' else ''DIRECT'')
      in (tunnel, if logged then [''route: '' @ host @ '' -> '' @ dest] else []))"

definition hostFromAddr :: "string \<Rightarrow> string" where
  "hostFromAddr address =
     (case net_SplitHostPort address of Inl e \<Rightarrow> address | Inr (host, port) \<Rightarrow> host)"

section \<open>Dialling\<close>

text \<open>Which dialer is asked for which network and address.\<close>

datatype dial =
    TunnelDial string string
  | DirectDial string string

definition RoutedDial ::
  "('re \<Rightarrow> string \<Rightarrow> bool) \<Rightarrow> (string \<Rightarrow> string) \<Rightarrow> 're DomainRouter option \<Rightarrow> string \<Rightarrow> string \<Rightarrow>
     dial \<times> string list" where
  "RoutedDial match uni r network address =
     (let (tunnel, logs) = route match uni r (hostFromAddr address)
      in (if tunnel then TunnelDial network address else DirectDial network address, logs))"

text \<open>The SOCKS5 callback sees the destination name of the request as well.\<close>

definition routedSocks5Dial ::
  "('re \<Rightarrow> string \<Rightarrow> bool) \<Rightarrow> (string \<Rightarrow> string) \<Rightarrow> 're DomainRouter option \<Rightarrow> string \<Rightarrow> string \<Rightarrow>
     string \<Rightarrow> dial \<times> string list" where
  "routedSocks5Dial match uni r network address fqdn =
     (let host = (if fqdn = [] then hostFromAddr address else fqdn);
          (tunnel, logs) = route match uni r host
      in (if tunnel then TunnelDial network address else DirectDial network address, logs))"

text \<open>\<open>passthroughResolver.Resolve\<close> leaves the name unresolved: a nil IP and no error.\<close>

definition passthroughResolver_Resolve :: "string \<Rightarrow> addr option result" where
  "passthroughResolver_Resolve name = Inr None"

section \<open>Lemmas\<close>

lemma route_fst [simp]: "fst (route match uni r host) = shouldTunnel match uni r host"
  by (simp add: route_def Let_def)

lemma shouldTunnel_None [simp]: "shouldTunnel match uni None host"
  by (simp add: shouldTunnel_def)

lemma shouldTunnel_Nil [simp]: "patterns d = [] \<Longrightarrow> shouldTunnel match uni (Some d) host"
  by (simp add: shouldTunnel_def)

lemma shouldTunnel_patterns:
  "patterns d \<noteq> [] \<Longrightarrow>
     shouldTunnel match uni (Some d) host \<longleftrightarrow>
       (\<exists>p \<in> set (patterns d). match p (normalise_host uni host))"
  by (simp add: shouldTunnel_def list_ex_iff)

lemma TrimSuffix_dot_append [simp]: "strings_TrimSuffix (h @ ''.'') ''.'' = h"
  by (simp add: strings_TrimSuffix_def suffix_def)

lemma TrimSuffix_dot_absent:
  assumes "last h \<noteq> CHR ''.''" and "h \<noteq> []"
  shows "strings_TrimSuffix h ''.'' = h"
proof -
  have "\<not> suffix ''.'' h"
    using assms by (auto simp: suffix_def)
  then show ?thesis by (simp add: strings_TrimSuffix_def)
qed

lemma normalise_host_case:
  assumes "is_ascii h" and "is_ascii k" and "map lower_byte h = map lower_byte k"
  shows "normalise_host uni h = normalise_host uni k"
proof -
  have low: "lower_byte c = CHR ''.'' \<longleftrightarrow> c = CHR ''.''" for c
    by (auto simp: lower_byte_def Let_def dest: arg_cong [where f = "of_char :: char \<Rightarrow> nat"])
  have last: "suffix ''.'' s \<longleftrightarrow> s \<noteq> [] \<and> lower_byte (last s) = CHR ''.''" for s
    by (cases s rule: rev_cases) (auto simp: suffix_def low)
  have len: "length h = length k"
    using assms(3) by (metis length_map)
  have "suffix ''.'' h \<longleftrightarrow> suffix ''.'' k"
    unfolding last using assms(3) len
    by (metis last_map length_0_conv)
  moreover have "map lower_byte (take n h) = map lower_byte (take n k)" for n
    using assms(3) by (metis take_map)
  moreover have "is_ascii (take n h)" "is_ascii (take n k)" for n
    using assms(1,2) by (auto simp: is_ascii_def dest: in_set_takeD)
  ultimately show ?thesis
    using assms len by (simp add: normalise_host_def strings_TrimSuffix_def strings_ToLower_def)
qed

lemma hostFromAddr_Join:
  "plain_host h \<Longrightarrow> plain_port p \<Longrightarrow> hostFromAddr (net_JoinHostPort h p) = h"
  by (simp add: hostFromAddr_def SplitHostPort_JoinHostPort)

lemma hostFromAddr_no_port: "CHR '':'' \<notin> set a \<Longrightarrow> hostFromAddr a = a"
  by (simp add: hostFromAddr_def net_SplitHostPort_def cut_last_def)

section \<open>Properties\<close>

text \<open>Two spellings of one name: they differ in ASCII case and in a final dot only.\<close>

definition same_name :: "string \<Rightarrow> string \<Rightarrow> bool" where
  "same_name h k \<longleftrightarrow> is_ascii h \<and> is_ascii k \<and>
     map lower_byte (strings_TrimSuffix h ''.'') = map lower_byte (strings_TrimSuffix k ''.'')"

lemma is_ascii_TrimSuffix: "is_ascii h \<Longrightarrow> is_ascii (strings_TrimSuffix h t)"
  by (auto simp: is_ascii_def strings_TrimSuffix_def dest: in_set_takeD)

lemma normalise_same_name: "same_name h k \<Longrightarrow> normalise_host uni h = normalise_host uni k"
  by (simp add: same_name_def normalise_host_def strings_ToLower_def is_ascii_TrimSuffix)

text \<open>
  C1: The routing decision: without patterns (or without a router) every connection goes through the
  tunnel; with patterns exactly the hosts whose lower-cased name without its final dot some pattern
  matches do, and the rest are dialled directly.  The network and address reach the chosen dialer
  unchanged, and spellings of one name are routed alike.
\<close>

theorem RoutedDial_decides:
  "(fst (RoutedDial match uni r network address) = TunnelDial network address \<longleftrightarrow>
      (\<forall>d. r = Some d \<longrightarrow> patterns d \<noteq> [] \<longrightarrow>
         (\<exists>p \<in> set (patterns d). match p (normalise_host uni (hostFromAddr address))))) \<and>
   fst (RoutedDial match uni r network address) \<in> {TunnelDial network address, DirectDial network address} \<and>
   (\<forall>h k p q. plain_host h \<and> plain_host k \<and> plain_port p \<and> plain_port q \<and> same_name h k \<longrightarrow>
      (fst (RoutedDial match uni r network (net_JoinHostPort h p)) = TunnelDial network (net_JoinHostPort h p) \<longleftrightarrow>
       fst (RoutedDial match uni r network (net_JoinHostPort k q)) = TunnelDial network (net_JoinHostPort k q)))"
proof -
  have fst_Dial: "fst (RoutedDial match uni r network a) =
      (if shouldTunnel match uni r (hostFromAddr a) then TunnelDial network a else DirectDial network a)" for a
    by (simp add: RoutedDial_def case_prod_unfold Let_def)
  have dec: "shouldTunnel match uni r h \<longleftrightarrow> (\<forall>d. r = Some d \<longrightarrow> patterns d \<noteq> [] \<longrightarrow>
      (\<exists>p \<in> set (patterns d). match p (normalise_host uni h)))" for h
    by (cases r) (auto simp: shouldTunnel_def list_ex_iff Let_def)
  have same: "shouldTunnel match uni r h = shouldTunnel match uni r k" if "same_name h k" for h k
    unfolding dec normalise_same_name [OF that] ..
  show ?thesis
  proof (intro conjI allI impI)
    fix h k p q
    assume "plain_host h \<and> plain_host k \<and> plain_port p \<and> plain_port q \<and> same_name h k"
    with same [of h k] show "fst (RoutedDial match uni r network (net_JoinHostPort h p)) =
        TunnelDial network (net_JoinHostPort h p) \<longleftrightarrow>
        fst (RoutedDial match uni r network (net_JoinHostPort k q)) = TunnelDial network (net_JoinHostPort k q)"
      by (simp add: fst_Dial hostFromAddr_Join)
  qed (auto simp: fst_Dial dec)
qed

theorem RoutedDial_decides_witness:
  "fst (RoutedDial (\<lambda>p h. p = h) id (Some (NewDomainRouter [''example.com''] False)) ''tcp'' ''Example.COM.:443'') =
     TunnelDial ''tcp'' ''Example.COM.:443'' \<and>
   fst (RoutedDial (\<lambda>p h. p = h) id (Some (NewDomainRouter [''example.com''] False)) ''tcp'' ''other.org:443'') =
     DirectDial ''tcp'' ''other.org:443''"
proof -
  have a: "normalise_host id (hostFromAddr ''Example.COM.:443'') = ''example.com''"
    and b: "normalise_host id (hostFromAddr ''other.org:443'') = ''other.org''" by code_simp+
  show ?thesis
    using RoutedDial_decides [of "\<lambda>p h. p = h" id "Some (NewDomainRouter [''example.com''] False)" "''tcp''" "''Example.COM.:443''"]
      RoutedDial_decides [of "\<lambda>p h. p = h" id "Some (NewDomainRouter [''example.com''] False)" "''tcp''" "''other.org:443''"]
    by (auto simp: NewDomainRouter_def a b)
qed

text \<open>
  C32: The SOCKS5 proxy routes a request by its destination name as the HTTP and SNI proxies route
  that name, whatever address the request carries; a request without a name is routed by the host of
  its address.
\<close>

theorem routedSocks5Dial_agrees:
  assumes "plain_host name" and "plain_port port"
  shows "(fst (routedSocks5Dial match uni r network address name) = TunnelDial network address \<longleftrightarrow>
      name \<noteq> [] \<and> fst (RoutedDial match uni r network (net_JoinHostPort name port)) =
        TunnelDial network (net_JoinHostPort name port) \<or>
      name = [] \<and> fst (RoutedDial match uni r network address) = TunnelDial network address) \<and>
    snd (routedSocks5Dial match uni r network address []) = snd (RoutedDial match uni r network address)"
  using assms by (auto simp: routedSocks5Dial_def RoutedDial_def case_prod_unfold Let_def hostFromAddr_Join)

theorem routedSocks5Dial_agrees_witness:
  "fst (routedSocks5Dial (\<lambda>p h. p = h) id (Some (NewDomainRouter [''example.com''] False)) ''tcp''
      ''93.184.216.34:443'' ''example.com'') = TunnelDial ''tcp'' ''93.184.216.34:443''"
proof -
  have "plain_host ''example.com''" and "plain_port ''443''" by code_simp+
  moreover have "fst (RoutedDial (\<lambda>p h. p = h) id (Some (NewDomainRouter [''example.com''] False)) ''tcp''
      (net_JoinHostPort ''example.com'' ''443'')) = TunnelDial ''tcp'' (net_JoinHostPort ''example.com'' ''443'')"
    by code_simp
  ultimately show ?thesis using routedSocks5Dial_agrees by blast
qed

end
