(* ===== verification/Config.thy ===== *)
theory Config
  imports Router
begin

text \<open>
  The data of \<open>config.go\<close>.  A struct is a record; an embedded struct is a record the others
  extend, so the promoted methods of Go's \<open>shutdown\<close> are functions on \<open>'a shutdown_scheme\<close>.  A
  pointer that may be nil is an option; a listener is the handle the network layer gave out.
\<close>

type_synonym handle = nat

datatype chan = ChanOpen | ChanClosed

record tcp_addr =
  ta_IP :: string
  ta_Port :: int

record PeerConfig =
  pc_PublicKey :: string
  pc_PreSharedKey :: string
  pc_Endpoint :: "string option"
  pc_KeepAlive :: int
  pc_AllowedIPs :: "ip_prefix list"

record DeviceConfig =
  dc_SecretKey :: string
  dc_Endpoint :: "addr list"
  dc_Peers :: "PeerConfig list"
  dc_DNS :: "addr list"
  dc_MTU :: int
  dc_ListenPort :: "int option"
  dc_CheckAlive :: "addr list"
  dc_CheckAliveInterval :: int

record addressPort =
  ap_address :: string
  ap_port :: "16 word"

record shutdown =
  closed :: bool

record UDPProxyTunnelConfig = shutdown +
  upt_BindAddress :: string
  upt_Target :: string
  upt_InactivityTimeout :: int
  upt_listener :: "handle option"
  upt_done :: "chan option"

record TCPClientTunnelConfig = shutdown +
  tct_BindAddress :: tcp_addr
  tct_Target :: string
  tct_listener :: "handle option"
  tct_raddr :: "addressPort option"

text \<open>\<open>STDIOTunnelConfig\<close> embeds no \<open>shutdown\<close>; its streams are the process's own.\<close>

datatype std_file = Stdin | Stdout

record STDIOTunnelConfig =
  sio_Target :: string
  sio_Input :: std_file
  sio_Output :: std_file
  sio_raddr :: "addressPort option"

record TCPServerTunnelConfig = shutdown +
  tst_ListenPort :: int
  tst_Target :: string
  tst_listener :: "handle option"
  tst_raddr :: "addressPort option"

record UDPServerTunnelConfig = shutdown +
  ust_ListenPort :: int
  ust_Target :: string
  ust_InactivityTimeout :: int
  ust_listener :: "handle option"
  ust_targetAddr :: "string option"
  ust_done :: "chan option"

record 're Socks5Config = shutdown +
  s5_BindAddress :: string
  s5_Username :: string
  s5_Password :: string
  s5_TunnelDomains :: "'re list"
  s5_LogDomains :: bool
  s5_listener :: "handle option"

record 're SNIConfig = shutdown +
  sni_BindAddress :: string
  sni_TunnelDomains :: "'re list"
  sni_LogDomains :: bool
  sni_listener :: "handle option"

record 're HTTPConfig = shutdown +
  http_BindAddress :: string
  http_Username :: string
  http_Password :: string
  http_CertFile :: string
  http_KeyFile :: string
  http_TunnelDomains :: "'re list"
  http_LogDomains :: bool
  http_listener :: "handle option"

record ResolveConfig =
  rc_ResolveStrategy :: string

text \<open>The dynamic type of a \<open>RoutineSpawner\<close> value.\<close>

datatype 're routine =
    TCPClientTunnel TCPClientTunnelConfig
  | STDIOTunnel STDIOTunnelConfig
  | TCPServerTunnel TCPServerTunnelConfig
  | Socks5 "'re Socks5Config"
  | HTTP "'re HTTPConfig"
  | SNI "'re SNIConfig"
  | UDPServerTunnel UDPServerTunnelConfig
  | UDPProxyTunnel UDPProxyTunnelConfig

record 're Configuration =
  conf_Device :: DeviceConfig
  conf_Routines :: "'re routine list"
  conf_Resolve :: ResolveConfig

section \<open>What the parser calls\<close>

text \<open>What \<open>ini.LoadSources\<close> is given: a path, or the bytes of a configuration.\<close>

datatype ini_source = SourcePath string | SourceBytes string

text \<open>
  The package \<open>go-ini\<close>, the process environment, the resolvers and the regular expression
  compiler, as the functions the parser calls.  \<open>ini_Key\<close> may be nil (\<open>None\<close>) as far as the
  parser's own checks are concerned; \<open>net_ResolveIPAddr\<close> gives the text of the resolved address.
\<close>

record ('file, 'sec, 'key, 're) config_env =
  ini_LoadSources :: "ini_source \<Rightarrow> 'file result"
  ini_SectionsByName :: "'file \<Rightarrow> string \<Rightarrow> 'sec list result"
  ini_GetSection :: "'file \<Rightarrow> string \<Rightarrow> 'sec result"
  ini_Section :: "'file \<Rightarrow> string \<Rightarrow> 'sec"
  ini_Key :: "'sec \<Rightarrow> string \<Rightarrow> 'key option"
  ini_GetKey :: "'sec \<Rightarrow> string \<Rightarrow> 'key result"
  key_String :: "'key \<Rightarrow> string"
  key_Int :: "'key \<Rightarrow> int result"
  key_Bool :: "'key \<Rightarrow> bool result"
  key_ValueWithShadows :: "'key \<Rightarrow> string list"
  os_LookupEnv :: "string \<Rightarrow> string option"
  net_ResolveTCPAddr :: "string \<Rightarrow> tcp_addr result"
  net_ResolveIPAddr :: "string \<Rightarrow> string result"
  regexp_Compile :: "string \<Rightarrow> 're result"
  unicode_ToLower :: "string \<Rightarrow> string"

text \<open>
  What the documentation of \<open>go-ini\<close> says of its accessors, as far as the properties rely on it:
  \<open>Section.Key\<close> always returns a key, which is the stored one when there is one and a key with the
  empty value otherwise.
\<close>

definition ini_key_documented :: "('file, 'sec, 'key, 're) config_env \<Rightarrow> bool" where
  "ini_key_documented E \<longleftrightarrow>
     (\<forall>s k. \<exists>x. ini_Key E s k = Some x \<and>
        (\<forall>y. ini_GetKey E s k = Inr y \<longrightarrow> x = y) \<and>
        (\<forall>e. ini_GetKey E s k = Inl e \<longrightarrow> key_String E x = []))"

end
