(* ===== verification/ConfigParse.thy ===== *)
theory ConfigParse
  imports Config
begin

text \<open>
  The parser of \<open>config.go\<close>, function by function.  Each \<open>if err != nil\<close> is a case on a result;
  the environment \<open>E\<close> holds the packages the parser calls.
\<close>

section \<open>Scalar values\<close>

definition parseString ::
  "('file, 'sec, 'key, 're) config_env \<Rightarrow> 'sec \<Rightarrow> string \<Rightarrow> string result" where
  "parseString E section keyName =
     (case ini_Key E section (strings_ToLower (unicode_ToLower E) keyName) of
        None \<Rightarrow> Inl (ErrMsg (keyName @ '' should not be empty''))
      | Some key \<Rightarrow>
          let val = key_String E key in
          if strings_HasPrefix val ''$'' then
            if strings_HasPrefix val ''$$'' then Inr (strings_Replace1 val ''$$'' ''$'')
            else (case os_LookupEnv E (strings_TrimPrefix val ''$'') of
                    None \<Rightarrow> Inl (ErrMsg (keyName @ '' references unset environment variable '' @ key_String E key))
                  | Some v \<Rightarrow> Inr v)
          else Inr (key_String E key))"

definition parsePort ::
  "('file, 'sec, 'key, 're) config_env \<Rightarrow> 'sec \<Rightarrow> string \<Rightarrow> int result" where
  "parsePort E section keyName =
     (case ini_Key E section keyName of
        None \<Rightarrow> Inl (ErrMsg (keyName @ '' should not be empty''))
      | Some key \<Rightarrow>
          (case key_Int E key of
             Inl e \<Rightarrow> Inl e
           | Inr port \<Rightarrow>
               if port < 0 \<or> 65536 \<le> port then Inl (ErrMsg ''port should be >= 0 and < 65536'')
               else Inr port))"

definition parseTCPAddr ::
  "('file, 'sec, 'key, 're) config_env \<Rightarrow> 'sec \<Rightarrow> string \<Rightarrow> tcp_addr result" where
  "parseTCPAddr E section keyName =
     (case parseString E section keyName of
        Inl e \<Rightarrow> Inl e
      | Inr addrStr \<Rightarrow> net_ResolveTCPAddr E addrStr)"

definition encodeBase64ToHex :: "string \<Rightarrow> string result" where
  "encodeBase64ToHex key =
     (case base64_DecodeString key of
        None \<Rightarrow> Inl (ErrMsg (''invalid base64 string: '' @ key))
      | Some decoded \<Rightarrow>
          if length decoded \<noteq> 32 then Inl (ErrMsg (''key should be 32 bytes: '' @ key))
          else Inr (hex_EncodeToString decoded))"

definition parseBase64KeyToHex ::
  "('file, 'sec, 'key, 're) config_env \<Rightarrow> 'sec \<Rightarrow> string \<Rightarrow> string result" where
  "parseBase64KeyToHex E section keyName =
     (case parseString E section keyName of
        Inl e \<Rightarrow> Inl e
      | Inr key \<Rightarrow> (case encodeBase64ToHex key of Inl e \<Rightarrow> Inl e | Inr r \<Rightarrow> Inr r))"

section \<open>Comma-separated lists\<close>

text \<open>The fields of a list value: split at commas, trimmed, empty ones skipped.\<close>

definition list_fields :: "string \<Rightarrow> string list" where
  "list_fields key = filter (\<lambda>s. s \<noteq> []) (map strings_TrimSpace (strings_Split CHR '','' key))"

definition parse_addr :: "string \<Rightarrow> addr result" where
  "parse_addr s =
     (case netip_ParseAddr s of None \<Rightarrow> Inl (ErrMsg (''ParseAddr: unable to parse IP '' @ s)) | Some a \<Rightarrow> Inr a)"

definition parse_prefix :: "string \<Rightarrow> ip_prefix result" where
  "parse_prefix s =
     (case netip_ParsePrefix s of None \<Rightarrow> Inl (ErrMsg (''netip.ParsePrefix '' @ s)) | Some p \<Rightarrow> Inr p)"

definition parseNetIP ::
  "('file, 'sec, 'key, 're) config_env \<Rightarrow> 'sec \<Rightarrow> string \<Rightarrow> addr list result" where
  "parseNetIP E section keyName =
     (case parseString E section keyName of
        Inl e \<Rightarrow> if strings_Contains (err_Error e) ''should not be empty'' then Inr [] else Inl e
      | Inr key \<Rightarrow> collect parse_addr (list_fields key))"

definition parseCIDRNetIP ::
  "('file, 'sec, 'key, 're) config_env \<Rightarrow> 'sec \<Rightarrow> string \<Rightarrow> addr list result" where
  "parseCIDRNetIP E section keyName =
     (case parseString E section keyName of
        Inl e \<Rightarrow> if strings_Contains (err_Error e) ''should not be empty'' then Inr [] else Inl e
      | Inr key \<Rightarrow>
          collect (\<lambda>str. case parse_addr str of
                     Inr addr \<Rightarrow> Inr addr
                   | Inl _ \<Rightarrow> (case parse_prefix str of Inl e \<Rightarrow> Inl e | Inr p \<Rightarrow> Inr (px_ip p)))
            (list_fields key))"

definition parseAllowedIPs ::
  "('file, 'sec, 'key, 're) config_env \<Rightarrow> 'sec \<Rightarrow> ip_prefix list result" where
  "parseAllowedIPs E section =
     (case parseString E section ''AllowedIPs'' of
        Inl e \<Rightarrow> if strings_Contains (err_Error e) ''should not be empty'' then Inr [] else Inl e
      | Inr key \<Rightarrow> collect parse_prefix (list_fields key))"

definition resolveIP :: "('file, 'sec, 'key, 're) config_env \<Rightarrow> string \<Rightarrow> string result" where
  "resolveIP E ip = net_ResolveIPAddr E ip"

definition resolveIPPAndPort :: "('file, 'sec, 'key, 're) config_env \<Rightarrow> string \<Rightarrow> string result" where
  "resolveIPPAndPort E addr =
     (case net_SplitHostPort addr of
        Inl e \<Rightarrow> Inl e
      | Inr (host, port) \<Rightarrow>
          (case resolveIP E host of
             Inl e \<Rightarrow> Inl e
           | Inr ip \<Rightarrow> Inr (net_JoinHostPort ip port)))"

section \<open>The WireGuard sections\<close>

text \<open>\<open>if sectionKey, err := section.GetKey(name); err == nil\<close> around an integer value.\<close>

definition optional_int ::
  "('file, 'sec, 'key, 're) config_env \<Rightarrow> 'sec \<Rightarrow> string \<Rightarrow> int option result" where
  "optional_int E section keyName =
     (case ini_GetKey E section keyName of
        Inl _ \<Rightarrow> Inr None
      | Inr key \<Rightarrow> (case key_Int E key of Inl e \<Rightarrow> Inl e | Inr v \<Rightarrow> Inr (Some v)))"

definition ParseInterface ::
  "('file, 'sec, 'key, 're) config_env \<Rightarrow> 'file \<Rightarrow> DeviceConfig \<Rightarrow> DeviceConfig result" where
  "ParseInterface E cfg device =
     (case ini_SectionsByName E cfg ''Interface'' of
        Inr [section] \<Rightarrow>
          (case parseCIDRNetIP E section ''Address'' of Inl e \<Rightarrow> Inl e | Inr address \<Rightarrow>
           (case parseBase64KeyToHex E section ''PrivateKey'' of Inl e \<Rightarrow> Inl e | Inr privKey \<Rightarrow>
            (case parseNetIP E section ''DNS'' of Inl e \<Rightarrow> Inl e | Inr dns \<Rightarrow>
             (case optional_int E section ''MTU'' of Inl e \<Rightarrow> Inl e | Inr mtu \<Rightarrow>
              (case optional_int E section ''ListenPort'' of Inl e \<Rightarrow> Inl e | Inr listenPort \<Rightarrow>
               (case parseNetIP E section ''CheckAlive'' of Inl e \<Rightarrow> Inl e | Inr checkAlive \<Rightarrow>
                (case optional_int E section ''CheckAliveInterval'' of Inl e \<Rightarrow> Inl e | Inr interval \<Rightarrow>
                   if interval \<noteq> None \<and> checkAlive = []
                   then Inl (ErrMsg ''CheckAliveInterval is only valid when CheckAlive is set'')
                   else Inr (device\<lparr>
                          dc_Endpoint := address,
                          dc_SecretKey := privKey,
                          dc_DNS := dns,
                          dc_MTU := (case mtu of None \<Rightarrow> dc_MTU device | Some v \<Rightarrow> v),
                          dc_ListenPort := (case listenPort of None \<Rightarrow> dc_ListenPort device | Some v \<Rightarrow> Some v),
                          dc_CheckAlive := checkAlive,
                          dc_CheckAliveInterval := (case interval of None \<Rightarrow> 5 | Some v \<Rightarrow> v)\<rparr>))))))))
      | _ \<Rightarrow> Inl (ErrMsg ''one and only one [Interface] is expected''))"

definition zero_key :: string where
  "zero_key = replicate 64 CHR ''0''"

text \<open>One turn of the loop of \<open>ParsePeers\<close>.\<close>

definition parse_peer :: "('file, 'sec, 'key, 're) config_env \<Rightarrow> 'sec \<Rightarrow> PeerConfig result" where
  "parse_peer E section =
     (case parseBase64KeyToHex E section ''PublicKey'' of Inl e \<Rightarrow> Inl e | Inr publicKey \<Rightarrow>
      (case (case ini_GetKey E section ''PreSharedKey'' of
               Inl _ \<Rightarrow> Inr zero_key
             | Inr key \<Rightarrow> encodeBase64ToHex (key_String E key)) of Inl e \<Rightarrow> Inl e | Inr psk \<Rightarrow>
       (case (case ini_GetKey E section ''Endpoint'' of
                Inl _ \<Rightarrow> Inr None
              | Inr key \<Rightarrow>
                  (case resolveIPPAndPort E (strings_ToLower (unicode_ToLower E) (key_String E key)) of
                     Inl e \<Rightarrow> Inl e | Inr ep \<Rightarrow> Inr (Some ep))) of Inl e \<Rightarrow> Inl e | Inr endpoint \<Rightarrow>
        (case optional_int E section ''PersistentKeepalive'' of Inl e \<Rightarrow> Inl e | Inr keepAlive \<Rightarrow>
         (case parseAllowedIPs E section of Inl e \<Rightarrow> Inl e | Inr allowed \<Rightarrow>
            Inr \<lparr>pc_PublicKey = publicKey, pc_PreSharedKey = psk, pc_Endpoint = endpoint,
                 pc_KeepAlive = (case keepAlive of None \<Rightarrow> 0 | Some v \<Rightarrow> v),
                 pc_AllowedIPs = allowed\<rparr>)))))"

definition ParsePeers ::
  "('file, 'sec, 'key, 're) config_env \<Rightarrow> 'file \<Rightarrow> PeerConfig list \<Rightarrow> PeerConfig list result" where
  "ParsePeers E cfg peers =
     (case ini_SectionsByName E cfg ''Peer'' of
        Inl _ \<Rightarrow> Inl (ErrMsg ''at least one [Peer] is expected'')
      | Inr sections \<Rightarrow>
          if length sections < 1 then Inl (ErrMsg ''at least one [Peer] is expected'')
          else (case collect (parse_peer E) sections of
                  Inl e \<Rightarrow> Inl e | Inr new \<Rightarrow> Inr (peers @ new)))"

section \<open>The routine sections\<close>

definition parseTCPClientTunnelConfig ::
  "('file, 'sec, 'key, 're) config_env \<Rightarrow> 'sec \<Rightarrow> 're routine result" where
  "parseTCPClientTunnelConfig E section =
     (case parseTCPAddr E section ''BindAddress'' of Inl e \<Rightarrow> Inl e | Inr tcpAddr \<Rightarrow>
      (case parseString E section ''Target'' of Inl e \<Rightarrow> Inl e | Inr target \<Rightarrow>
         Inr (TCPClientTunnel \<lparr>closed = False, tct_BindAddress = tcpAddr, tct_Target = target,
                tct_listener = None, tct_raddr = None\<rparr>)))"

definition parseSTDIOTunnelConfig ::
  "('file, 'sec, 'key, 're) config_env \<Rightarrow> 'sec \<Rightarrow> 're routine result" where
  "parseSTDIOTunnelConfig E section =
     (case parseString E section ''Target'' of Inl e \<Rightarrow> Inl e | Inr target \<Rightarrow>
        Inr (STDIOTunnel \<lparr>sio_Target = target, sio_Input = Stdin, sio_Output = Stdout, sio_raddr = None\<rparr>))"

definition parseTCPServerTunnelConfig ::
  "('file, 'sec, 'key, 're) config_env \<Rightarrow> 'sec \<Rightarrow> 're routine result" where
  "parseTCPServerTunnelConfig E section =
     (case parsePort E section ''ListenPort'' of Inl e \<Rightarrow> Inl e | Inr listenPort \<Rightarrow>
      (case parseString E section ''Target'' of Inl e \<Rightarrow> Inl e | Inr target \<Rightarrow>
         Inr (TCPServerTunnel \<lparr>closed = False, tst_ListenPort = listenPort, tst_Target = target,
                tst_listener = None, tst_raddr = None\<rparr>)))"

definition parseRegexList ::
  "('file, 'sec, 'key, 're) config_env \<Rightarrow> 'sec \<Rightarrow> string \<Rightarrow> 're list result" where
  "parseRegexList E section keyName =
     (case ini_GetKey E section keyName of
        Inl _ \<Rightarrow> Inr []
      | Inr key \<Rightarrow>
          collect (\<lambda>raw. case regexp_Compile E raw of
                     Inl cerr \<Rightarrow> Inl (ErrMsg (''invalid '' @ keyName @ '' regex `'' @ raw @ ''`: '' @ err_Error cerr))
                   | Inr re \<Rightarrow> Inr re)
            (filter (\<lambda>raw. raw \<noteq> []) (map strings_TrimSpace (key_ValueWithShadows E key))))"

definition parseBoolKey ::
  "('file, 'sec, 'key, 're) config_env \<Rightarrow> 'sec \<Rightarrow> string \<Rightarrow> bool result" where
  "parseBoolKey E section keyName =
     (case ini_GetKey E section keyName of
        Inl _ \<Rightarrow> Inr False
      | Inr key \<Rightarrow> key_Bool E key)"

text \<open>\<open>x, _ := parseString(...)\<close>: the error is dropped and \<open>x\<close> is the empty string then.\<close>

definition parseString_or_empty ::
  "('file, 'sec, 'key, 're) config_env \<Rightarrow> 'sec \<Rightarrow> string \<Rightarrow> string" where
  "parseString_or_empty E section keyName =
     (case parseString E section keyName of Inl _ \<Rightarrow> [] | Inr s \<Rightarrow> s)"

definition parseSocks5Config ::
  "('file, 'sec, 'key, 're) config_env \<Rightarrow> 'sec \<Rightarrow> 're routine result" where
  "parseSocks5Config E section =
     (case parseString E section ''BindAddress'' of Inl e \<Rightarrow> Inl e | Inr bindAddress \<Rightarrow>
      (case parseRegexList E section ''TunnelDomains'' of Inl e \<Rightarrow> Inl e | Inr tunnelDomains \<Rightarrow>
       (case parseBoolKey E section ''LogDomains'' of Inl e \<Rightarrow> Inl e | Inr logDomains \<Rightarrow>
          Inr (Socks5 \<lparr>closed = False, s5_BindAddress = bindAddress,
                 s5_Username = parseString_or_empty E section ''Username'',
                 s5_Password = parseString_or_empty E section ''Password'',
                 s5_TunnelDomains = tunnelDomains, s5_LogDomains = logDomains, s5_listener = None\<rparr>))))"

definition parseSNIConfig ::
  "('file, 'sec, 'key, 're) config_env \<Rightarrow> 'sec \<Rightarrow> 're routine result" where
  "parseSNIConfig E section =
     (case parseString E section ''BindAddress'' of Inl e \<Rightarrow> Inl e | Inr bindAddress \<Rightarrow>
      (case parseRegexList E section ''TunnelDomains'' of Inl e \<Rightarrow> Inl e | Inr tunnelDomains \<Rightarrow>
       (case parseBoolKey E section ''LogDomains'' of Inl e \<Rightarrow> Inl e | Inr logDomains \<Rightarrow>
          Inr (SNI \<lparr>closed = False, sni_BindAddress = bindAddress,
                 sni_TunnelDomains = tunnelDomains, sni_LogDomains = logDomains, sni_listener = None\<rparr>))))"

definition parseHTTPConfig ::
  "('file, 'sec, 'key, 're) config_env \<Rightarrow> 'sec \<Rightarrow> 're routine result" where
  "parseHTTPConfig E section =
     (case parseString E section ''BindAddress'' of Inl e \<Rightarrow> Inl e | Inr bindAddress \<Rightarrow>
      (case parseRegexList E section ''TunnelDomains'' of Inl e \<Rightarrow> Inl e | Inr tunnelDomains \<Rightarrow>
       (case parseBoolKey E section ''LogDomains'' of Inl e \<Rightarrow> Inl e | Inr logDomains \<Rightarrow>
          Inr (HTTP \<lparr>closed = False, http_BindAddress = bindAddress,
                 http_Username = parseString_or_empty E section ''Username'',
                 http_Password = parseString_or_empty E section ''Password'',
                 http_CertFile = parseString_or_empty E section ''CertFile'',
                 http_KeyFile = parseString_or_empty E section ''KeyFile'',
                 http_TunnelDomains = tunnelDomains, http_LogDomains = logDomains, http_listener = None\<rparr>))))"

definition parseResolveConfig ::
  "('file, 'sec, 'key, 're) config_env \<Rightarrow> 'sec \<Rightarrow> ResolveConfig result" where
  "parseResolveConfig E section =
     Inr \<lparr>rc_ResolveStrategy = parseString_or_empty E section ''ResolveStrategy''\<rparr>"

definition parseUDPServerTunnelConfig ::
  "('file, 'sec, 'key, 're) config_env \<Rightarrow> 'sec \<Rightarrow> 're routine result" where
  "parseUDPServerTunnelConfig E section =
     (case parsePort E section ''ListenPort'' of Inl e \<Rightarrow> Inl e | Inr listenPort \<Rightarrow>
      (case parseString E section ''Target'' of Inl e \<Rightarrow> Inl e | Inr target \<Rightarrow>
       (case optional_int E section ''InactivityTimeout'' of Inl e \<Rightarrow> Inl e | Inr timeout \<Rightarrow>
          Inr (UDPServerTunnel \<lparr>closed = False, ust_ListenPort = listenPort, ust_Target = target,
                 ust_InactivityTimeout = (case timeout of None \<Rightarrow> 0 | Some v \<Rightarrow> v),
                 ust_listener = None, ust_targetAddr = None, ust_done = None\<rparr>))))"

definition parseUDPProxyTunnelConfig ::
  "('file, 'sec, 'key, 're) config_env \<Rightarrow> 'sec \<Rightarrow> 're routine result" where
  "parseUDPProxyTunnelConfig E section =
     (case parseString E section ''BindAddress'' of Inl e \<Rightarrow> Inl e | Inr bindAddress \<Rightarrow>
      (case parseString E section ''Target'' of Inl e \<Rightarrow> Inl e | Inr target \<Rightarrow>
       (case optional_int E section ''InactivityTimeout'' of Inl e \<Rightarrow> Inl e | Inr timeout \<Rightarrow>
          Inr (UDPProxyTunnel \<lparr>closed = False, upt_BindAddress = bindAddress, upt_Target = target,
                 upt_InactivityTimeout = (case timeout of None \<Rightarrow> 0 | Some v \<Rightarrow> v),
                 upt_listener = None, upt_done = None\<rparr>))))"

text \<open>A section name with no section in the file contributes nothing.\<close>

definition parseRoutinesConfig ::
  "('file, 'sec, 'key, 're) config_env \<Rightarrow> 're routine list \<Rightarrow> 'file \<Rightarrow> string \<Rightarrow>
     ('sec \<Rightarrow> 're routine result) \<Rightarrow> 're routine list result" where
  "parseRoutinesConfig E routines cfg sectionName f =
     (case ini_SectionsByName E cfg sectionName of
        Inl _ \<Rightarrow> Inr routines
      | Inr sections \<Rightarrow>
          (case collect f sections of Inl e \<Rightarrow> Inl e | Inr new \<Rightarrow> Inr (routines @ new)))"

section \<open>A whole configuration\<close>

definition default_device :: DeviceConfig where
  "default_device = \<lparr>dc_SecretKey = [], dc_Endpoint = [], dc_Peers = [], dc_DNS = [], dc_MTU = 1420,
     dc_ListenPort = None, dc_CheckAlive = [], dc_CheckAliveInterval = 0\<rparr>"

text \<open>The file the WireGuard sections are read from: the one \<open>WGConfig\<close> names, if it does.\<close>

definition load_wg_config ::
  "('file, 'sec, 'key, 're) config_env \<Rightarrow> 'file \<Rightarrow> string \<Rightarrow> 'file result" where
  "load_wg_config E cfg baseDir =
     (case ini_GetKey E (ini_Section E cfg []) ''WGConfig'' of
        Inl _ \<Rightarrow> Inr cfg
      | Inr wgConf \<Rightarrow>
          (let wgPath = key_String E wgConf;
               wgPath' = (if baseDir \<noteq> [] \<and> filepath_Base wgPath = wgPath
                          then filepath_Join baseDir wgPath else wgPath)
           in ini_LoadSources E (SourcePath wgPath')))"

definition parse_resolve ::
  "('file, 'sec, 'key, 're) config_env \<Rightarrow> 'file \<Rightarrow> ResolveConfig result" where
  "parse_resolve E cfg =
     (case ini_GetSection E cfg ''Resolve'' of
        Inl _ \<Rightarrow> Inr \<lparr>rc_ResolveStrategy = ''auto''\<rparr>
      | Inr section \<Rightarrow> parseResolveConfig E section)"

definition parseConfigSource ::
  "('file, 'sec, 'key, 're) config_env \<Rightarrow> ini_source \<Rightarrow> string \<Rightarrow> 're Configuration result" where
  "parseConfigSource E source baseDir =
     (case ini_LoadSources E source of Inl e \<Rightarrow> Inl e | Inr cfg \<Rightarrow>
      (case load_wg_config E cfg baseDir of Inl e \<Rightarrow> Inl e | Inr wgCfg \<Rightarrow>
       (case ParseInterface E wgCfg default_device of Inl e \<Rightarrow> Inl e | Inr device \<Rightarrow>
        (case ParsePeers E wgCfg (dc_Peers device) of Inl e \<Rightarrow> Inl e | Inr peers \<Rightarrow>
         (case parseRoutinesConfig E [] cfg ''TCPClientTunnel'' (parseTCPClientTunnelConfig E) of
            Inl e \<Rightarrow> Inl e | Inr r1 \<Rightarrow>
          (case parseRoutinesConfig E r1 cfg ''STDIOTunnel'' (parseSTDIOTunnelConfig E) of
             Inl e \<Rightarrow> Inl e | Inr r2 \<Rightarrow>
           (case parseRoutinesConfig E r2 cfg ''TCPServerTunnel'' (parseTCPServerTunnelConfig E) of
              Inl e \<Rightarrow> Inl e | Inr r3 \<Rightarrow>
            (case parseRoutinesConfig E r3 cfg ''Socks5'' (parseSocks5Config E) of
               Inl e \<Rightarrow> Inl e | Inr r4 \<Rightarrow>
             (case parseRoutinesConfig E r4 cfg ''http'' (parseHTTPConfig E) of
                Inl e \<Rightarrow> Inl e | Inr r5 \<Rightarrow>
              (case parseRoutinesConfig E r5 cfg ''SNI'' (parseSNIConfig E) of
                 Inl e \<Rightarrow> Inl e | Inr r6 \<Rightarrow>
               (case parse_resolve E cfg of Inl e \<Rightarrow> Inl e | Inr resolve \<Rightarrow>
                (case parseRoutinesConfig E r6 cfg ''UDPServerTunnel'' (parseUDPServerTunnelConfig E) of
                   Inl e \<Rightarrow> Inl e | Inr r7 \<Rightarrow>
                 (case parseRoutinesConfig E r7 cfg ''UDPProxyTunnel'' (parseUDPProxyTunnelConfig E) of
                    Inl e \<Rightarrow> Inl e | Inr r8 \<Rightarrow>
                    Inr \<lparr>conf_Device = device\<lparr>dc_Peers := peers\<rparr>, conf_Routines = r8,
                         conf_Resolve = resolve\<rparr>)))))))))))))"

definition ParseConfig :: "('file, 'sec, 'key, 're) config_env \<Rightarrow> string \<Rightarrow> 're Configuration result" where
  "ParseConfig E path = parseConfigSource E (SourcePath path) (filepath_Dir path)"

definition ParseConfigString ::
  "('file, 'sec, 'key, 're) config_env \<Rightarrow> string \<Rightarrow> 're Configuration result" where
  "ParseConfigString E txt =
     (if strings_TrimSpace txt = [] then Inl (ErrMsg ''configuration is empty'')
      else parseConfigSource E (SourceBytes txt) [])"

end
