(* ===== verification/IniConcrete.thy ===== *)
theory IniConcrete
  imports ConfigParse
begin

text \<open>
  A concrete environment for the parser: an ini file as the association list it was read into
  (section names and keys in lower case, as \<open>Insensitive\<close> makes them; a repeated key keeps its
  values in order, as \<open>AllowShadows\<close> does), a process environment as an association list, a resolver
  that knows literal addresses only, and regular expressions that match one host exactly.
\<close>

type_synonym ini_section = "(string \<times> string list) list"
type_synonym ini_file = "(string \<times> ini_section) list"

definition lower :: "string \<Rightarrow> string" where
  "lower = map lower_byte"

definition concrete_GetKey :: "ini_section \<Rightarrow> string \<Rightarrow> string list result" where
  "concrete_GetKey s k =
     (case map_of s (lower k) of
        None \<Rightarrow> Inl (ErrMsg (''error when getting key: '' @ k)) | Some v \<Rightarrow> Inr v)"

definition concrete_Key :: "ini_section \<Rightarrow> string \<Rightarrow> string list option" where
  "concrete_Key s k = (case map_of s (lower k) of None \<Rightarrow> Some [[]] | Some v \<Rightarrow> Some v)"

definition concrete_SectionsByName :: "ini_file \<Rightarrow> string \<Rightarrow> ini_section list result" where
  "concrete_SectionsByName f n =
     (let ss = map snd (filter (\<lambda>s. fst s = lower n) f)
      in if ss = [] then Inl (ErrMsg (''section '' @ n @ '' does not exist'')) else Inr ss)"

definition concrete_GetSection :: "ini_file \<Rightarrow> string \<Rightarrow> ini_section result" where
  "concrete_GetSection f n =
     (case concrete_SectionsByName f n of Inl e \<Rightarrow> Inl e | Inr ss \<Rightarrow> Inr (hd ss))"

definition concrete_Section :: "ini_file \<Rightarrow> string \<Rightarrow> ini_section" where
  "concrete_Section f n = (case concrete_GetSection f n of Inl e \<Rightarrow> [] | Inr s \<Rightarrow> s)"

definition concrete_String :: "string list \<Rightarrow> string" where
  "concrete_String vs = (case vs of [] \<Rightarrow> [] | v # _ \<Rightarrow> v)"

definition concrete_Int :: "string list \<Rightarrow> int result" where
  "concrete_Int vs =
     (case strconv_Atoi (concrete_String vs) of
        None \<Rightarrow> Inl (ErrMsg ''invalid syntax'') | Some i \<Rightarrow> Inr i)"

definition concrete_Bool :: "string list \<Rightarrow> bool result" where
  "concrete_Bool vs =
     (if concrete_String vs = ''true'' then Inr True
      else if concrete_String vs = ''false'' then Inr False else Inl (ErrMsg ''parsing: invalid syntax''))"

definition concrete_ResolveTCPAddr :: "string \<Rightarrow> tcp_addr result" where
  "concrete_ResolveTCPAddr s =
     (case net_SplitHostPort s of Inl e \<Rightarrow> Inl e
      | Inr (h, p) \<Rightarrow> (case strconv_Atoi p of None \<Rightarrow> Inl (ErrMsg ''unknown port'')
                      | Some i \<Rightarrow> Inr \<lparr>ta_IP = h, ta_Port = i\<rparr>))"

definition concrete_ResolveIPAddr :: "string \<Rightarrow> string result" where
  "concrete_ResolveIPAddr s =
     (case netip_ParseAddr s of None \<Rightarrow> Inl (ErrMsg ''no such host'') | Some a \<Rightarrow> Inr (Addr_String a))"

definition concrete_env ::
  "(ini_source \<Rightarrow> ini_file result) \<Rightarrow> (string \<times> string) list \<Rightarrow>
     (ini_file, ini_section, string list, string) config_env" where
  "concrete_env load vars = \<lparr>
     ini_LoadSources = load,
     ini_SectionsByName = concrete_SectionsByName,
     ini_GetSection = concrete_GetSection,
     ini_Section = concrete_Section,
     ini_Key = concrete_Key,
     ini_GetKey = concrete_GetKey,
     key_String = concrete_String,
     key_Int = concrete_Int,
     key_Bool = concrete_Bool,
     key_ValueWithShadows = (\<lambda>vs. vs),
     os_LookupEnv = map_of vars,
     net_ResolveTCPAddr = concrete_ResolveTCPAddr,
     net_ResolveIPAddr = concrete_ResolveIPAddr,
     regexp_Compile = (\<lambda>s. if s = ''('' then Inl (ErrMsg ''missing closing )'') else Inr s),
     unicode_ToLower = (\<lambda>s. s)\<rparr>"

lemma concrete_env_documented: "ini_key_documented (concrete_env load vars)"
  by (auto simp: ini_key_documented_def concrete_env_def concrete_Key_def concrete_GetKey_def
      concrete_String_def split: option.splits)

text \<open>The configuration of the repository's tests (\<open>config_string_test.go\<close>), without its comments.\<close>

definition sample_file :: ini_file where
  "sample_file =
     [(''interface'',
        [(''privatekey'', [''OMhFP0Xt3AKk7oNXFVpXsPqFPRhKa5PHSCiKX2h2XHo='']),
         (''address'', [''10.0.0.2/24'']), (''mtu'', [''1280''])]),
      (''peer'',
        [(''publickey'', [''7ZKMOxBmLLXCKCXeGgLLW1LtRYKPvNvhSTk0kPYWUXA='']),
         (''endpoint'', [''192.0.2.1:51820'']), (''allowedips'', [''10.0.0.1/32'']),
         (''persistentkeepalive'', [''30''])]),
      (''tcpservertunnel'', [(''listenport'', [''25565'']), (''target'', [''127.0.0.1:25565''])])]"

definition sample_env :: "(ini_file, ini_section, string list, string) config_env" where
  "sample_env = concrete_env (\<lambda>src. Inr sample_file) []"

lemma sample_parses: "is_ok (parseConfigSource sample_env (SourcePath ''wireproxy.conf'') ''.'')"
  by code_simp

end
