(* ===== verification/ConfigProps.thy ===== *)
theory ConfigProps
  imports IniConcrete
begin

text \<open>
  What a successful parse guarantees: the well-formedness of the device and of the routines, the
  order in which the routines come, the agreement of the two entry points, and the exact behaviour
  of the scalar parsers on every branch.
\<close>

section \<open>Well-formed configurations\<close>

definition key_wf :: "string \<Rightarrow> bool" where
  "key_wf k \<longleftrightarrow> length k = 64 \<and> list_all is_lower_hex k"

definition addr_ok :: "addr \<Rightarrow> bool" where
  "addr_ok a \<longleftrightarrow> Addr_wf a \<and> Addr_IsValid a"

definition peer_wf :: "PeerConfig \<Rightarrow> bool" where
  "peer_wf p \<longleftrightarrow> key_wf (pc_PublicKey p) \<and> key_wf (pc_PreSharedKey p) \<and>
     list_all Prefix_wf (pc_AllowedIPs p)"

definition device_wf :: "DeviceConfig \<Rightarrow> bool" where
  "device_wf d \<longleftrightarrow> key_wf (dc_SecretKey d) \<and> list_all addr_ok (dc_Endpoint d) \<and>
     list_all addr_ok (dc_DNS d) \<and> list_all addr_ok (dc_CheckAlive d) \<and>
     dc_Peers d \<noteq> [] \<and> list_all peer_wf (dc_Peers d) \<and>
     (dc_CheckAlive d = [] \<longrightarrow> dc_CheckAliveInterval d = 5)"

definition port_ok :: "int \<Rightarrow> bool" where
  "port_ok p \<longleftrightarrow> 0 \<le> p \<and> p < 65536"

text \<open>A routine as the parser leaves it: nothing bound, no shutdown asked for, its port in range.\<close>

fun routine_fresh :: "'re routine \<Rightarrow> bool" where
  "routine_fresh (TCPClientTunnel c) = (\<not> closed c \<and> tct_listener c = None \<and> tct_raddr c = None)"
| "routine_fresh (STDIOTunnel c) = (sio_Input c = Stdin \<and> sio_Output c = Stdout \<and> sio_raddr c = None)"
| "routine_fresh (TCPServerTunnel c) =
     (\<not> closed c \<and> port_ok (tst_ListenPort c) \<and> tst_listener c = None \<and> tst_raddr c = None)"
| "routine_fresh (Socks5 c) = (\<not> closed c \<and> s5_listener c = None)"
| "routine_fresh (HTTP c) = (\<not> closed c \<and> http_listener c = None)"
| "routine_fresh (SNI c) = (\<not> closed c \<and> sni_listener c = None)"
| "routine_fresh (UDPServerTunnel c) =
     (\<not> closed c \<and> port_ok (ust_ListenPort c) \<and> ust_listener c = None \<and> ust_done c = None)"
| "routine_fresh (UDPProxyTunnel c) = (\<not> closed c \<and> upt_listener c = None \<and> upt_done c = None)"

fun routine_rank :: "'re routine \<Rightarrow> nat" where
  "routine_rank (TCPClientTunnel c) = 0"
| "routine_rank (STDIOTunnel c) = 1"
| "routine_rank (TCPServerTunnel c) = 2"
| "routine_rank (Socks5 c) = 3"
| "routine_rank (HTTP c) = 4"
| "routine_rank (SNI c) = 5"
| "routine_rank (UDPServerTunnel c) = 6"
| "routine_rank (UDPProxyTunnel c) = 7"

section \<open>Scalars\<close>

lemma encodeBase64ToHex_Inr:
  "encodeBase64ToHex k = Inr h \<longleftrightarrow>
     (\<exists>bs. base64_DecodeString k = Some bs \<and> length bs = 32 \<and> h = hex_EncodeToString bs)"
  by (auto simp: encodeBase64ToHex_def split: option.splits if_splits)

lemma encodeBase64ToHex_wf: "encodeBase64ToHex k = Inr h \<Longrightarrow> key_wf h"
  by (auto simp: encodeBase64ToHex_Inr key_wf_def list_all_iff hex_Encode_lower)

lemma parseBase64KeyToHex_wf: "parseBase64KeyToHex E s k = Inr h \<Longrightarrow> key_wf h"
  by (auto simp: parseBase64KeyToHex_def dest: encodeBase64ToHex_wf split: sum.splits)

lemma zero_key_wf: "key_wf zero_key"
  by (simp add: key_wf_def zero_key_def list_all_iff is_lower_hex_def)

lemma parse_addr_ok: "parse_addr s = Inr a \<Longrightarrow> addr_ok a"
  by (auto simp: parse_addr_def addr_ok_def dest: ParseAddr_wf split: option.splits)

lemma parse_prefix_wf: "parse_prefix s = Inr p \<Longrightarrow> Prefix_wf p"
  by (auto simp: parse_prefix_def dest: ParsePrefix_wf split: option.splits)

lemma collect_all: "collect f xs = Inr ys \<Longrightarrow> (\<And>x y. f x = Inr y \<Longrightarrow> P y) \<Longrightarrow> list_all P ys"
  by (auto simp: list_all_iff dest: collect_set)

lemma parseNetIP_ok: "parseNetIP E s k = Inr as \<Longrightarrow> list_all addr_ok as"
  by (auto simp: parseNetIP_def split: sum.splits if_splits dest: collect_all [OF _ parse_addr_ok])

lemma parseCIDRNetIP_ok: "parseCIDRNetIP E s k = Inr as \<Longrightarrow> list_all addr_ok as"
  by (auto simp: parseCIDRNetIP_def addr_ok_def split: sum.splits if_splits
      elim!: collect_all dest!: parse_addr_ok parse_prefix_wf simp: Prefix_wf_def)

lemma parseAllowedIPs_wf: "parseAllowedIPs E s = Inr ps \<Longrightarrow> list_all Prefix_wf ps"
  by (auto simp: parseAllowedIPs_def split: sum.splits if_splits dest: collect_all [OF _ parse_prefix_wf])

lemma parsePort_ok: "parsePort E s k = Inr p \<Longrightarrow> port_ok p"
  by (auto simp: parsePort_def port_ok_def split: option.splits sum.splits if_splits)

section \<open>The WireGuard sections\<close>

lemma parse_peer_wf: "parse_peer E s = Inr p \<Longrightarrow> peer_wf p"
  by (auto simp: parse_peer_def peer_wf_def zero_key_wf split: sum.splits
      dest: parseBase64KeyToHex_wf encodeBase64ToHex_wf parseAllowedIPs_wf)

lemma ParseInterface_wf:
  assumes "ParseInterface E cfg d = Inr d'"
  shows "key_wf (dc_SecretKey d') \<and> list_all addr_ok (dc_Endpoint d') \<and> list_all addr_ok (dc_DNS d') \<and>
    list_all addr_ok (dc_CheckAlive d') \<and> (dc_CheckAlive d' = [] \<longrightarrow> dc_CheckAliveInterval d' = 5) \<and>
    dc_Peers d' = dc_Peers d"
  using assms
  by (auto simp: ParseInterface_def split: sum.splits list.splits if_splits
      dest: parseBase64KeyToHex_wf parseNetIP_ok parseCIDRNetIP_ok)

lemma ParsePeers_wf:
  assumes "ParsePeers E cfg ps = Inr ps'"
  shows "\<exists>new. ps' = ps @ new \<and> new \<noteq> [] \<and> list_all peer_wf new"
proof -
  from assms obtain secs new where "secs \<noteq> []" and new: "collect (parse_peer E) secs = Inr new"
    and ps': "ps' = ps @ new"
    by (auto simp: ParsePeers_def split: sum.splits if_splits)
  then have "new \<noteq> []"
    by (cases secs) (auto split: sum.splits)
  moreover have "list_all peer_wf new"
    by (rule collect_all [OF new parse_peer_wf])
  ultimately show ?thesis using ps' by blast
qed

section \<open>The routine sections\<close>

lemma parseRoutinesConfig_Inr:
  assumes "parseRoutinesConfig E rs cfg n f = Inr rs'"
  shows "\<exists>new. rs' = rs @ new \<and> (\<forall>r \<in> set new. \<exists>s. f s = Inr r)"
  using assms
  by (auto simp: parseRoutinesConfig_def split: sum.splits) (metis collect_set)

lemma parsed_routine:
  "parseTCPClientTunnelConfig E s = Inr r \<Longrightarrow> routine_fresh r \<and> routine_rank r = 0"
  "parseSTDIOTunnelConfig E s = Inr r \<Longrightarrow> routine_fresh r \<and> routine_rank r = 1"
  "parseTCPServerTunnelConfig E s = Inr r \<Longrightarrow> routine_fresh r \<and> routine_rank r = 2"
  "parseSocks5Config E s = Inr r \<Longrightarrow> routine_fresh r \<and> routine_rank r = 3"
  "parseHTTPConfig E s = Inr r \<Longrightarrow> routine_fresh r \<and> routine_rank r = 4"
  "parseSNIConfig E s = Inr r \<Longrightarrow> routine_fresh r \<and> routine_rank r = 5"
  "parseUDPServerTunnelConfig E s = Inr r \<Longrightarrow> routine_fresh r \<and> routine_rank r = 6"
  "parseUDPProxyTunnelConfig E s = Inr r \<Longrightarrow> routine_fresh r \<and> routine_rank r = 7"
  by (auto simp: parseTCPClientTunnelConfig_def parseSTDIOTunnelConfig_def
      parseTCPServerTunnelConfig_def parseSocks5Config_def parseHTTPConfig_def parseSNIConfig_def
      parseUDPServerTunnelConfig_def parseUDPProxyTunnelConfig_def parsePort_ok split: sum.splits)

text \<open>
  Adding the routines of one section kind keeps a list fresh and in the order of the kinds.
\<close>

definition routines_upto :: "nat \<Rightarrow> 're routine list \<Rightarrow> bool" where
  "routines_upto k rs \<longleftrightarrow> list_all routine_fresh rs \<and> sorted (map routine_rank rs) \<and>
     (\<forall>r \<in> set rs. routine_rank r < k)"

lemma routines_upto_Nil: "routines_upto 0 []"
  by (simp add: routines_upto_def)

lemma sorted_replicate_like: "\<forall>r \<in> set rs. f r = (k :: nat) \<Longrightarrow> sorted (map f rs)"
  by (induction rs) auto

lemma routines_upto_step:
  assumes "routines_upto k rs" and "parseRoutinesConfig E rs cfg n f = Inr rs'"
    and "\<And>s r. f s = Inr r \<Longrightarrow> routine_fresh r \<and> routine_rank r = k"
  shows "routines_upto (Suc k) rs'"
proof -
  obtain new where rs': "rs' = rs @ new" and new: "\<forall>r \<in> set new. \<exists>s. f s = Inr r"
    using parseRoutinesConfig_Inr [OF assms(2)] by blast
  with assms(3) have new': "\<forall>r \<in> set new. routine_fresh r \<and> routine_rank r = k" by blast
  then have "sorted (map routine_rank new)"
    by (auto intro: sorted_replicate_like)
  with new' assms(1) show ?thesis
    by (auto simp: rs' routines_upto_def sorted_append list_all_iff)
qed

lemma parseConfigSource_routines:
  assumes "parseConfigSource E src dir = Inr c"
  shows "routines_upto 8 (conf_Routines c)"
proof -
  from assms obtain cfg r1 r2 r3 r4 r5 r6 r7 where
    steps: "parseRoutinesConfig E [] cfg ''TCPClientTunnel'' (parseTCPClientTunnelConfig E) = Inr r1"
      "parseRoutinesConfig E r1 cfg ''STDIOTunnel'' (parseSTDIOTunnelConfig E) = Inr r2"
      "parseRoutinesConfig E r2 cfg ''TCPServerTunnel'' (parseTCPServerTunnelConfig E) = Inr r3"
      "parseRoutinesConfig E r3 cfg ''Socks5'' (parseSocks5Config E) = Inr r4"
      "parseRoutinesConfig E r4 cfg ''http'' (parseHTTPConfig E) = Inr r5"
      "parseRoutinesConfig E r5 cfg ''SNI'' (parseSNIConfig E) = Inr r6"
      "parseRoutinesConfig E r6 cfg ''UDPServerTunnel'' (parseUDPServerTunnelConfig E) = Inr r7"
      "parseRoutinesConfig E r7 cfg ''UDPProxyTunnel'' (parseUDPProxyTunnelConfig E) = Inr (conf_Routines c)"
    by (auto simp: parseConfigSource_def split: sum.splits)
  have "routines_upto 1 r1"
    using routines_upto_step [OF routines_upto_Nil steps(1) parsed_routine(1)] by simp
  from routines_upto_step [OF this steps(2) parsed_routine(2)] have "routines_upto 2 r2"
    by (simp add: numeral_2_eq_2)
  from routines_upto_step [OF this steps(3) parsed_routine(3)] have "routines_upto 3 r3" by simp
  from routines_upto_step [OF this steps(4) parsed_routine(4)] have "routines_upto 4 r4" by simp
  from routines_upto_step [OF this steps(5) parsed_routine(5)] have "routines_upto 5 r5" by simp
  from routines_upto_step [OF this steps(6) parsed_routine(6)] have "routines_upto 6 r6" by simp
  from routines_upto_step [OF this steps(7) parsed_routine(7)] have "routines_upto 7 r7" by simp
  from routines_upto_step [OF this steps(8) parsed_routine(8)] show ?thesis by simp
qed

lemma parseConfigSource_device:
  assumes "parseConfigSource E src dir = Inr c"
  shows "device_wf (conf_Device c)"
proof -
  from assms obtain wgCfg device peers where
    iface: "ParseInterface E wgCfg default_device = Inr device" and
    peers: "ParsePeers E wgCfg (dc_Peers device) = Inr peers" and
    dev: "conf_Device c = device\<lparr>dc_Peers := peers\<rparr>"
    by (auto simp: parseConfigSource_def split: sum.splits)
  from ParseInterface_wf [OF iface] ParsePeers_wf [OF peers] show ?thesis
    by (auto simp: dev device_wf_def default_device_def)
qed

section \<open>List values\<close>

lemma hex_graphic: "is_hex c \<Longrightarrow> graphic c"
  by (auto simp: is_hex_def hex_val_def graphic_def Let_def split: if_splits)

lemma Addr_String_graphic:
  assumes "c \<in> set (Addr_String a)" and "Addr_IsValid a" and "Addr_Zone a = []"
  shows "graphic c \<and> c \<noteq> CHR '',''"
proof (cases a)
  case (V4 x y z w)
  with assms(1) have "is_digit c \<or> c = CHR ''.''"
    by (auto dest: set_string4)
  then show ?thesis
    by (auto simp: hex_graphic digit_is_hex) (simp add: graphic_def)
next
  case (V6 gs z)
  with assms have "c \<in> set (string6_body gs)"
    unfolding V6 Addr_String_V6 by simp
  then have "is_hex c \<or> c = CHR '':'' \<or> c = CHR ''.''"
    by (rule set_string6_body)
  then show ?thesis
    by (auto simp: hex_graphic) (simp_all add: graphic_def)
qed (use assms in simp)

lemma Prefix_String_graphic:
  assumes "Prefix_wf p" and "c \<in> set (Prefix_String p)"
  shows "graphic c \<and> c \<noteq> CHR '',''"
  using assms Addr_String_graphic [of c "px_ip p"] hex_graphic [OF digit_is_hex [OF itoa_nat_digits]]
  by (auto simp: Prefix_String_def Prefix_wf_def graphic_def)

lemma list_fields_padded:
  assumes "ss \<noteq> []" and "\<forall>s \<in> set ss. s \<noteq> [] \<and> (\<forall>c \<in> set s. graphic c \<and> c \<noteq> CHR '','')"
  shows "list_fields (join_on CHR '','' (map (\<lambda>s. replicate n CHR '' '' @ s) ss)) = ss"
proof -
  have "strings_Split CHR '','' (join_on CHR '','' (map (\<lambda>s. replicate n CHR '' '' @ s) ss)) =
      map (\<lambda>s. replicate n CHR '' '' @ s) ss"
    using assms by (intro strings_Split_join) auto
  moreover have "map strings_TrimSpace (map (\<lambda>s. replicate n CHR '' '' @ s) ss) = ss"
    using assms(2) by (induction ss) (auto simp: strings_TrimSpace_padded)
  moreover have "filter (\<lambda>s. s \<noteq> []) ss = ss"
    using assms(2) by (auto simp: filter_id_conv)
  ultimately show ?thesis
    unfolding list_fields_def by simp
qed

lemma collect_prefixes:
  "\<forall>p \<in> set ps. Prefix_wf p \<Longrightarrow> collect parse_prefix (map Prefix_String ps) = Inr ps"
  by (induction ps) (auto simp: parse_prefix_def ParsePrefix_String)

section \<open>Properties\<close>

text \<open>C8: whatever the sources and the environment, a configuration that \<open>parseConfigSource\<close>
  returns is well formed: the private key, every public key and every preshared key is 64 lower-case
  hexadecimal digits, every address and prefix is valid, there is at least one peer, the check-alive
  interval is the default unless check-alive addresses are set, the listen port of every
  \<open>[TCPServerTunnel]\<close> and \<open>[UDPServerTunnel]\<close> is a 16-bit number and every routine is unbound and not
  shut down.  Nothing is claimed of \<open>ListenPort\<close> in \<open>[Interface]\<close>, whose range the parser does not
  check.\<close>

theorem parsed_config_wf:
  assumes "parseConfigSource E src dir = Inr c"
  shows "device_wf (conf_Device c) \<and> list_all routine_fresh (conf_Routines c)"
  using parseConfigSource_device [OF assms] parseConfigSource_routines [OF assms]
  by (simp add: routines_upto_def)

theorem parsed_config_wf_witness:
  "\<exists>c. parseConfigSource sample_env (SourcePath ''wireproxy.conf'') ''.'' = Inr c \<and>
     device_wf (conf_Device c) \<and> list_all routine_fresh (conf_Routines c)"
proof (cases "parseConfigSource sample_env (SourcePath ''wireproxy.conf'') ''.''" rule: result_cases)
  case (Err e)
  with sample_parses show ?thesis by simp
next
  case (Ok c)
  with parsed_config_wf [OF Ok] show ?thesis by blast
qed

text \<open>A configuration whose \<open>[Interface]\<close> asks for port 70000 is accepted.\<close>

definition wide_port_env :: "(ini_file, ini_section, string list, string) config_env" where
  "wide_port_env = concrete_env (\<lambda>src. Inr [(''interface'', (''listenport'', [''70000'']) # snd (hd sample_file)),
     sample_file ! 1]) []"

theorem interface_port_unchecked:
  "\<exists>c. parseConfigSource wide_port_env (SourcePath ''wireproxy.conf'') ''.'' = Inr c \<and>
     dc_ListenPort (conf_Device c) = Some 70000"
proof -
  have "(case parseConfigSource wide_port_env (SourcePath ''wireproxy.conf'') ''.'' of Inl e \<Rightarrow> None
      | Inr c \<Rightarrow> dc_ListenPort (conf_Device c)) = Some 70000" by code_simp
  then show ?thesis by (auto split: sum.splits)
qed

text \<open>the routines of a parsed configuration come in the fixed order of the section kinds
  (TCP client, stdio, TCP server, SOCKS5, HTTP, SNI, UDP server, UDP proxy), whatever the order of
  the sections in the file, so the CLI binds them in that order.\<close>

theorem parsed_routines_ordered:
  assumes "parseConfigSource E src dir = Inr c"
  shows "sorted (map routine_rank (conf_Routines c))"
  using parseConfigSource_routines [OF assms] by (simp add: routines_upto_def)

theorem parsed_routines_ordered_witness:
  "\<exists>c. parseConfigSource sample_env (SourcePath ''wireproxy.conf'') ''.'' = Inr c \<and>
     sorted (map routine_rank (conf_Routines c))"
proof (cases "parseConfigSource sample_env (SourcePath ''wireproxy.conf'') ''.''" rule: result_cases)
  case (Err e)
  with sample_parses show ?thesis by simp
next
  case (Ok c)
  with parsed_routines_ordered [OF Ok] show ?thesis by blast
qed

text \<open>\<open>encodeBase64ToHex\<close> accepts the base64 text of exactly the 32-byte keys; the result is a
  well-formed hexadecimal key that decodes to the same bytes, and every other length is reported as
  such.\<close>

theorem encodeBase64ToHex_roundtrip:
  "encodeBase64ToHex (base64_EncodeToString bs) =
     (if length bs = 32 then Inr (hex_EncodeToString bs)
      else Inl (ErrMsg (''key should be 32 bytes: '' @ base64_EncodeToString bs))) \<and>
   hex_DecodeString (hex_EncodeToString bs) = Some bs"
  by (simp add: encodeBase64ToHex_def base64_decode_encode hex_decode_encode)

text \<open>C36: \<open>parseAllowedIPs\<close> reads back every list of prefixes from its printed form, separated by
  commas and any number of blanks.\<close>

theorem parseAllowedIPs_roundtrip:
  assumes "ps \<noteq> []" and "\<forall>p \<in> set ps. Prefix_wf p"
    and "parseString E s ''AllowedIPs'' =
      Inr (join_on CHR '','' (map (\<lambda>p. replicate n CHR '' '' @ Prefix_String p) ps))"
  shows "parseAllowedIPs E s = Inr ps"
proof -
  have "list_fields (join_on CHR '','' (map (\<lambda>s. replicate n CHR '' '' @ s) (map Prefix_String ps))) =
      map Prefix_String ps"
    using assms(1,2) Prefix_String_graphic
    by (intro list_fields_padded) (auto simp: Prefix_String_def)
  then show ?thesis
    using assms by (simp add: parseAllowedIPs_def collect_prefixes comp_def)
qed

definition two_prefixes :: "ip_prefix list" where
  "two_prefixes = [\<lparr>px_ip = V4 10 0 0 0, px_bits = 8\<rparr>, \<lparr>px_ip = V6 [0x2001, 0xDB8, 0, 0, 0, 0, 0, 1] [], px_bits = 64\<rparr>]"

theorem parseAllowedIPs_roundtrip_witness:
  "parseAllowedIPs sample_env [(''allowedips'', ['' 10.0.0.0/8, 2001:db8::1/64''])] = Inr two_prefixes"
proof (rule parseAllowedIPs_roundtrip [where n = 1])
  show "two_prefixes \<noteq> []" by code_simp
  show "\<forall>p \<in> set two_prefixes. Prefix_wf p" by code_simp
  show "parseString sample_env [(''allowedips'', ['' 10.0.0.0/8, 2001:db8::1/64''])] ''AllowedIPs'' =
      Inr (join_on CHR '','' (map (\<lambda>p. replicate 1 CHR '' '' @ Prefix_String p) two_prefixes))"
    by code_simp
qed

text \<open>\<open>parseString\<close> on every branch: an absent key is the empty string (no error), a value
  \<open>$$x\<close> stands for \<open>$x\<close>, \<open>$NAME\<close> for the environment variable, with an error naming the key when it
  is unset, and any other value for itself.\<close>

theorem parseString_cases:
  assumes "ini_key_documented E" and "is_ascii k"
  shows "parseString E s k =
    (case ini_GetKey E s (map lower_byte k) of
       Inl _ \<Rightarrow> Inr []
     | Inr key \<Rightarrow>
         (let v = key_String E key in
          if prefix ''$$'' v then Inr (tl v)
          else if prefix ''$'' v then
            (case os_LookupEnv E (tl v) of
               None \<Rightarrow> Inl (ErrMsg (k @ '' references unset environment variable '' @ v))
             | Some w \<Rightarrow> Inr w)
          else Inr v))"
proof -
  let ?k = "map lower_byte k"
  obtain x where x: "ini_Key E s ?k = Some x"
    and found: "\<And>y. ini_GetKey E s ?k = Inr y \<Longrightarrow> x = y"
    and absent: "\<And>e. ini_GetKey E s ?k = Inl e \<Longrightarrow> key_String E x = []"
    using assms(1) unfolding ini_key_documented_def by metis
  have low: "strings_ToLower (unicode_ToLower E) k = ?k"
    using assms(2) by (simp add: strings_ToLower_def)
  show ?thesis
  proof (cases "ini_GetKey E s ?k")
    case (Inl e)
    then show ?thesis
      using absent by (simp add: parseString_def low x Let_def go_simps)
  next
    case (Inr y)
    with found have "x = y" by blast
    moreover have "strings_Replace1 v ''$$'' ''$'' = tl v" if "prefix ''$$'' v" for v
      using that by (auto elim!: prefixE)
    moreover have "prefix ''$'' v" if "prefix ''$$'' v" for v
      using that by (auto elim!: prefixE)
    ultimately show ?thesis
      using Inr by (simp add: parseString_def low x Let_def go_simps drop_Suc split: option.split)
  qed
qed

theorem parseString_cases_witness:
  "parseString (concrete_env (\<lambda>_. Inr []) [(''PSK'', ''secret'')]) [(''password'', [''$PSK''])] ''Password'' =
     Inr ''secret''"
proof -
  have "is_ascii ''Password''" by code_simp
  then show ?thesis
    by (rule trans [OF parseString_cases [OF concrete_env_documented]]) code_simp
qed

section \<open>What the file says\<close>

text \<open>
  The value of a key as its user wrote it: an absent key is the empty text, \<open>$$x\<close> is \<open>$x\<close>, and \<open>$NAME\<close> is the
  variable's value, \<open>None\<close> when it is unset.
\<close>

definition file_text :: "('file, 'sec, 'key, 're) config_env \<Rightarrow> 'sec \<Rightarrow> string \<Rightarrow> string option" where
  "file_text E s k =
     (case ini_GetKey E s k of
        Inl _ \<Rightarrow> Some []
      | Inr key \<Rightarrow>
          (let v = key_String E key in
           if prefix ''$$'' v then Some (tl v) else if prefix ''$'' v then os_LookupEnv E (tl v) else Some v))"

definition file_int :: "('file, 'sec, 'key, 're) config_env \<Rightarrow> 'sec \<Rightarrow> string \<Rightarrow> int option" where
  "file_int E s k =
     (case ini_GetKey E s k of Inl _ \<Rightarrow> None
      | Inr key \<Rightarrow> (case key_Int E key of Inl _ \<Rightarrow> None | Inr i \<Rightarrow> Some i))"

text \<open>The comma-separated fields of a value; none where the value refers to an unset variable.\<close>

definition file_fields :: "('file, 'sec, 'key, 're) config_env \<Rightarrow> 'sec \<Rightarrow> string \<Rightarrow> string list" where
  "file_fields E s k =
     (case file_text E s k of None \<Rightarrow> []
      | Some t \<Rightarrow> filter (\<lambda>f. f \<noteq> []) (map strings_TrimSpace (strings_Split (CHR '','') t)))"

text \<open>The text is the base64 form of the 32-byte key whose hexadecimal form is \<open>h\<close>.\<close>

definition key_says :: "string \<Rightarrow> string \<Rightarrow> bool" where
  "key_says t h \<longleftrightarrow> (\<exists>bs. base64_DecodeString t = Some bs \<and> length bs = 32 \<and> h = hex_EncodeToString bs)"

lemma parseString_text:
  assumes "ini_key_documented E" and "is_ascii k"
  shows "parseString E s k = Inr t \<longleftrightarrow> file_text E s (map lower_byte k) = Some t"
  unfolding parseString_cases [OF assms] file_text_def Let_def by (auto split: sum.splits option.splits)

lemma parseString_no_text:
  assumes "ini_key_documented E" and "is_ascii k" and "parseString E s k = Inl e"
  shows "file_text E s (map lower_byte k) = None"
proof (rule ccontr)
  assume "file_text E s (map lower_byte k) \<noteq> None"
  then show False using parseString_text [OF assms(1,2), of s] assms(3) by auto
qed

lemma parseBase64KeyToHex_says:
  assumes "ini_key_documented E" and "is_ascii k" and "parseBase64KeyToHex E s k = Inr h"
  shows "\<exists>t. file_text E s (map lower_byte k) = Some t \<and> key_says t h"
  using assms(3) parseString_text [OF assms(1,2), of s]
  by (auto simp: parseBase64KeyToHex_def key_says_def encodeBase64ToHex_Inr split: sum.splits)

lemma optional_int_says: "optional_int E s k = Inr v \<Longrightarrow> file_int E s k = v"
  by (auto simp: optional_int_def file_int_def split: sum.splits)

text \<open>A list value gives one item per field.\<close>

lemma list_value_says:
  assumes "ini_key_documented E" and "is_ascii k"
    and "(case parseString E s k of Inl e \<Rightarrow> if Q e then Inr [] else Inl e
      | Inr key \<Rightarrow> collect f (list_fields key)) = Inr ys"
  shows "list_all2 (\<lambda>x y. f x = Inr y) (file_fields E s (map lower_byte k)) ys"
proof (cases "parseString E s k")
  case (Inl e)
  with assms(3) parseString_no_text [OF assms(1,2) Inl] show ?thesis
    by (simp add: file_fields_def split: if_splits)
next
  case (Inr t)
  with parseString_text [OF assms(1,2), of s t] assms(3) show ?thesis
    by (simp add: file_fields_def list_fields_def collect_Inr_iff)
qed

lemma parseAllowedIPs_says:
  assumes "ini_key_documented E" and "parseAllowedIPs E s = Inr ps"
  shows "list_all2 (\<lambda>f p. netip_ParsePrefix f = Some p) (file_fields E s ''allowedips'') ps"
proof -
  have "is_ascii ''AllowedIPs''" and low: "map lower_byte ''AllowedIPs'' = ''allowedips''" by code_simp+
  from list_value_says [OF assms(1) this(1) assms(2) [unfolded parseAllowedIPs_def]] show ?thesis
    unfolding low by (rule list_all2_mono) (auto simp: parse_prefix_def split: option.splits)
qed

lemma parseNetIP_says:
  assumes "ini_key_documented E" and "parseNetIP E s ''DNS'' = Inr as"
  shows "list_all2 (\<lambda>f a. netip_ParseAddr f = Some a) (file_fields E s ''dns'') as"
proof -
  have "is_ascii ''DNS''" and low: "map lower_byte ''DNS'' = ''dns''" by code_simp+
  from list_value_says [OF assms(1) this(1) assms(2) [unfolded parseNetIP_def]] show ?thesis
    unfolding low by (rule list_all2_mono) (auto simp: parse_addr_def split: option.splits)
qed

lemma parseCIDRNetIP_says:
  assumes "ini_key_documented E" and "parseCIDRNetIP E s ''Address'' = Inr as"
  shows "list_all2 (\<lambda>f a. netip_ParseAddr f = Some a \<or>
      netip_ParseAddr f = None \<and> (\<exists>p. netip_ParsePrefix f = Some p \<and> a = px_ip p)) (file_fields E s ''address'') as"
proof -
  have "is_ascii ''Address''" and low: "map lower_byte ''Address'' = ''address''" by code_simp+
  from list_value_says [OF assms(1) this(1) assms(2) [unfolded parseCIDRNetIP_def]] show ?thesis
    unfolding low by (rule list_all2_mono) (auto simp: parse_addr_def parse_prefix_def split: option.splits)
qed

text \<open>Where the parts of the device come from.\<close>

lemma parseConfigSource_sections:
  assumes "parseConfigSource E src dir = Inr c"
  obtains cfg wg isec psecs device where "ini_LoadSources E src = Inr cfg" "load_wg_config E cfg dir = Inr wg"
    "ini_SectionsByName E wg ''Interface'' = Inr [isec]" "ini_SectionsByName E wg ''Peer'' = Inr psecs"
    "ParseInterface E wg default_device = Inr device" "conf_Device c = device\<lparr>dc_Peers := dc_Peers (conf_Device c)\<rparr>"
    "list_all2 (\<lambda>s p. parse_peer E s = Inr p) psecs (dc_Peers (conf_Device c))"
proof -
  from assms obtain cfg wg device peers where
    1: "ini_LoadSources E src = Inr cfg" "load_wg_config E cfg dir = Inr wg"
    and iface: "ParseInterface E wg default_device = Inr device"
    and peers: "ParsePeers E wg (dc_Peers device) = Inr peers" and dev: "conf_Device c = device\<lparr>dc_Peers := peers\<rparr>"
    by (auto simp: parseConfigSource_def split: sum.splits)
  from iface obtain isec where i: "ini_SectionsByName E wg ''Interface'' = Inr [isec]"
    by (auto simp: ParseInterface_def split: sum.splits list.splits)
  have none: "dc_Peers device = []" using ParseInterface_wf [OF iface] by (simp add: default_device_def)
  from peers obtain psecs where "ini_SectionsByName E wg ''Peer'' = Inr psecs" "collect (parse_peer E) psecs = Inr peers"
    by (auto simp: ParsePeers_def none split: sum.splits if_splits)
  with 1 i iface dev show ?thesis by (intro that) (simp_all add: collect_Inr_iff)
qed

section \<open>Two ways to the same configuration\<close>

text \<open>C37: a configuration held in memory and the same configuration in a file parse to the same
  result, provided it does not name another file by a bare \<open>WGConfig\<close> name.\<close>

theorem ParseConfigString_agrees:
  assumes "ini_LoadSources E (SourcePath path) = ini_LoadSources E (SourceBytes txt)"
    and "strings_TrimSpace txt \<noteq> []"
    and "\<And>cfg key. ini_LoadSources E (SourceBytes txt) = Inr cfg \<Longrightarrow>
      ini_GetKey E (ini_Section E cfg []) ''WGConfig'' = Inr key \<Longrightarrow>
      filepath_Base (key_String E key) \<noteq> key_String E key"
  shows "ParseConfigString E txt = ParseConfig E path"
proof (cases "ini_LoadSources E (SourceBytes txt)")
  case (Inl e)
  with assms show ?thesis
    by (simp add: ParseConfig_def ParseConfigString_def parseConfigSource_def)
next
  case (Inr cfg)
  have "load_wg_config E cfg [] = load_wg_config E cfg (filepath_Dir path)"
    using assms(3) [OF Inr] by (auto simp: load_wg_config_def Let_def split: sum.split)
  with assms Inr show ?thesis
    by (simp add: ParseConfig_def ParseConfigString_def parseConfigSource_def)
qed

theorem ParseConfigString_agrees_witness:
  "ParseConfigString sample_env ''[Interface]'' = ParseConfig sample_env ''/etc/wireproxy.conf''"
proof (rule ParseConfigString_agrees)
  show "ini_LoadSources sample_env (SourcePath ''/etc/wireproxy.conf'') =
      ini_LoadSources sample_env (SourceBytes ''[Interface]'')"
    by (simp add: sample_env_def concrete_env_def)
  show "strings_TrimSpace ''[Interface]'' \<noteq> []" by code_simp
next
  fix cfg key
  assume "ini_LoadSources sample_env (SourceBytes ''[Interface]'') = Inr cfg"
    and "ini_GetKey sample_env (ini_Section sample_env cfg []) ''WGConfig'' = Inr key"
  moreover have "\<not> is_ok (ini_GetKey sample_env (ini_Section sample_env sample_file []) ''WGConfig'')"
    by code_simp
  ultimately show "filepath_Base (key_String sample_env key) \<noteq> key_String sample_env key"
    by (simp add: sample_env_def concrete_env_def)
qed

text \<open>\<open>parseRegexList\<close> keeps the patterns in the order of the lines, one per non-blank value and
  never split at commas, and fails exactly when some non-blank value does not compile.\<close>

theorem parseRegexList_spec:
  assumes "ini_GetKey E s k = Inr key"
  shows "(\<forall>res. parseRegexList E s k = Inr res \<longleftrightarrow>
      list_all2 (\<lambda>raw re. regexp_Compile E raw = Inr re)
        (filter (\<lambda>r. r \<noteq> []) (map strings_TrimSpace (key_ValueWithShadows E key))) res) \<and>
    ((\<exists>e. parseRegexList E s k = Inl e) \<longleftrightarrow>
      (\<exists>raw \<in> set (key_ValueWithShadows E key). strings_TrimSpace raw \<noteq> [] \<and>
         (\<exists>e. regexp_Compile E (strings_TrimSpace raw) = Inl e)))"
proof -
  let ?f = "\<lambda>raw. case regexp_Compile E raw of
      Inl cerr \<Rightarrow> Inl (ErrMsg (''invalid '' @ k @ '' regex `'' @ raw @ ''`: '' @ err_Error cerr))
    | Inr re \<Rightarrow> Inr re"
  let ?raws = "filter (\<lambda>r. r \<noteq> []) (map strings_TrimSpace (key_ValueWithShadows E key))"
  have parse: "parseRegexList E s k = collect ?f ?raws"
    using assms by (simp add: parseRegexList_def)
  have inr: "?f raw = Inr r \<longleftrightarrow> regexp_Compile E raw = Inr r" for raw r
    by (auto split: sum.splits)
  have inl: "(\<exists>e. ?f raw = Inl e) \<longleftrightarrow> (\<exists>e. regexp_Compile E raw = Inl e)" for raw
    by (auto split: sum.splits)
  have "(\<exists>e. collect ?f ?raws = Inl e) \<longleftrightarrow> (\<exists>raw \<in> set ?raws. \<exists>e. regexp_Compile E raw = Inl e)"
    by (simp only: collect_Inl_iff inl)
  then show ?thesis
    by (simp add: parse collect_Inr_iff inr Bex_def)
qed

theorem parseRegexList_spec_witness:
  "parseRegexList sample_env [(''tunneldomains'', [''a{2,4}'', '' '', '' b.c''])] ''TunnelDomains'' =
     Inr [''a{2,4}'', ''b.c'']"
proof -
  let ?s = "[(''tunneldomains'', [''a{2,4}'', '' '', '' b.c''])]"
  have key: "ini_GetKey sample_env ?s ''TunnelDomains'' = Inr [''a{2,4}'', '' '', '' b.c'']"
    by code_simp
  have "list_all2 (\<lambda>raw re. regexp_Compile sample_env raw = Inr re)
      (filter (\<lambda>r. r \<noteq> []) (map strings_TrimSpace
        (key_ValueWithShadows sample_env [''a{2,4}'', '' '', '' b.c'']))) [''a{2,4}'', ''b.c'']"
    by code_simp
  with parseRegexList_spec [OF key] show ?thesis by blast
qed

end
