(* ===== verification/VirtualTun.thy ===== *)
theory VirtualTun
  imports ConfigProps "HOL-Library.Multiset"
begin

text \<open>
  Name resolution of \<open>routine.go\<close>: \<open>VirtualTun.LookupAddr\<close>, \<open>ResolveAddrWithContext\<close>, \<open>Resolve\<close>,
  \<open>resolveToAddrPort\<close> and \<open>parseAddressPort\<close>.  The system resolver and the resolver of the WireGuard
  network stack are parameters; \<open>math/rand.Shuffle\<close> is the Fisher-Yates loop over a source of random
  numbers.
\<close>

record VirtualTun =
  vt_SystemDNS :: bool
  vt_Conf :: DeviceConfig
  vt_ResolveConfig :: ResolveConfig
  vt_PingRecord :: "(string \<times> 64 word) list"

record resolver_env =
  system_LookupHost :: "string \<Rightarrow> string list result"
  tnet_LookupContextHost :: "string \<Rightarrow> string list result"
  rand_v4 :: "nat \<Rightarrow> nat"
  rand_v6 :: "nat \<Rightarrow> nat"

section \<open>Shuffling\<close>

definition swap :: "nat \<Rightarrow> nat \<Rightarrow> 'a list \<Rightarrow> 'a list" where
  "swap i j xs = xs[i := xs ! j, j := xs ! i]"

text \<open>\<open>for i := n - 1; i > 0; i--\<close>: swap \<open>i\<close> with a random index not above it.\<close>

fun shuffle_from :: "(nat \<Rightarrow> nat) \<Rightarrow> nat \<Rightarrow> 'a list \<Rightarrow> 'a list" where
  "shuffle_from rnd 0 xs = xs"
| "shuffle_from rnd (Suc i) xs =
     shuffle_from rnd i (swap (Suc i) (rnd (Suc i) mod (Suc i + 1)) xs)"

definition rand_Shuffle :: "(nat \<Rightarrow> nat) \<Rightarrow> 'a list \<Rightarrow> 'a list" where
  "rand_Shuffle rnd xs = shuffle_from rnd (length xs - 1) xs"

lemma length_swap [simp]: "length (swap i j xs) = length xs"
  by (simp add: swap_def)

lemma mset_swap_list: "i < length xs \<Longrightarrow> j < length xs \<Longrightarrow> mset (swap i j xs) = mset xs"
  by (simp add: swap_def mset_swap)

lemma mset_shuffle_from: "i < length xs \<or> i = 0 \<Longrightarrow> mset (shuffle_from rnd i xs) = mset xs"
proof (induction i arbitrary: xs)
  case (Suc i)
  then have i: "Suc i < length xs" by simp
  have "rnd (Suc i) mod (Suc i + 1) < length xs"
    using i mod_less_divisor [of "Suc i + 1" "rnd (Suc i)"] by linarith
  then have "mset (swap (Suc i) (rnd (Suc i) mod (Suc i + 1)) xs) = mset xs"
    by (rule mset_swap_list [OF i])
  with Suc.IH [of "swap (Suc i) (rnd (Suc i) mod (Suc i + 1)) xs"] i show ?case by simp
qed simp

lemma mset_Shuffle [simp]: "mset (rand_Shuffle rnd xs) = mset xs"
  unfolding rand_Shuffle_def by (rule mset_shuffle_from) (cases xs, simp_all)

lemma set_Shuffle [simp]: "set (rand_Shuffle rnd xs) = set xs"
  by (metis mset_Shuffle set_mset_mset)

lemma Shuffle_Nil [simp]: "rand_Shuffle rnd xs = [] \<longleftrightarrow> xs = []"
  by (metis mset_Shuffle mset_zero_iff)

lemma Shuffle_empty [simp]: "rand_Shuffle rnd [] = []"
  by simp

section \<open>Resolution\<close>

definition LookupAddr :: "resolver_env \<Rightarrow> VirtualTun \<Rightarrow> string \<Rightarrow> string list result" where
  "LookupAddr R d name =
     (if vt_SystemDNS d then system_LookupHost R name else tnet_LookupContextHost R name)"

definition parsed_addrs :: "string list \<Rightarrow> addr list" where
  "parsed_addrs addrs = List.map_filter netip_ParseAddr addrs"

definition ResolveAddrWithContext :: "resolver_env \<Rightarrow> VirtualTun \<Rightarrow> string \<Rightarrow> addr result" where
  "ResolveAddrWithContext R d name =
     (case LookupAddr R d name of
        Inl e \<Rightarrow> Inl e
      | Inr addrs \<Rightarrow>
          (let ps = parsed_addrs addrs;
               addrs_v4 = rand_Shuffle (rand_v4 R) (filter Addr_Is4 ps);
               addrs_v6 = rand_Shuffle (rand_v6 R) (filter (\<lambda>a. \<not> Addr_Is4 a \<and> Addr_Is6 a) ps);
               strategy = rc_ResolveStrategy (vt_ResolveConfig d);
               addrs_all = (if strategy = ''ipv4'' then addrs_v4 @ addrs_v6
                            else if strategy = ''ipv6'' then addrs_v6 @ addrs_v4
                            else [])
           in case addrs_all of
                [] \<Rightarrow> Inl (ErrMsg (''no address found for: '' @ name))
              | a # _ \<Rightarrow> Inr a))"

definition octets :: "16 word \<Rightarrow> 8 word list" where
  "octets g = [group_hi g, group_lo g]"

fun Addr_AsSlice :: "addr \<Rightarrow> 8 word list" where
  "Addr_AsSlice AddrInvalid = []"
| "Addr_AsSlice (V4 a b c d) = [a, b, c, d]"
| "Addr_AsSlice (V6 gs z) = concat (map octets gs)"

definition Resolve :: "resolver_env \<Rightarrow> VirtualTun \<Rightarrow> string \<Rightarrow> 8 word list result" where
  "Resolve R d name =
     (case ResolveAddrWithContext R d name of Inl e \<Rightarrow> Inl e | Inr a \<Rightarrow> Inr (Addr_AsSlice a))"

definition parseAddressPort :: "string \<Rightarrow> addressPort result" where
  "parseAddressPort endpoint =
     (case net_SplitHostPort endpoint of
        Inl e \<Rightarrow> Inl e
      | Inr (name, sport) \<Rightarrow>
          (case strconv_Atoi sport of
             None \<Rightarrow> Inl (ErrWrap ''dial: '' (ErrMsg ''port must be numeric''))
           | Some port \<Rightarrow>
               if port < 0 \<or> 65535 < port then Inl (ErrWrap ''dial: '' (ErrMsg ''port must be numeric''))
               else Inr \<lparr>ap_address = name, ap_port = of_int port\<rparr>))"

definition resolveToAddrPort :: "resolver_env \<Rightarrow> VirtualTun \<Rightarrow> addressPort \<Rightarrow> addr_port result" where
  "resolveToAddrPort R d endpoint =
     (case ResolveAddrWithContext R d (ap_address endpoint) of
        Inl e \<Rightarrow> Inl e
      | Inr a \<Rightarrow> Inr (a, ap_port endpoint))"

section \<open>Lemmas\<close>

lemma parsed_addrs_ok: "a \<in> set (parsed_addrs addrs) \<Longrightarrow> addr_ok a"
  by (auto simp: parsed_addrs_def List.map_filter_def addr_ok_def dest: ParseAddr_wf)

lemma parsed_addrs_family: "a \<in> set (parsed_addrs addrs) \<Longrightarrow> Addr_Is4 a \<or> Addr_Is6 a"
  using parsed_addrs_ok [of a addrs] by (auto simp: addr_ok_def Addr_IsValid_iff)

lemma hd_append_in: "xs @ ys = z # zs \<Longrightarrow> (xs \<noteq> [] \<and> z \<in> set xs) \<or> (xs = [] \<and> z \<in> set ys)"
  by (cases xs) auto

lemma ResolveAddr_Inr:
  assumes "ResolveAddrWithContext R d name = Inr a"
  obtains addrs where "LookupAddr R d name = Inr addrs" "a \<in> set (parsed_addrs addrs)"
    "rc_ResolveStrategy (vt_ResolveConfig d) = ''ipv4'' \<and> (Addr_Is4 a \<or> filter Addr_Is4 (parsed_addrs addrs) = []) \<or>
     rc_ResolveStrategy (vt_ResolveConfig d) = ''ipv6'' \<and> (Addr_Is6 a \<or> filter Addr_Is6 (parsed_addrs addrs) = [])"
proof -
  obtain addrs where l: "LookupAddr R d name = Inr addrs"
    using assms by (auto simp: ResolveAddrWithContext_def split: sum.splits)
  let ?ps = "parsed_addrs addrs"
  have v6: "filter (\<lambda>a. \<not> Addr_Is4 a \<and> Addr_Is6 a) ?ps = filter Addr_Is6 ?ps"
    using Addr_Is4_Is6 by (intro filter_cong) auto
  let ?v4 = "rand_Shuffle (rand_v4 R) (filter Addr_Is4 ?ps)"
  let ?v6 = "rand_Shuffle (rand_v6 R) (filter Addr_Is6 ?ps)"
  let ?s = "rc_ResolveStrategy (vt_ResolveConfig d)"
  have "\<exists>zs. ?s = ''ipv4'' \<and> ?v4 @ ?v6 = a # zs \<or> ?s = ''ipv6'' \<and> ?v6 @ ?v4 = a # zs"
    using assms l
    by (auto simp: ResolveAddrWithContext_def Let_def v6 split: if_splits list.splits)
  then obtain zs where "?s = ''ipv4'' \<and> ?v4 @ ?v6 = a # zs \<or> ?s = ''ipv6'' \<and> ?v6 @ ?v4 = a # zs"
    by blast
  then show ?thesis
    using that [OF l] by (auto dest!: hd_append_in)
qed

text \<open>Resolution succeeds exactly when the strategy is one of the two families and the
  resolver's answer contains a parsable address; with any other strategy, the empty one of a
  \<open>[Resolve]\<close> section without \<open>ResolveStrategy\<close> included, no name ever resolves.\<close>

lemma resolve_ok_iff:
  "is_ok (ResolveAddrWithContext R d name) \<longleftrightarrow>
     rc_ResolveStrategy (vt_ResolveConfig d) \<in> {''ipv4'', ''ipv6''} \<and>
     (\<exists>addrs. LookupAddr R d name = Inr addrs \<and> parsed_addrs addrs \<noteq> [])"
proof (cases "LookupAddr R d name")
  case (Inr addrs)
  let ?ps = "parsed_addrs addrs"
  have "?ps = [] \<longleftrightarrow> filter Addr_Is4 ?ps = [] \<and> filter (\<lambda>a. \<not> Addr_Is4 a \<and> Addr_Is6 a) ?ps = []"
    using parsed_addrs_family [of _ addrs] by (cases ?ps) (auto simp: filter_empty_conv)
  with Inr show ?thesis
    by (auto simp: ResolveAddrWithContext_def Let_def split: list.split)
qed (simp add: ResolveAddrWithContext_def)

section \<open>Properties\<close>

text \<open>C22: a resolved address is one of the valid addresses the chosen resolver returned, and it is
  of the preferred family whenever the resolver returned an address of that family, whatever the
  random source does.\<close>

theorem resolve_prefers_family:
  assumes "LookupAddr R d name = Inr addrs"
    and "ResolveAddrWithContext R d name = Inr a"
  shows "a \<in> set (parsed_addrs addrs) \<and> addr_ok a \<and>
    (rc_ResolveStrategy (vt_ResolveConfig d) = ''ipv4'' \<longrightarrow>
       (\<exists>b \<in> set (parsed_addrs addrs). Addr_Is4 b) \<longrightarrow> Addr_Is4 a) \<and>
    (rc_ResolveStrategy (vt_ResolveConfig d) = ''ipv6'' \<longrightarrow>
       (\<exists>b \<in> set (parsed_addrs addrs). Addr_Is6 b) \<longrightarrow> Addr_Is6 a)"
  using assms by (auto elim!: ResolveAddr_Inr simp: parsed_addrs_ok filter_empty_conv)

definition demo_resolver :: resolver_env where
  "demo_resolver = \<lparr>system_LookupHost = (\<lambda>_. Inl (ErrMsg ''no such host'')),
     tnet_LookupContextHost = (\<lambda>_. Inr [''2001:db8::1'', ''192.0.2.7'', ''bogus'']),
     rand_v4 = (\<lambda>n. n), rand_v6 = (\<lambda>n. 0)\<rparr>"

definition demo_tun :: "string \<Rightarrow> VirtualTun" where
  "demo_tun strategy = \<lparr>vt_SystemDNS = False, vt_Conf = default_device,
     vt_ResolveConfig = \<lparr>rc_ResolveStrategy = strategy\<rparr>, vt_PingRecord = []\<rparr>"

theorem resolve_prefers_family_witness:
  "ResolveAddrWithContext demo_resolver (demo_tun ''ipv4'') ''example.com'' = Inr (V4 192 0 2 7) \<and>
   Addr_Is4 (V4 192 0 2 7)"
proof -
  have l: "LookupAddr demo_resolver (demo_tun ''ipv4'') ''example.com'' =
      Inr [''2001:db8::1'', ''192.0.2.7'', ''bogus'']"
    by code_simp
  have r: "ResolveAddrWithContext demo_resolver (demo_tun ''ipv4'') ''example.com'' = Inr (V4 192 0 2 7)"
    by code_simp
  from resolve_prefers_family [OF l r] r show ?thesis by simp
qed

text \<open>C39: \<open>parseAddressPort\<close> reads back a joined host and numeric port exactly when the port fits
  16 bits; no port is ever truncated.\<close>

theorem parseAddressPort_Join:
  assumes "plain_host h" and "in_int64 p"
  shows "parseAddressPort (net_JoinHostPort h (strconv_Itoa p)) =
    (if 0 \<le> p \<and> p \<le> 65535 then Inr \<lparr>ap_address = h, ap_port = of_int p\<rparr>
     else Inl (ErrWrap ''dial: '' (ErrMsg ''port must be numeric'')))"
proof -
  have "plain_port (strconv_Itoa p)"
    by (auto simp: plain_port_def strconv_Itoa_def)
  with assms show ?thesis
    by (auto simp: parseAddressPort_def SplitHostPort_JoinHostPort strconv_Atoi_Itoa)
qed

theorem parseAddressPort_Join_witness:
  "parseAddressPort (net_JoinHostPort ''::1'' (strconv_Itoa 70000)) =
     Inl (ErrWrap ''dial: '' (ErrMsg ''port must be numeric''))"
proof -
  have "plain_host ''::1''" and "in_int64 70000" by code_simp+
  from parseAddressPort_Join [OF this] show ?thesis by simp
qed

end
