(* ===== verification/Lifecycle.thy ===== *)
theory Lifecycle
  imports VirtualTun
begin

text \<open>
  The \<open>RoutineSpawner\<close> contract of \<open>routine.go\<close>: \<open>Bind\<close>, \<open>Serve\<close> and \<open>Close\<close> of the routines that
  accept connections, and the rule by which \<open>Serve\<close> tells a deliberate stop from a fault.  The two
  locales state the contract once; each routine of the program is an interpretation.
\<close>

section \<open>Shutdown intent\<close>

definition markClosed :: "'a shutdown_scheme \<Rightarrow> 'a shutdown_scheme" where
  "markClosed s = s\<lparr>closed := True\<rparr>"

definition stopping :: "'a shutdown_scheme \<Rightarrow> bool" where
  "stopping s = closed s"

text \<open>A nil error is \<open>None\<close>.\<close>

definition closedByUs :: "'a shutdown_scheme \<Rightarrow> go_error option \<Rightarrow> bool" where
  "closedByUs s err =
     (case err of None \<Rightarrow> True | Some e \<Rightarrow> stopping s \<or> errors_Is_ErrClosed e)"

text \<open>
  What \<open>closeListener\<close> is given, as an \<open>io.Closer\<close>: a nil interface, an interface that holds a nil
  \<open>*net.UDPConn\<close>, or a listener.  Closing the nil pointer is the standard library's business and
  may fail or panic; the outcome is part of the environment.
\<close>

datatype closer = NilCloser | NilUDPConn | Closer handle

datatype close_outcome = CloseReturns "go_error option" | ClosePanics

record close_env =
  handle_Close :: "handle \<Rightarrow> go_error option"
  nil_UDPConn_Close :: close_outcome

definition tolerate_closed :: "go_error option \<Rightarrow> go_error option" where
  "tolerate_closed r =
     (case r of None \<Rightarrow> None | Some e \<Rightarrow> if errors_Is_ErrClosed e then None else Some e)"

fun closeListener :: "close_env \<Rightarrow> closer \<Rightarrow> close_outcome" where
  "closeListener K NilCloser = CloseReturns None"
| "closeListener K NilUDPConn =
     (case nil_UDPConn_Close K of
        ClosePanics \<Rightarrow> ClosePanics | CloseReturns r \<Rightarrow> CloseReturns (tolerate_closed r))"
| "closeListener K (Closer h) = CloseReturns (tolerate_closed (handle_Close K h))"

definition iface_closer :: "handle option \<Rightarrow> closer" where
  "iface_closer l = (case l of None \<Rightarrow> NilCloser | Some h \<Rightarrow> Closer h)"

definition udpconn_closer :: "handle option \<Rightarrow> closer" where
  "udpconn_closer l = (case l of None \<Rightarrow> NilUDPConn | Some h \<Rightarrow> Closer h)"

text \<open>\<open>select { case <-done: default: close(done) }\<close> under \<open>if done != nil\<close>, run alone.\<close>

definition close_done :: "chan option \<Rightarrow> chan option" where
  "close_done d = (case d of None \<Rightarrow> None | Some c \<Rightarrow> Some ChanClosed)"

section \<open>Binding\<close>

record net_env =
  net_Listen :: "string \<Rightarrow> string \<Rightarrow> handle result"
  tls_LoadX509KeyPair :: "string \<Rightarrow> string \<Rightarrow> nat result"
  tls_Listen :: "string \<Rightarrow> string \<Rightarrow> nat \<Rightarrow> handle result"
  net_ListenTCP :: "tcp_addr \<Rightarrow> handle result"
  tnet_ListenTCP :: "int \<Rightarrow> handle result"
  net_ResolveUDPAddr :: "string \<Rightarrow> string result"
  net_ListenUDP :: "string \<Rightarrow> handle result"
  tnet_ListenUDP :: "int \<Rightarrow> handle result"

text \<open>
  \<open>Bind\<close> has a pointer receiver: its result is the error and the receiver as it was left.  Where it
  fails after storing the remote address, the receiver keeps that field.
\<close>

definition Socks5_Bind :: "net_env \<Rightarrow> 're Socks5Config \<Rightarrow> go_error option \<times> 're Socks5Config" where
  "Socks5_Bind N config =
     (case net_Listen N ''tcp'' (s5_BindAddress config) of
        Inl e \<Rightarrow> (Some (ErrWrap (''socks5: cannot listen on '' @ s5_BindAddress config @ '': '') e), config)
      | Inr l \<Rightarrow> (None, config\<lparr>s5_listener := Some l\<rparr>))"

definition HTTP_Bind :: "net_env \<Rightarrow> 're HTTPConfig \<Rightarrow> go_error option \<times> 're HTTPConfig" where
  "HTTP_Bind N config =
     (if http_CertFile config \<noteq> [] \<and> http_KeyFile config \<noteq> [] then
        (case tls_LoadX509KeyPair N (http_CertFile config) (http_KeyFile config) of
           Inl e \<Rightarrow> (Some (ErrWrap ''http proxy: cannot load certificate: '' e), config)
         | Inr cert \<Rightarrow>
             (case tls_Listen N ''tcp'' (http_BindAddress config) cert of
                Inl e \<Rightarrow> (Some (ErrWrap (''http proxy: cannot listen on '' @ http_BindAddress config @ '': '') e), config)
              | Inr l \<Rightarrow> (None, config\<lparr>http_listener := Some l\<rparr>)))
      else
        (case net_Listen N ''tcp'' (http_BindAddress config) of
           Inl e \<Rightarrow> (Some (ErrWrap (''http proxy: cannot listen on '' @ http_BindAddress config @ '': '') e), config)
         | Inr l \<Rightarrow> (None, config\<lparr>http_listener := Some l\<rparr>)))"

definition SNI_Bind :: "net_env \<Rightarrow> 're SNIConfig \<Rightarrow> go_error option \<times> 're SNIConfig" where
  "SNI_Bind N config =
     (case net_Listen N ''tcp'' (sni_BindAddress config) of
        Inl e \<Rightarrow> (Some (ErrWrap (''sni proxy: cannot listen on '' @ sni_BindAddress config @ '': '') e), config)
      | Inr l \<Rightarrow> (None, config\<lparr>sni_listener := Some l\<rparr>))"

definition tcp_addr_String :: "tcp_addr \<Rightarrow> string" where
  "tcp_addr_String a = net_JoinHostPort (ta_IP a) (strconv_Itoa (ta_Port a))"

text \<open>The verb \<open>%q\<close> on printable ASCII text.\<close>

definition fmt_q :: "string \<Rightarrow> string" where
  "fmt_q s = CHR 0x22 # concat (map (\<lambda>c. if c = CHR 0x22 \<or> c = CHR 0x5C then [CHR 0x5C, c] else [c]) s) @ [CHR 0x22]"

definition TCPClientTunnel_Bind ::
  "net_env \<Rightarrow> TCPClientTunnelConfig \<Rightarrow> go_error option \<times> TCPClientTunnelConfig" where
  "TCPClientTunnel_Bind N conf =
     (case parseAddressPort (tct_Target conf) of
        Inl e \<Rightarrow> (Some (ErrWrap (''tcp client tunnel: bad target '' @ fmt_q (tct_Target conf) @ '': '') e), conf)
      | Inr raddr \<Rightarrow>
          (let conf = conf\<lparr>tct_raddr := Some raddr\<rparr> in
           case net_ListenTCP N (tct_BindAddress conf) of
             Inl e \<Rightarrow> (Some (ErrWrap (''tcp client tunnel: cannot listen on '' @
                         tcp_addr_String (tct_BindAddress conf) @ '': '') e), conf)
           | Inr l \<Rightarrow> (None, conf\<lparr>tct_listener := Some l\<rparr>)))"

definition STDIOTunnel_Bind :: "STDIOTunnelConfig \<Rightarrow> go_error option \<times> STDIOTunnelConfig" where
  "STDIOTunnel_Bind conf =
     (case parseAddressPort (sio_Target conf) of
        Inl e \<Rightarrow> (Some (ErrWrap (''stdio tunnel: bad target '' @ fmt_q (sio_Target conf) @ '': '') e), conf)
      | Inr raddr \<Rightarrow> (None, conf\<lparr>sio_raddr := Some raddr\<rparr>))"

definition TCPServerTunnel_Bind ::
  "net_env \<Rightarrow> TCPServerTunnelConfig \<Rightarrow> go_error option \<times> TCPServerTunnelConfig" where
  "TCPServerTunnel_Bind N conf =
     (case parseAddressPort (tst_Target conf) of
        Inl e \<Rightarrow> (Some (ErrWrap (''tcp server tunnel: bad target '' @ fmt_q (tst_Target conf) @ '': '') e), conf)
      | Inr raddr \<Rightarrow>
          (let conf = conf\<lparr>tst_raddr := Some raddr\<rparr> in
           case tnet_ListenTCP N (tst_ListenPort conf) of
             Inl e \<Rightarrow> (Some (ErrWrap (''tcp server tunnel: cannot listen on WireGuard port '' @
                         strconv_Itoa (tst_ListenPort conf) @ '': '') e), conf)
           | Inr l \<Rightarrow> (None, conf\<lparr>tst_listener := Some l\<rparr>)))"

definition UDPProxyTunnel_Bind :: "net_env \<Rightarrow> UDPProxyTunnelConfig \<Rightarrow> go_error option \<times> UDPProxyTunnelConfig" where
  "UDPProxyTunnel_Bind N conf =
     (case net_ResolveUDPAddr N (upt_BindAddress conf) of
        Inl e \<Rightarrow> (Some (ErrWrap (''udp proxy: could not resolve bind address '' @ upt_BindAddress conf @ '': '') e), conf)
      | Inr a \<Rightarrow>
          (case net_ListenUDP N a of
             Inl e \<Rightarrow> (Some (ErrWrap (''udp proxy: could not listen on '' @ upt_BindAddress conf @ '': '') e), conf)
           | Inr l \<Rightarrow> (None, conf\<lparr>upt_listener := Some l, upt_done := Some ChanOpen\<rparr>)))"

definition UDPServerTunnel_Bind ::
  "net_env \<Rightarrow> UDPServerTunnelConfig \<Rightarrow> go_error option \<times> UDPServerTunnelConfig" where
  "UDPServerTunnel_Bind N conf =
     (case net_ResolveUDPAddr N (ust_Target conf) of
        Inl e \<Rightarrow> (Some (ErrWrap (''udp server tunnel: cannot resolve target '' @ ust_Target conf @ '': '') e), conf)
      | Inr a \<Rightarrow>
          (let conf = conf\<lparr>ust_targetAddr := Some a\<rparr> in
           case tnet_ListenUDP N (ust_ListenPort conf) of
             Inl e \<Rightarrow> (Some (ErrWrap (''udp server tunnel: cannot listen on WireGuard port '' @
                         strconv_Itoa (ust_ListenPort conf) @ '': '') e), conf)
           | Inr l \<Rightarrow> (None, conf\<lparr>ust_listener := Some l, ust_done := Some ChanOpen\<rparr>)))"

section \<open>Closing\<close>

definition Socks5_Close :: "close_env \<Rightarrow> 're Socks5Config \<Rightarrow> 're Socks5Config \<times> close_outcome" where
  "Socks5_Close K c = (markClosed c, closeListener K (iface_closer (s5_listener c)))"

definition HTTP_Close :: "close_env \<Rightarrow> 're HTTPConfig \<Rightarrow> 're HTTPConfig \<times> close_outcome" where
  "HTTP_Close K c = (markClosed c, closeListener K (iface_closer (http_listener c)))"

definition SNI_Close :: "close_env \<Rightarrow> 're SNIConfig \<Rightarrow> 're SNIConfig \<times> close_outcome" where
  "SNI_Close K c = (markClosed c, closeListener K (iface_closer (sni_listener c)))"

definition TCPClientTunnel_Close ::
  "close_env \<Rightarrow> TCPClientTunnelConfig \<Rightarrow> TCPClientTunnelConfig \<times> close_outcome" where
  "TCPClientTunnel_Close K c = (markClosed c, closeListener K (iface_closer (tct_listener c)))"

definition TCPServerTunnel_Close ::
  "close_env \<Rightarrow> TCPServerTunnelConfig \<Rightarrow> TCPServerTunnelConfig \<times> close_outcome" where
  "TCPServerTunnel_Close K c = (markClosed c, closeListener K (iface_closer (tst_listener c)))"

definition STDIOTunnel_Close :: "STDIOTunnelConfig \<Rightarrow> STDIOTunnelConfig \<times> close_outcome" where
  "STDIOTunnel_Close c = (c, CloseReturns None)"

text \<open>The listener of the UDP proxy is a \<open>*net.UDPConn\<close>, not an interface.\<close>

definition UDPProxyTunnel_Close ::
  "close_env \<Rightarrow> UDPProxyTunnelConfig \<Rightarrow> UDPProxyTunnelConfig \<times> close_outcome" where
  "UDPProxyTunnel_Close K c =
     ((markClosed c)\<lparr>upt_done := close_done (upt_done c)\<rparr>,
      closeListener K (udpconn_closer (upt_listener c)))"

definition UDPServerTunnel_Close ::
  "close_env \<Rightarrow> UDPServerTunnelConfig \<Rightarrow> UDPServerTunnelConfig \<times> close_outcome" where
  "UDPServerTunnel_Close K c =
     ((markClosed c)\<lparr>ust_done := close_done (ust_done c)\<rparr>,
      closeListener K (iface_closer (ust_listener c)))"

section \<open>Serving\<close>

text \<open>
  An accept loop is driven by what \<open>Accept\<close> returns.  Each outcome comes with the value of the
  shutdown flag at that moment, since \<open>Close\<close> runs in another goroutine.  \<open>Serving cs\<close> is a loop still
  waiting after handing over the connections \<open>cs\<close>; \<open>Returned cs r\<close> one that has returned \<open>r\<close>.
\<close>

datatype 'c accept = Accepted 'c | AcceptFailed go_error

datatype 'c served = Serving "'c list" | Returned "'c list" "go_error option"

fun hand_over :: "'c \<Rightarrow> 'c served \<Rightarrow> 'c served" where
  "hand_over c (Serving cs) = Serving (c # cs)"
| "hand_over c (Returned cs r) = Returned (c # cs) r"

fun TCPClientTunnel_loop ::
  "TCPClientTunnelConfig \<Rightarrow> (bool \<times> 'c accept) list \<Rightarrow> 'c served" where
  "TCPClientTunnel_loop conf [] = Serving []"
| "TCPClientTunnel_loop conf ((flag, AcceptFailed e) # evs) =
     (if closedByUs (conf\<lparr>closed := flag\<rparr>) (Some e) then Returned [] None
      else Returned [] (Some (ErrWrap ''tcp client tunnel: '' e)))"
| "TCPClientTunnel_loop conf ((flag, Accepted c) # evs) = hand_over c (TCPClientTunnel_loop conf evs)"

definition TCPClientTunnel_Serve ::
  "TCPClientTunnelConfig \<Rightarrow> (bool \<times> 'c accept) list \<Rightarrow> 'c served" where
  "TCPClientTunnel_Serve conf evs =
     (if tct_listener conf = None
      then Returned [] (Some (ErrMsg ''tcp client tunnel: Serve called before Bind''))
      else TCPClientTunnel_loop conf evs)"

fun TCPServerTunnel_loop ::
  "TCPServerTunnelConfig \<Rightarrow> (bool \<times> 'c accept) list \<Rightarrow> 'c served" where
  "TCPServerTunnel_loop conf [] = Serving []"
| "TCPServerTunnel_loop conf ((flag, AcceptFailed e) # evs) =
     (if closedByUs (conf\<lparr>closed := flag\<rparr>) (Some e) then Returned [] None
      else Returned [] (Some (ErrWrap ''tcp server tunnel: '' e)))"
| "TCPServerTunnel_loop conf ((flag, Accepted c) # evs) = hand_over c (TCPServerTunnel_loop conf evs)"

definition TCPServerTunnel_Serve ::
  "TCPServerTunnelConfig \<Rightarrow> (bool \<times> 'c accept) list \<Rightarrow> 'c served" where
  "TCPServerTunnel_Serve conf evs =
     (if tst_listener conf = None
      then Returned [] (Some (ErrMsg ''tcp server tunnel: Serve called before Bind''))
      else TCPServerTunnel_loop conf evs)"

fun SNI_loop :: "'re SNIConfig \<Rightarrow> (bool \<times> 'c accept) list \<Rightarrow> 'c served" where
  "SNI_loop conf [] = Serving []"
| "SNI_loop conf ((flag, AcceptFailed e) # evs) =
     (if closedByUs (conf\<lparr>closed := flag\<rparr>) (Some e) then Returned [] None
      else Returned [] (Some (ErrWrap ''sni proxy: '' e)))"
| "SNI_loop conf ((flag, Accepted c) # evs) = hand_over c (SNI_loop conf evs)"

text \<open>\<open>SNIConfig.Serve\<close> builds the router its connections are dialled with.\<close>

definition SNI_router :: "'re SNIConfig \<Rightarrow> 're DomainRouter" where
  "SNI_router config = NewDomainRouter (sni_TunnelDomains config) (sni_LogDomains config)"

definition SNI_Serve :: "'re SNIConfig \<Rightarrow> (bool \<times> 'c accept) list \<Rightarrow> 'c served" where
  "SNI_Serve config evs =
     (if sni_listener config = None
      then Returned [] (Some (ErrMsg ''sni proxy: Serve called before Bind''))
      else SNI_loop config evs)"

subsection \<open>The HTTP proxy\<close>

record CredentialValidator =
  cv_username :: string
  cv_password :: string

text \<open>The \<open>dial\<close> closure of an \<open>HTTPServer\<close> is \<open>RoutedDial\<close> of this router.\<close>

record 're HTTPServer =
  hs_config :: "'re HTTPConfig"
  hs_auth :: CredentialValidator
  hs_router :: "'re DomainRouter"
  hs_authRequired :: bool
  hs_tlsRequired :: bool

definition HTTP_server :: "'re HTTPConfig \<Rightarrow> 're HTTPServer" where
  "HTTP_server config =
     \<lparr>hs_config = config,
      hs_auth = \<lparr>cv_username = http_Username config, cv_password = http_Password config\<rparr>,
      hs_router = NewDomainRouter (http_TunnelDomains config) (http_LogDomains config),
      hs_authRequired = (http_Username config \<noteq> [] \<or> http_Password config \<noteq> []),
      hs_tlsRequired = False\<rparr>"

text \<open>\<open>HTTPServer.Serve\<close> has no shutdown intent to consult.\<close>

fun HTTPServer_Serve :: "'c accept list \<Rightarrow> 'c served" where
  "HTTPServer_Serve [] = Serving []"
| "HTTPServer_Serve (AcceptFailed e # evs) =
     (if errors_Is_ErrClosed e then Returned [] None
      else Returned [] (Some (ErrWrap ''accept request failed: '' e)))"
| "HTTPServer_Serve (Accepted c # evs) = hand_over c (HTTPServer_Serve evs)"

text \<open>
  \<open>HTTPConfig.Serve\<close> looks at the flag after \<open>HTTPServer.Serve\<close> has returned: at the outcome that
  ended the loop.
\<close>

fun stop_flag :: "(bool \<times> 'c accept) list \<Rightarrow> bool" where
  "stop_flag [] = False"
| "stop_flag ((flag, AcceptFailed e) # evs) = flag"
| "stop_flag ((flag, Accepted c) # evs) = stop_flag evs"

definition HTTP_loop :: "'re HTTPConfig \<Rightarrow> (bool \<times> 'c accept) list \<Rightarrow> 'c served" where
  "HTTP_loop config evs =
     (case HTTPServer_Serve (map snd evs) of
        Serving cs \<Rightarrow> Serving cs
      | Returned cs None \<Rightarrow> Returned cs None
      | Returned cs (Some e) \<Rightarrow>
          if closedByUs (config\<lparr>closed := stop_flag evs\<rparr>) (Some e) then Returned cs None
          else Returned cs (Some (ErrWrap ''http proxy: '' e)))"

definition HTTP_Serve :: "'re HTTPConfig \<Rightarrow> (bool \<times> 'c accept) list \<Rightarrow> 'c served" where
  "HTTP_Serve config evs =
     (if http_listener config = None
      then Returned [] (Some (ErrMsg ''http proxy: Serve called before Bind''))
      else HTTP_loop config evs)"

subsection \<open>The SOCKS5 proxy\<close>

datatype socks_auth = UserPassAuthenticator string string | NoAuthAuthenticator

datatype 're socks_dial = DialTunnel | DialRouted "'re DomainRouter"

datatype socks_resolver = ResolveTunnel | ResolvePassthrough

record 're socks_options =
  so_auth :: "socks_auth list"
  so_bufferSize :: int
  so_dial :: "'re socks_dial"
  so_resolver :: socks_resolver

text \<open>The options \<open>Socks5Config.Serve\<close> hands to \<open>socks5.NewServer\<close>.\<close>

definition Socks5_options :: "'re Socks5Config \<Rightarrow> 're socks_options" where
  "Socks5_options config =
     \<lparr>so_auth = (if s5_Username config \<noteq> []
                 then [UserPassAuthenticator (s5_Username config) (s5_Password config)]
                 else [NoAuthAuthenticator]),
      so_bufferSize = 256 * 1024,
      so_dial = (if s5_TunnelDomains config = [] \<and> \<not> s5_LogDomains config then DialTunnel
                 else DialRouted (NewDomainRouter (s5_TunnelDomains config) (s5_LogDomains config))),
      so_resolver = (if s5_TunnelDomains config = [] \<and> \<not> s5_LogDomains config then ResolveTunnel
                     else ResolvePassthrough)\<rparr>"

text \<open>
  The server of the \<open>go-socks5\<close> package is the parameter \<open>srv\<close>: given its options and the outcomes of
  its listener it is still serving or has returned.
\<close>

definition Socks5_loop ::
  "('re socks_options \<Rightarrow> 'c accept list \<Rightarrow> 'c served) \<Rightarrow> 're Socks5Config \<Rightarrow>
     (bool \<times> 'c accept) list \<Rightarrow> 'c served" where
  "Socks5_loop srv config evs =
     (case srv (Socks5_options config) (map snd evs) of
        Serving cs \<Rightarrow> Serving cs
      | Returned cs None \<Rightarrow> Returned cs None
      | Returned cs (Some e) \<Rightarrow>
          if closedByUs (config\<lparr>closed := stop_flag evs\<rparr>) (Some e) then Returned cs None
          else Returned cs (Some (ErrWrap ''socks5: '' e)))"

definition Socks5_Serve ::
  "('re socks_options \<Rightarrow> 'c accept list \<Rightarrow> 'c served) \<Rightarrow> 're Socks5Config \<Rightarrow>
     (bool \<times> 'c accept) list \<Rightarrow> 'c served" where
  "Socks5_Serve srv config evs =
     (if s5_listener config = None
      then Returned [] (Some (ErrMsg ''socks5: Serve called before Bind''))
      else Socks5_loop srv config evs)"

subsection \<open>The stdio tunnel\<close>

text \<open>Returns at once; the forwarding goroutine it starts is given by the remote address.\<close>

definition STDIOTunnel_Serve :: "STDIOTunnelConfig \<Rightarrow> addressPort served" where
  "STDIOTunnel_Serve conf =
     (case sio_raddr conf of
        None \<Rightarrow> Returned [] (Some (ErrMsg ''stdio tunnel: Serve called before Bind''))
      | Some raddr \<Rightarrow> Returned [raddr] None)"

section \<open>The accept-loop contract\<close>

locale accept_server =
  fixes serve :: "(bool \<times> 'c accept) list \<Rightarrow> 'c served"
    and fault :: "go_error \<Rightarrow> go_error"
  assumes serve_Nil: "serve [] = Serving []"
    and serve_Accepted: "serve ((flag, Accepted c) # evs) = hand_over c (serve evs)"
    and serve_Failed: "serve ((flag, AcceptFailed e) # evs) =
      Returned [] (if flag \<or> errors_Is_ErrClosed e then None else Some (fault e))"
begin

lemma serve_prefix:
  "serve (map (\<lambda>(f, c). (f, Accepted c)) cs @ (flag, AcceptFailed e) # evs) =
     Returned (map snd cs) (if flag \<or> errors_Is_ErrClosed e then None else Some (fault e))"
  by (induction cs) (auto simp: serve_Accepted serve_Failed)

lemma serve_running:
  "serve (map (\<lambda>(f, c). (f, Accepted c)) cs) = Serving (map snd cs)"
  by (induction cs) (auto simp: serve_Accepted serve_Nil)

lemma clean_stop:
  "serve (map (\<lambda>(f, c). (f, Accepted c)) cs @ (True, AcceptFailed e) # evs) = Returned (map snd cs) None"
  by (simp add: serve_prefix)

lemma error_only_from_fault:
  "serve evs = Returned cs (Some err) \<Longrightarrow>
     \<exists>e. (False, AcceptFailed e) \<in> set evs \<and> \<not> errors_Is_ErrClosed e \<and> err = fault e"
proof (induction evs arbitrary: cs)
  case (Cons ev evs)
  obtain flag a where ev: "ev = (flag, a)" by (cases ev)
  show ?case
  proof (cases a)
    case (Accepted c)
    with Cons.prems ev obtain cs' where "serve evs = Returned cs' (Some err)"
      by (cases "serve evs") (auto simp: serve_Accepted)
    with Cons.IH show ?thesis by fastforce
  next
    case (AcceptFailed e)
    with Cons.prems ev show ?thesis
      by (auto simp: serve_Failed split: if_splits)
  qed
qed (simp add: serve_Nil)

end

end
