(* ===== verification/Spawner.thy ===== *)
theory Spawner
  imports Lifecycle
begin

text \<open>
  The contract of the \<open>RoutineSpawner\<close> interface as a locale, interpreted for every routine that
  accepts connections: binding, serving and closing in any order behave as the interface's comments
  promise.  The UDP proxy's \<open>Close\<close> is shown to break one clause of it.
\<close>

section \<open>Accept loops of the program\<close>

lemma closedByUs_Some [simp]:
  "closedByUs (c\<lparr>closed := flag\<rparr>) (Some e) \<longleftrightarrow> flag \<or> errors_Is_ErrClosed e"
  by (simp add: closedByUs_def stopping_def)

interpretation tct: accept_server "TCPClientTunnel_loop conf" "ErrWrap ''tcp client tunnel: ''" for conf
  by unfold_locales simp_all

interpretation tst: accept_server "TCPServerTunnel_loop conf" "ErrWrap ''tcp server tunnel: ''" for conf
  by unfold_locales simp_all

interpretation sni: accept_server "SNI_loop conf" "ErrWrap ''sni proxy: ''" for conf
  by unfold_locales simp_all

interpretation http: accept_server "HTTP_loop conf"
  "\<lambda>e. ErrWrap ''http proxy: '' (ErrWrap ''accept request failed: '' e)" for conf
proof
  fix flag c evs
  show "HTTP_loop conf ((flag, Accepted c) # evs) = hand_over c (HTTP_loop conf evs)"
    by (cases "HTTPServer_Serve (map snd evs)")
      (auto simp: HTTP_loop_def split: option.split)
qed (simp_all add: HTTP_loop_def)

text \<open>
  The documented behaviour of \<open>Serve\<close> of the SOCKS5 package: it accepts, starts a goroutine per
  connection, and returns the error of a failed accept.
\<close>

definition serves_listener :: "('c accept list \<Rightarrow> 'c served) \<Rightarrow> bool" where
  "serves_listener srv \<longleftrightarrow> srv [] = Serving [] \<and>
     (\<forall>c evs. srv (Accepted c # evs) = hand_over c (srv evs)) \<and>
     (\<forall>e evs. srv (AcceptFailed e # evs) = Returned [] (Some e))"

fun plain_server :: "'c accept list \<Rightarrow> 'c served" where
  "plain_server [] = Serving []"
| "plain_server (Accepted c # evs) = hand_over c (plain_server evs)"
| "plain_server (AcceptFailed e # evs) = Returned [] (Some e)"

lemma plain_server_ok: "serves_listener plain_server"
  by (simp add: serves_listener_def)

lemma Socks5_accept_server:
  assumes "serves_listener (srv (Socks5_options conf))"
  shows "accept_server (Socks5_loop srv conf) (ErrWrap ''socks5: '')"
proof
  fix flag c evs
  show "Socks5_loop srv conf ((flag, Accepted c) # evs) = hand_over c (Socks5_loop srv conf evs)"
    using assms by (cases "srv (Socks5_options conf) (map snd evs)")
      (auto simp: Socks5_loop_def serves_listener_def split: option.split)
qed (use assms in \<open>simp_all add: Socks5_loop_def serves_listener_def\<close>)

section \<open>The RoutineSpawner contract\<close>

text \<open>
  What the interface's comments promise of \<open>Close\<close> on a routine whose listener is \<open>h\<close>: the intent to stop
  is recorded and the listener kept; the error is the listener's, with the complaint that it is closed
  already taken as success; a second call, in whatever environment \<open>K'\<close> it runs, changes nothing, and
  when closing the closed listener reports \<open>net.ErrClosed\<close>, as the \<open>net\<close> package documents, it
  returns nil.
\<close>

definition closing_contract ::
  "(close_env \<Rightarrow> 'r \<Rightarrow> 'r \<times> close_outcome) \<Rightarrow> ('r \<Rightarrow> handle option) \<Rightarrow> ('r \<Rightarrow> bool) \<Rightarrow> 'r \<Rightarrow> bool" where
  "closing_contract close lsn stopped r \<longleftrightarrow> (\<forall>K K'.
     stopped (fst (close K r)) \<and> lsn (fst (close K r)) = lsn r \<and>
     fst (close K' (fst (close K r))) = fst (close K r) \<and>
     (\<forall>h. lsn r = Some h \<longrightarrow> snd (close K r) = CloseReturns (case handle_Close K h of None \<Rightarrow> None
        | Some e \<Rightarrow> if errors_Is_ErrClosed e then None else Some e)) \<and>
     (\<forall>h e. lsn r = Some h \<and> handle_Close K' h = Some e \<and> errors_Is_ErrClosed e \<longrightarrow>
        snd (close K' (fst (close K r))) = CloseReturns None))"

locale closing_routine =
  fixes close :: "close_env \<Rightarrow> 'r \<Rightarrow> 'r \<times> close_outcome"
    and lsn :: "'r \<Rightarrow> handle option"
    and stopped :: "'r \<Rightarrow> bool"
  assumes close_marks: "stopped (fst (close K r)) \<and> lsn (fst (close K r)) = lsn r"
    and close_again: "fst (close K' (fst (close K r))) = fst (close K r)"
    and close_bound: "lsn r = Some h \<Longrightarrow> snd (close K r) = CloseReturns (tolerate_closed (handle_Close K h))"
begin

lemma close_twice:
  assumes "lsn r = Some h" and "handle_Close K' h = Some e" and "errors_Is_ErrClosed e"
  shows "snd (close K' (fst (close K r))) = CloseReturns None"
  using close_bound [of "fst (close K r)" h K'] close_marks [of K r] assms by (simp add: tolerate_closed_def)

lemma contract: "closing_contract close lsn stopped r"
  unfolding closing_contract_def using close_marks close_again close_bound close_twice
  by (auto simp: tolerate_closed_def)

end

locale routine_spawner = closing_routine close lsn stopped
  for close :: "close_env \<Rightarrow> 'r \<Rightarrow> 'r \<times> close_outcome" and lsn :: "'r \<Rightarrow> handle option" and stopped :: "'r \<Rightarrow> bool" +
  fixes bind :: "'r \<Rightarrow> go_error option \<times> 'r"
    and serve :: "'r \<Rightarrow> (bool \<times> 'c accept) list \<Rightarrow> 'c served"
    and fault :: "go_error \<Rightarrow> go_error"
  assumes bind_ok: "bind r = (None, r') \<Longrightarrow> lsn r' \<noteq> None \<and> stopped r' = stopped r"
    and serve_unbound: "lsn r = None \<Longrightarrow> \<exists>m. serve r evs = Returned [] (Some (ErrMsg m))"
    and serve_bound: "lsn r \<noteq> None \<Longrightarrow> accept_server (serve r) fault"
    and close_unbound: "lsn r = None \<Longrightarrow> snd (close K r) = CloseReturns None"
begin

lemma serves_after_bind:
  assumes "bind r = (None, r')"
  shows "serve r' (map (\<lambda>(f, c). (f, Accepted c)) cs) = Serving (map snd cs) \<and>
    serve r' (map (\<lambda>(f, c). (f, Accepted c)) cs @ (flag, AcceptFailed e) # evs) =
      Returned (map snd cs) (if flag \<or> errors_Is_ErrClosed e then None else Some (fault e))"
proof -
  have "lsn r' \<noteq> None" using bind_ok [OF assms] ..
  then show ?thesis
    using accept_server.serve_prefix accept_server.serve_running serve_bound by blast
qed

lemma close_any:
  "closing_contract close lsn stopped r \<and>
   (lsn r = None \<longrightarrow> snd (close K r) = CloseReturns None \<and> (\<exists>m. serve r evs = Returned [] (Some (ErrMsg m))))"
  using contract [of r] serve_unbound [of r evs] close_unbound [of r K] by blast

end

text \<open>On a bound routine \<open>Serve\<close> is its loop.\<close>

lemma Serve_bound:
  "tct_listener t \<noteq> None \<Longrightarrow> TCPClientTunnel_Serve t = TCPClientTunnel_loop t"
  "tst_listener u \<noteq> None \<Longrightarrow> TCPServerTunnel_Serve u = TCPServerTunnel_loop u"
  "sni_listener n \<noteq> None \<Longrightarrow> SNI_Serve n = SNI_loop n"
  "http_listener h \<noteq> None \<Longrightarrow> HTTP_Serve h = HTTP_loop h"
  "s5_listener c \<noteq> None \<Longrightarrow> Socks5_Serve srv c = Socks5_loop srv c"
  by (auto simp: fun_eq_iff TCPClientTunnel_Serve_def TCPServerTunnel_Serve_def SNI_Serve_def
      HTTP_Serve_def Socks5_Serve_def)

lemma markClosed_simps [simp]:
  "closed (markClosed c)" "markClosed (markClosed c) = markClosed c"
  by (simp_all add: markClosed_def)

lemma markClosed_listeners [simp]:
  "s5_listener (markClosed s5) = s5_listener s5"
  "http_listener (markClosed h) = http_listener h"
  "sni_listener (markClosed n) = sni_listener n"
  "tct_listener (markClosed t) = tct_listener t"
  "tst_listener (markClosed u) = tst_listener u"
  by (simp_all add: markClosed_def)

lemmas close_defs = Socks5_Close_def HTTP_Close_def SNI_Close_def TCPClientTunnel_Close_def
  TCPServerTunnel_Close_def iface_closer_def

lemma close_simps [simp]: "closeListener K (iface_closer None) = CloseReturns None"
  by (simp add: iface_closer_def)

lemma Serve_accepts:
  "tct_listener t \<noteq> None \<Longrightarrow> accept_server (TCPClientTunnel_Serve t) (ErrWrap ''tcp client tunnel: '')"
  "tst_listener u \<noteq> None \<Longrightarrow> accept_server (TCPServerTunnel_Serve u) (ErrWrap ''tcp server tunnel: '')"
  "sni_listener n \<noteq> None \<Longrightarrow> accept_server (SNI_Serve n) (ErrWrap ''sni proxy: '')"
  "http_listener h \<noteq> None \<Longrightarrow> accept_server (HTTP_Serve h)
     (\<lambda>e. ErrWrap ''http proxy: '' (ErrWrap ''accept request failed: '' e))"
  "s5_listener c \<noteq> None \<Longrightarrow> serves_listener (srv (Socks5_options c)) \<Longrightarrow>
     accept_server (Socks5_Serve srv c) (ErrWrap ''socks5: '')"
  by (simp_all only: Serve_bound tct.accept_server_axioms tst.accept_server_axioms
      sni.accept_server_axioms http.accept_server_axioms Socks5_accept_server not_False_eq_True)

text \<open>The laws of \<open>Close\<close>, for every routine that has a listener.\<close>

lemma markClosed_udp [simp]:
  "upt_listener (markClosed p) = upt_listener p" "ust_listener (markClosed q) = ust_listener q"
  "upt_done (markClosed p) = upt_done p" "ust_done (markClosed q) = ust_done q"
  "markClosed ((markClosed p)\<lparr>upt_done := d\<rparr>) = (markClosed p)\<lparr>upt_done := d\<rparr>"
  "markClosed ((markClosed q)\<lparr>ust_done := d\<rparr>) = (markClosed q)\<lparr>ust_done := d\<rparr>"
  by (simp_all add: markClosed_def)

lemma close_done_again [simp]: "close_done (close_done d) = close_done d"
  by (cases d) (simp_all add: close_done_def)

interpretation tct_closing: closing_routine TCPClientTunnel_Close tct_listener stopping
  by unfold_locales (auto simp: close_defs stopping_def)

interpretation tst_closing: closing_routine TCPServerTunnel_Close tst_listener stopping
  by unfold_locales (auto simp: close_defs stopping_def)

interpretation sni_closing: closing_routine SNI_Close sni_listener stopping
  by unfold_locales (auto simp: close_defs stopping_def)

interpretation http_closing: closing_routine HTTP_Close http_listener stopping
  by unfold_locales (auto simp: close_defs stopping_def)

interpretation socks5_closing: closing_routine Socks5_Close s5_listener stopping
  by unfold_locales (auto simp: close_defs stopping_def)

interpretation upt_closing: closing_routine UDPProxyTunnel_Close upt_listener stopping
  by unfold_locales (auto simp: UDPProxyTunnel_Close_def udpconn_closer_def stopping_def)

interpretation ust_closing: closing_routine UDPServerTunnel_Close ust_listener stopping
  by unfold_locales (auto simp: UDPServerTunnel_Close_def iface_closer_def stopping_def)

interpretation tct_spawner: routine_spawner TCPClientTunnel_Close tct_listener stopping "TCPClientTunnel_Bind N"
  TCPClientTunnel_Serve "ErrWrap ''tcp client tunnel: ''" for N
  by (rule routine_spawner.intro [OF tct_closing.closing_routine_axioms routine_spawner_axioms.intro],
    simp_all only: Serve_accepts not_False_eq_True)
    (auto simp: TCPClientTunnel_Bind_def TCPClientTunnel_Serve_def TCPClientTunnel_Close_def
      stopping_def Let_def split: sum.splits)

interpretation tst_spawner: routine_spawner TCPServerTunnel_Close tst_listener stopping "TCPServerTunnel_Bind N"
  TCPServerTunnel_Serve "ErrWrap ''tcp server tunnel: ''" for N
  by (rule routine_spawner.intro [OF tst_closing.closing_routine_axioms routine_spawner_axioms.intro],
    simp_all only: Serve_accepts not_False_eq_True)
    (auto simp: TCPServerTunnel_Bind_def TCPServerTunnel_Serve_def TCPServerTunnel_Close_def
      stopping_def Let_def split: sum.splits)

interpretation sni_spawner: routine_spawner SNI_Close sni_listener stopping "SNI_Bind N" SNI_Serve
  "ErrWrap ''sni proxy: ''" for N
  by (rule routine_spawner.intro [OF sni_closing.closing_routine_axioms routine_spawner_axioms.intro],
    simp_all only: Serve_accepts not_False_eq_True)
    (auto simp: SNI_Bind_def SNI_Serve_def SNI_Close_def stopping_def split: sum.splits)

interpretation http_spawner: routine_spawner HTTP_Close http_listener stopping "HTTP_Bind N" HTTP_Serve
  "\<lambda>e. ErrWrap ''http proxy: '' (ErrWrap ''accept request failed: '' e)" for N
  by (rule routine_spawner.intro [OF http_closing.closing_routine_axioms routine_spawner_axioms.intro],
    simp_all only: Serve_accepts not_False_eq_True)
    (auto simp: HTTP_Bind_def HTTP_Serve_def HTTP_Close_def stopping_def split: sum.splits if_splits)

lemma Socks5_routine_spawner:
  assumes "\<And>opts. serves_listener (srv opts)"
  shows "routine_spawner Socks5_Close s5_listener stopping (Socks5_Bind N) (Socks5_Serve srv) (ErrWrap ''socks5: '')"
  by (rule routine_spawner.intro [OF socks5_closing.closing_routine_axioms routine_spawner_axioms.intro],
    simp_all only: Serve_accepts assms not_False_eq_True)
    (auto simp: Socks5_Bind_def Socks5_Serve_def Socks5_Close_def stopping_def split: sum.splits)

interpretation socks5_spawner: routine_spawner Socks5_Close s5_listener stopping "Socks5_Bind N"
  "Socks5_Serve (\<lambda>_. plain_server)" "ErrWrap ''socks5: ''" for N
  by (rule Socks5_routine_spawner) (rule plain_server_ok)

section \<open>Properties of the accepting routines\<close>

text \<open>What the listener did: connections accepted in turn, each with the value of the flag then.\<close>

definition accepted :: "(bool \<times> 'c) list \<Rightarrow> (bool \<times> 'c accept) list" where
  "accepted cs = map (\<lambda>(f, c). (f, Accepted c)) cs"

lemmas spawner_serves = tct_spawner.serves_after_bind tst_spawner.serves_after_bind
  sni_spawner.serves_after_bind http_spawner.serves_after_bind
  routine_spawner.serves_after_bind [OF Socks5_routine_spawner]

text \<open>
  C11: Once \<open>Bind\<close> has succeeded, \<open>Serve\<close> of each accepting routine hands over every accepted
  connection in order and goes on serving; at the first failed accept it returns, with nil exactly
  when the stop was asked for or the listener was closed, and otherwise with the listener's error
  wrapped in the routine's prefix.
\<close>

theorem serve_after_bind:
  fixes cs :: "(bool \<times> 'c) list"
  defines "stop \<equiv> \<lambda>flag e fault :: go_error. Returned (map snd cs)
    (if flag \<or> errors_Is_ErrClosed e then None else Some fault)"
  assumes "\<And>opts. serves_listener (srv opts)"
  shows "(TCPClientTunnel_Bind N t = (None, t') \<longrightarrow>
      TCPClientTunnel_Serve t' (accepted cs) = Serving (map snd cs) \<and>
      TCPClientTunnel_Serve t' (accepted cs @ (flag, AcceptFailed e) # evs) =
        stop flag e (ErrWrap ''tcp client tunnel: '' e)) \<and>
    (TCPServerTunnel_Bind N u = (None, u') \<longrightarrow>
      TCPServerTunnel_Serve u' (accepted cs) = Serving (map snd cs) \<and>
      TCPServerTunnel_Serve u' (accepted cs @ (flag, AcceptFailed e) # evs) =
        stop flag e (ErrWrap ''tcp server tunnel: '' e)) \<and>
    (SNI_Bind N n = (None, n') \<longrightarrow>
      SNI_Serve n' (accepted cs) = Serving (map snd cs) \<and>
      SNI_Serve n' (accepted cs @ (flag, AcceptFailed e) # evs) =
        stop flag e (ErrWrap ''sni proxy: '' e)) \<and>
    (HTTP_Bind N h = (None, h') \<longrightarrow>
      HTTP_Serve h' (accepted cs) = Serving (map snd cs) \<and>
      HTTP_Serve h' (accepted cs @ (flag, AcceptFailed e) # evs) =
        stop flag e (ErrWrap ''http proxy: '' (ErrWrap ''accept request failed: '' e))) \<and>
    (Socks5_Bind N s = (None, s') \<longrightarrow>
      Socks5_Serve srv s' (accepted cs) = Serving (map snd cs) \<and>
      Socks5_Serve srv s' (accepted cs @ (flag, AcceptFailed e) # evs) =
        stop flag e (ErrWrap ''socks5: '' e))"
  unfolding accepted_def stop_def
  by (intro conjI impI spawner_serves assms(2))

text \<open>A network on which everything can be bound, and two configurations.\<close>

definition demo_net :: net_env where
  "demo_net = \<lparr>net_Listen = (\<lambda>_ _. Inr 3), tls_LoadX509KeyPair = (\<lambda>_ _. Inr 1), tls_Listen = (\<lambda>_ _ _. Inr 4),
     net_ListenTCP = (\<lambda>_. Inr 5), tnet_ListenTCP = (\<lambda>_. Inr 6), net_ResolveUDPAddr = (\<lambda>s. Inr s),
     net_ListenUDP = (\<lambda>_. Inr 7), tnet_ListenUDP = (\<lambda>_. Inr 8)\<rparr>"

definition demo_tst :: TCPServerTunnelConfig where
  "demo_tst = \<lparr>closed = False, tst_ListenPort = 3422, tst_Target = ''localhost:25545'',
     tst_listener = None, tst_raddr = None\<rparr>"

definition demo_http :: "nat HTTPConfig" where
  "demo_http = \<lparr>closed = False, http_BindAddress = ''127.0.0.1:8443'', http_Username = [], http_Password = [],
     http_CertFile = ''cert.pem'', http_KeyFile = ''key.pem'', http_TunnelDomains = [], http_LogDomains = False,
     http_listener = None\<rparr>"

theorem serve_after_bind_witness:
  "fst (TCPServerTunnel_Bind demo_net demo_tst) = None \<and>
   TCPServerTunnel_Serve (snd (TCPServerTunnel_Bind demo_net demo_tst))
     (accepted [(False, ''a''), (False, ''b'')] @ [(False, AcceptFailed (ErrMsg ''accept''))]) =
     Returned [''a'', ''b''] (Some (ErrWrap ''tcp server tunnel: '' (ErrMsg ''accept''))) \<and>
   TCPServerTunnel_Serve (snd (TCPServerTunnel_Bind demo_net demo_tst))
     (accepted [(False, ''a''), (False, ''b'')]) = Serving [''a'', ''b'']"
proof -
  have b: "TCPServerTunnel_Bind demo_net demo_tst = (None, snd (TCPServerTunnel_Bind demo_net demo_tst))"
    by code_simp
  note spec = serve_after_bind [where srv = "\<lambda>_. plain_server" and N = demo_net and u = demo_tst
      and u' = "snd (TCPServerTunnel_Bind demo_net demo_tst)" and cs = "[(False, ''a''), (False, ''b'')]"
      and flag = False and e = "ErrMsg ''accept''" and evs = "[]", OF plain_server_ok,
      THEN conjunct2, THEN conjunct1, THEN mp, OF b]
  moreover have "fst (TCPServerTunnel_Bind demo_net demo_tst) = None" by (subst b) simp
  ultimately show ?thesis by simp
qed

text \<open>
  C24: \<open>Close\<close> keeps the contract of the interface, for every routine that has a listener: it records the
  intent to stop, leaves the listener in place and returns the listener's error, except that a listener
  which is already closed counts as success; a second \<open>Close\<close> changes nothing and, with the closed
  listener reporting \<open>net.ErrClosed\<close>, is not an error.  On a routine that was never bound (the five
  accepting ones) \<open>Close\<close> returns nil and \<open>Serve\<close> returns an error at once without accepting.
\<close>

theorem close_contract:
  "closing_contract TCPClientTunnel_Close tct_listener stopping t \<and>
   closing_contract TCPServerTunnel_Close tst_listener stopping u \<and>
   closing_contract SNI_Close sni_listener stopping n \<and>
   closing_contract HTTP_Close http_listener stopping h \<and>
   closing_contract Socks5_Close s5_listener stopping s \<and>
   closing_contract UDPProxyTunnel_Close upt_listener stopping p \<and>
   closing_contract UDPServerTunnel_Close ust_listener stopping q \<and>
   (tct_listener t = None \<longrightarrow> snd (TCPClientTunnel_Close K t) = CloseReturns None \<and>
      (\<exists>m. TCPClientTunnel_Serve t evs = Returned [] (Some (ErrMsg m)))) \<and>
   (tst_listener u = None \<longrightarrow> snd (TCPServerTunnel_Close K u) = CloseReturns None \<and>
      (\<exists>m. TCPServerTunnel_Serve u evs = Returned [] (Some (ErrMsg m)))) \<and>
   (sni_listener n = None \<longrightarrow> snd (SNI_Close K n) = CloseReturns None \<and>
      (\<exists>m. SNI_Serve n evs = Returned [] (Some (ErrMsg m)))) \<and>
   (http_listener h = None \<longrightarrow> snd (HTTP_Close K h) = CloseReturns None \<and>
      (\<exists>m. HTTP_Serve h evs = Returned [] (Some (ErrMsg m)))) \<and>
   (s5_listener s = None \<longrightarrow> snd (Socks5_Close K s) = CloseReturns None \<and>
      (\<exists>m. Socks5_Serve (\<lambda>_. plain_server) s evs = Returned [] (Some (ErrMsg m))))"
  using tct_spawner.close_any [where r = t and K = K and evs = evs]
    tst_spawner.close_any [where r = u and K = K and evs = evs]
    sni_spawner.close_any [where r = n and K = K and evs = evs]
    http_spawner.close_any [where r = h and K = K and evs = evs]
    socks5_spawner.close_any [where r = s and K = K and evs = evs]
    upt_closing.contract [of p] ust_closing.contract [of q]
  by simp

definition closed_env :: close_env where
  "closed_env = \<lparr>handle_Close = (\<lambda>_. Some (ErrWrap ''close tcp: '' ErrClosed)), nil_UDPConn_Close = ClosePanics\<rparr>"

definition busy_env :: close_env where
  "busy_env = \<lparr>handle_Close = (\<lambda>_. Some (ErrMsg ''busy'')), nil_UDPConn_Close = ClosePanics\<rparr>"

theorem close_contract_witness:
  "snd (TCPServerTunnel_Close busy_env (demo_tst\<lparr>tst_listener := Some 6\<rparr>)) = CloseReturns (Some (ErrMsg ''busy'')) \<and>
   snd (TCPServerTunnel_Close closed_env (fst (TCPServerTunnel_Close busy_env (demo_tst\<lparr>tst_listener := Some 6\<rparr>)))) =
     CloseReturns None \<and>
   snd (TCPServerTunnel_Close busy_env demo_tst) = CloseReturns None"
proof -
  let ?b = "demo_tst\<lparr>tst_listener := Some 6\<rparr>"
  have "closing_contract TCPServerTunnel_Close tst_listener stopping ?b"
    using close_contract [where u = ?b] by blast
  from this [unfolded closing_contract_def, rule_format, of busy_env closed_env]
  have "snd (TCPServerTunnel_Close busy_env ?b) = CloseReturns (Some (ErrMsg ''busy''))"
    and "snd (TCPServerTunnel_Close closed_env (fst (TCPServerTunnel_Close busy_env ?b))) = CloseReturns None"
    by (simp_all add: busy_env_def closed_env_def)
  moreover have "tst_listener demo_tst = None" by (simp add: demo_tst_def)
  ultimately show ?thesis using close_contract [where u = demo_tst and K = busy_env] by blast
qed

text \<open>
  \<open>UDPProxyTunnelConfig.Close\<close> on a routine that was never bound does not see a nil closer: its
  listener field is a nil \<open>*net.UDPConn\<close>, which is a non-nil \<open>io.Closer\<close>.  It returns nil only if
  closing that nil pointer returns nil or \<open>net.ErrClosed\<close>; the UDP server tunnel, whose listener is
  an interface, returns nil.
\<close>

theorem udp_close_unbound:
  assumes "upt_listener p = None" and "ust_listener q = None"
  shows "(snd (UDPProxyTunnel_Close K p) = CloseReturns None \<longleftrightarrow>
      (\<exists>r. nil_UDPConn_Close K = CloseReturns r \<and> (\<forall>e. r = Some e \<longrightarrow> errors_Is_ErrClosed e))) \<and>
    snd (UDPServerTunnel_Close K q) = CloseReturns None"
  using assms
  by (auto simp: UDPProxyTunnel_Close_def UDPServerTunnel_Close_def udpconn_closer_def iface_closer_def
      tolerate_closed_def split: close_outcome.splits option.splits)

theorem udp_close_unbound_witness:
  "snd (UDPProxyTunnel_Close
      \<lparr>handle_Close = (\<lambda>_. None), nil_UDPConn_Close = CloseReturns (Some (ErrMsg ''invalid argument''))\<rparr>
      \<lparr>closed = False, upt_BindAddress = ''127.0.0.1:0'', upt_Target = ''a:1'', upt_InactivityTimeout = 0,
       upt_listener = None, upt_done = None\<rparr>) \<noteq> CloseReturns None"
  using udp_close_unbound [of "\<lparr>closed = False, upt_BindAddress = ''127.0.0.1:0'', upt_Target = ''a:1'',
       upt_InactivityTimeout = 0, upt_listener = None, upt_done = None\<rparr>"
      "\<lparr>closed = False, ust_ListenPort = 1, ust_Target = [], ust_InactivityTimeout = 0, ust_listener = None,
       ust_targetAddr = None, ust_done = None\<rparr>"
      "\<lparr>handle_Close = (\<lambda>_. None), nil_UDPConn_Close = CloseReturns (Some (ErrMsg ''invalid argument''))\<rparr>"]
  by simp

text \<open>
  An HTTP proxy with a certificate and a key is never bound in cleartext: what \<open>Bind\<close> does is the
  same whatever the plain listener does, and it fails when the certificate cannot be loaded.  With
  either file missing from the configuration, TLS is not used at all.
\<close>

theorem HTTP_Bind_no_downgrade:
  "(http_CertFile c \<noteq> [] \<and> http_KeyFile c \<noteq> [] \<longrightarrow>
      HTTP_Bind (N\<lparr>net_Listen := plain\<rparr>) c = HTTP_Bind N c \<and>
      (tls_LoadX509KeyPair N (http_CertFile c) (http_KeyFile c) = Inl e \<longrightarrow> fst (HTTP_Bind N c) \<noteq> None)) \<and>
   (http_CertFile c = [] \<or> http_KeyFile c = [] \<longrightarrow>
      HTTP_Bind (N\<lparr>tls_Listen := tls, tls_LoadX509KeyPair := load\<rparr>) c = HTTP_Bind N c)"
  by (auto simp: HTTP_Bind_def split: sum.split)

theorem HTTP_Bind_no_downgrade_witness:
  "http_listener (snd (HTTP_Bind (demo_net\<lparr>net_Listen := (\<lambda>_ _. Inr 99)\<rparr>) demo_http)) = Some 4"
proof -
  have "HTTP_Bind (demo_net\<lparr>net_Listen := (\<lambda>_ _. Inr 99)\<rparr>) demo_http = HTTP_Bind demo_net demo_http"
    using HTTP_Bind_no_downgrade [where c = demo_http and N = demo_net and plain = "\<lambda>_ _. Inr 99"] by (simp add: demo_http_def)
  moreover have "http_listener (snd (HTTP_Bind demo_net demo_http)) = Some 4" by code_simp
  ultimately show ?thesis by simp
qed

section \<open>The interface dispatched\<close>

text \<open>A call through the interface value.\<close>

fun routine_Bind :: "net_env \<Rightarrow> 're routine \<Rightarrow> go_error option \<times> 're routine" where
  "routine_Bind N (TCPClientTunnel c) = map_prod id TCPClientTunnel (TCPClientTunnel_Bind N c)"
| "routine_Bind N (STDIOTunnel c) = map_prod id STDIOTunnel (STDIOTunnel_Bind c)"
| "routine_Bind N (TCPServerTunnel c) = map_prod id TCPServerTunnel (TCPServerTunnel_Bind N c)"
| "routine_Bind N (Socks5 c) = map_prod id Socks5 (Socks5_Bind N c)"
| "routine_Bind N (HTTP c) = map_prod id HTTP (HTTP_Bind N c)"
| "routine_Bind N (SNI c) = map_prod id SNI (SNI_Bind N c)"
| "routine_Bind N (UDPServerTunnel c) = map_prod id UDPServerTunnel (UDPServerTunnel_Bind N c)"
| "routine_Bind N (UDPProxyTunnel c) = map_prod id UDPProxyTunnel (UDPProxyTunnel_Bind N c)"

fun routine_Close :: "close_env \<Rightarrow> 're routine \<Rightarrow> 're routine \<times> close_outcome" where
  "routine_Close K (TCPClientTunnel c) = map_prod TCPClientTunnel id (TCPClientTunnel_Close K c)"
| "routine_Close K (STDIOTunnel c) = map_prod STDIOTunnel id (STDIOTunnel_Close c)"
| "routine_Close K (TCPServerTunnel c) = map_prod TCPServerTunnel id (TCPServerTunnel_Close K c)"
| "routine_Close K (Socks5 c) = map_prod Socks5 id (Socks5_Close K c)"
| "routine_Close K (HTTP c) = map_prod HTTP id (HTTP_Close K c)"
| "routine_Close K (SNI c) = map_prod SNI id (SNI_Close K c)"
| "routine_Close K (UDPServerTunnel c) = map_prod UDPServerTunnel id (UDPServerTunnel_Close K c)"
| "routine_Close K (UDPProxyTunnel c) = map_prod UDPProxyTunnel id (UDPProxyTunnel_Close K c)"

end
