(* ===== verification/ClientBind.thy ===== *)
theory ClientBind
  imports Spawner
begin

text \<open>
  \<open>clientbind/clientbind.go\<close>: a \<open>conn.Bind\<close> over one connected UDP socket.  The contract the WireGuard
  device relies on, that a bind can be closed and opened again and is not opened twice, is the locale
  \<open>conn_bind\<close>.
\<close>

section \<open>The contract of a bind\<close>

locale conn_bind =
  fixes openb :: "'b \<Rightarrow> 'p result \<times> 'b"
    and send :: "'b \<Rightarrow> string list \<Rightarrow> go_error option"
    and closeb :: "'b \<Rightarrow> go_error option \<times> 'b"
    and is_open :: "'b \<Rightarrow> bool"
    and dials :: "'b \<Rightarrow> bool"
  assumes open_twice: "is_open b \<Longrightarrow> \<not> is_ok (fst (openb b)) \<and> snd (openb b) = b"
    and open_closed: "\<not> is_open b \<Longrightarrow> is_ok (fst (openb b)) = dials b \<and> is_open (snd (openb b)) = dials b"
    and close_closes: "\<not> is_open (snd (closeb b)) \<and> dials (snd (closeb b)) = dials b"
    and close_closed: "\<not> is_open b \<Longrightarrow> closeb b = (None, b)"
    and send_closed: "\<not> is_open b \<Longrightarrow> send b bufs = Some ErrClosed"
begin

text \<open>The device's \<open>BindUpdate\<close>: close, then open.\<close>

lemma bind_update: "is_ok (fst (openb (snd (closeb b)))) = dials b"
  using open_closed [of "snd (closeb b)"] close_closes [of b] by simp

lemma close_idempotent: "closeb (snd (closeb b)) = (None, snd (closeb b))"
  using close_closes [of b] close_closed by blast

lemma send_after_close: "send (snd (closeb b)) bufs = Some ErrClosed"
  using close_closes [of b] send_closed by blast

end

section \<open>The model\<close>

record ClientOnlyBind =
  cb_peer :: addr_port
  cb_conn :: "handle option"

record udp_env =
  net_DialUDP :: "string \<Rightarrow> addr_port \<Rightarrow> handle result"
  conn_LocalPort :: "handle \<Rightarrow> int"
  conn_Write :: "handle \<Rightarrow> string \<Rightarrow> go_error option"
  conn_Close :: "handle \<Rightarrow> go_error option"

definition New :: "addr_port \<Rightarrow> ClientOnlyBind result" where
  "New peer =
     (if \<not> AddrPort_IsValid peer then Inl (ErrMsg ''clientbind: invalid peer endpoint'')
      else Inr \<lparr>cb_peer = peer, cb_conn = None\<rparr>)"

definition ErrBindAlreadyOpen :: go_error where
  "ErrBindAlreadyOpen = ErrMsg ''bind is already open''"

definition bind_network :: "addr_port \<Rightarrow> string" where
  "bind_network peer =
     (if Addr_Is6 (fst peer) \<and> \<not> Addr_Is4In6 (fst peer) then ''udp6'' else ''udp4'')"

text \<open>
  The result is the socket the receive function reads from, the endpoint it reports and the local
  port; the port argument is ignored.
\<close>

definition Open ::
  "udp_env \<Rightarrow> ClientOnlyBind \<Rightarrow> 16 word \<Rightarrow> (handle \<times> addr_port \<times> 16 word) result \<times> ClientOnlyBind" where
  "Open U b port =
     (case cb_conn b of
        Some c \<Rightarrow> (Inl ErrBindAlreadyOpen, b)
      | None \<Rightarrow>
          (case net_DialUDP U (bind_network (cb_peer b)) (cb_peer b) of
             Inl e \<Rightarrow> (Inl e, b)
           | Inr c \<Rightarrow> (Inr (c, cb_peer b, of_int (conn_LocalPort U c)), b\<lparr>cb_conn := Some c\<rparr>)))"

text \<open>
  The receive function that \<open>Open\<close> returns: given what \<open>Read\<close> into the first buffer gave, the number of
  packets, and the size and endpoint stored at index 0.
\<close>

definition recv :: "addr_port \<Rightarrow> nat result \<Rightarrow> (nat \<times> nat \<times> addr_port) result" where
  "recv peerEP read = (case read of Inl e \<Rightarrow> Inl e | Inr n \<Rightarrow> Inr (1, n, peerEP))"

text \<open>The buffers written, and the error that stopped the loop.\<close>

fun send_loop :: "udp_env \<Rightarrow> handle \<Rightarrow> string list \<Rightarrow> string list \<times> go_error option" where
  "send_loop U c [] = ([], None)"
| "send_loop U c (p # ps) =
     (case conn_Write U c p of
        Some e \<Rightarrow> ([], Some e)
      | None \<Rightarrow> (case send_loop U c ps of (sent, r) \<Rightarrow> (p # sent, r)))"

definition Send :: "udp_env \<Rightarrow> ClientOnlyBind \<Rightarrow> string list \<Rightarrow> string list \<times> go_error option" where
  "Send U b bufs =
     (case cb_conn b of None \<Rightarrow> ([], Some ErrClosed) | Some c \<Rightarrow> send_loop U c bufs)"

definition Bind_Close :: "udp_env \<Rightarrow> ClientOnlyBind \<Rightarrow> go_error option \<times> ClientOnlyBind" where
  "Bind_Close U b =
     (case cb_conn b of None \<Rightarrow> (None, b) | Some c \<Rightarrow> (conn_Close U c, b\<lparr>cb_conn := None\<rparr>))"

definition SetMark :: "ClientOnlyBind \<Rightarrow> 32 word \<Rightarrow> go_error option" where
  "SetMark b mark = None"

definition BatchSize :: "ClientOnlyBind \<Rightarrow> int" where
  "BatchSize b = 1"

definition ParseEndpoint :: "ClientOnlyBind \<Rightarrow> string \<Rightarrow> addr_port result" where
  "ParseEndpoint b s =
     (case netip_ParseAddrPort s of
        None \<Rightarrow> Inl (ErrMsg ''invalid AddrPort'')
      | Some ap \<Rightarrow>
          if ap \<noteq> cb_peer b then Inl (ErrMsg ''clientbind: configured peer endpoint mismatch'')
          else Inr ap)"

section \<open>The bind satisfies the contract\<close>

interpretation client_bind: conn_bind "\<lambda>b. Open U b port" "\<lambda>b bufs. snd (Send U b bufs)" "Bind_Close U"
  "\<lambda>b. cb_conn b \<noteq> None" "\<lambda>b. is_ok (net_DialUDP U (bind_network (cb_peer b)) (cb_peer b))" for U port
  by unfold_locales (auto simp: Open_def Send_def Bind_Close_def split: option.splits sum.splits)

lemma send_loop_prefix: "prefix (fst (send_loop U c bufs)) bufs"
  by (induction U c bufs rule: send_loop.induct) (auto split: option.splits prod.splits)

lemma send_loop_all: "snd (send_loop U c bufs) = None \<longleftrightarrow> fst (send_loop U c bufs) = bufs"
  by (induction U c bufs rule: send_loop.induct) (auto split: option.splits prod.splits)

section \<open>Properties\<close>

text \<open>
  C26: The close-then-open cycle of the device works on this bind: after \<open>Close\<close>, \<open>Open\<close> succeeds exactly
  when the dial does, on the peer's own address family; a second \<open>Open\<close> without \<open>Close\<close> is refused and
  changes nothing; \<open>Close\<close> can be repeated; and sending on a closed bind gives \<open>net.ErrClosed\<close>.
\<close>

theorem bind_cycle:
  "is_ok (fst (Open U (snd (Bind_Close U b)) port)) =
     is_ok (net_DialUDP U (bind_network (cb_peer b)) (cb_peer b)) \<and>
   (cb_conn b \<noteq> None \<longrightarrow> Open U b port = (Inl ErrBindAlreadyOpen, b)) \<and>
   Bind_Close U (snd (Bind_Close U b)) = (None, snd (Bind_Close U b)) \<and>
   snd (Send U (snd (Bind_Close U b)) bufs) = Some ErrClosed"
  using client_bind.bind_update [of U b port] client_bind.close_idempotent [of U b]
    client_bind.send_after_close [of U b bufs]
  by (auto simp: Open_def)

theorem bind_cycle_witness:
  "is_ok (fst (Open \<lparr>net_DialUDP = (\<lambda>_ _. Inr 3), conn_LocalPort = (\<lambda>_. 40000), conn_Write = (\<lambda>_ _. None),
      conn_Close = (\<lambda>_. None)\<rparr> (snd (Bind_Close \<lparr>net_DialUDP = (\<lambda>_ _. Inr 3), conn_LocalPort = (\<lambda>_. 40000),
      conn_Write = (\<lambda>_ _. None), conn_Close = (\<lambda>_. None)\<rparr>
      \<lparr>cb_peer = (V4 192 0 2 1, 51820), cb_conn = Some 2\<rparr>)) 0))"
  using bind_cycle [of "\<lparr>net_DialUDP = (\<lambda>_ _. Inr 3), conn_LocalPort = (\<lambda>_. 40000), conn_Write = (\<lambda>_ _. None),
      conn_Close = (\<lambda>_. None)\<rparr>" "\<lparr>cb_peer = (V4 192 0 2 1, 51820), cb_conn = Some 2\<rparr>" 0]
  by simp

text \<open>
  \<open>Send\<close> on an open bind writes the buffers in order up to the first failing write, and reports an
  error exactly when it has not written them all.
\<close>

theorem send_in_order:
  assumes "cb_conn b = Some c"
  shows "prefix (fst (Send U b bufs)) bufs \<and> (snd (Send U b bufs) = None \<longleftrightarrow> fst (Send U b bufs) = bufs)"
  using assms send_loop_prefix [of U c bufs] send_loop_all [of U c bufs] by (simp add: Send_def)

theorem send_in_order_witness:
  "prefix (fst (Send \<lparr>net_DialUDP = (\<lambda>_ _. Inr 3), conn_LocalPort = (\<lambda>_. 40000),
      conn_Write = (\<lambda>_ p. if p = ''bad'' then Some ErrClosed else None), conn_Close = (\<lambda>_. None)\<rparr>
      \<lparr>cb_peer = (V4 192 0 2 1, 51820), cb_conn = Some 2\<rparr> [''one'', ''bad'', ''two''])) [''one'', ''bad'', ''two'']"
  by (rule send_in_order [where c = 2, THEN conjunct1]) simp

text \<open>
  \<open>ParseEndpoint\<close> accepts exactly the spellings of the configured peer, and in particular the text
  the configuration writes for it.
\<close>

theorem ParseEndpoint_peer_only:
  assumes "Addr_wf a" and "Addr_IsValid a"
  shows "ParseEndpoint b (net_JoinHostPort (Addr_String a) (itoa_nat (unat p))) =
      (if cb_peer b = (a, p) then Inr (a, p)
       else Inl (ErrMsg ''clientbind: configured peer endpoint mismatch'')) \<and>
    (ParseEndpoint b s = Inr ap \<longleftrightarrow> netip_ParseAddrPort s = Some ap \<and> ap = cb_peer b)"
  using ParseAddrPort_Join [OF assms strconv_ParseUint16_itoa [of p]]
  by (auto simp: ParseEndpoint_def split: option.splits)

theorem ParseEndpoint_peer_only_witness:
  "ParseEndpoint \<lparr>cb_peer = (V4 192 0 2 1, 51820), cb_conn = None\<rparr>
     (net_JoinHostPort (Addr_String (V4 192 0 2 1)) (itoa_nat (unat (51820 :: 16 word)))) = Inr (V4 192 0 2 1, 51820)"
proof -
  have "Addr_wf (V4 192 0 2 1)" and "Addr_IsValid (V4 192 0 2 1)" by code_simp+
  from ParseEndpoint_peer_only [OF this, of "\<lparr>cb_peer = (V4 192 0 2 1, 51820), cb_conn = None\<rparr>" 51820] show ?thesis by simp
qed

end
