(* ===== verification/Wireguard.thy ===== *)
theory Wireguard
  imports ClientBind
begin

text \<open>
  \<open>wireguard.go\<close>: the configuration as a request of WireGuard's cross-platform userspace protocol, the
  choice of the bind, and starting the device.  The package \<open>heredoc\<close>, the network stack and the device
  are parameters.
\<close>

section \<open>Formatting\<close>

datatype fmt_arg = FmtS string | FmtD int

text \<open>\<open>fmt.Fprintf\<close> with the verbs \<open>%s\<close> and \<open>%d\<close>.\<close>

fun fmt_Sprintf :: "string \<Rightarrow> fmt_arg list \<Rightarrow> string" where
  "fmt_Sprintf [] as = []"
| "fmt_Sprintf (c # d # f) (a # as) =
     (if c = CHR ''%'' \<and> d = CHR ''s'' then (case a of FmtS s \<Rightarrow> s | FmtD i \<Rightarrow> strconv_Itoa i) @ fmt_Sprintf f as
      else if c = CHR ''%'' \<and> d = CHR ''d'' then (case a of FmtS s \<Rightarrow> s | FmtD i \<Rightarrow> strconv_Itoa i) @ fmt_Sprintf f as
      else c # fmt_Sprintf (d # f) (a # as))"
| "fmt_Sprintf (c # f) as = c # fmt_Sprintf f as"

abbreviation LF :: char where "LF \<equiv> CHR 0x0A"
abbreviation TAB :: char where "TAB \<equiv> CHR 0x09"

definition indented :: "nat \<Rightarrow> string list \<Rightarrow> nat \<Rightarrow> string" where
  "indented n lines m = LF # concat (map (\<lambda>l. replicate n TAB @ l @ [LF]) lines) @ replicate m TAB"

text \<open>
  What the documentation of \<open>heredoc.Doc\<close> says, on texts of the form used here: it removes the first
  newline and the indentation common to all lines, and a last line of blanks.
\<close>

definition heredoc_documented :: "(string \<Rightarrow> string) \<Rightarrow> bool" where
  "heredoc_documented doc \<longleftrightarrow>
     (\<forall>n m ls. m < n \<and> ls \<noteq> [] \<and> (\<forall>l \<in> set ls. l \<noteq> [] \<and> (\<forall>c \<in> set l. graphic c)) \<longrightarrow>
        doc (indented n ls m) = concat (map (\<lambda>l. l @ [LF]) ls))"

section \<open>The request\<close>

record DeviceSetting =
  ds_IpcRequest :: string
  ds_DNS :: "addr list"
  ds_DeviceAddr :: "addr list"
  ds_MTU :: int

definition peer_template :: string where
  "peer_template = indented 4 [''public_key=%s'', ''persistent_keepalive_interval=%d'', ''preshared_key=%s''] 3"

definition routes_template :: string where
  "routes_template = indented 4 [''allowed_ip=0.0.0.0/0'', ''allowed_ip=::0/0''] 3"

definition peer_request :: "(string \<Rightarrow> string) \<Rightarrow> PeerConfig \<Rightarrow> string" where
  "peer_request doc peer =
     fmt_Sprintf (doc peer_template)
       [FmtS (pc_PublicKey peer), FmtD (pc_KeepAlive peer), FmtS (pc_PreSharedKey peer)] @
     (case pc_Endpoint peer of None \<Rightarrow> [] | Some ep \<Rightarrow> fmt_Sprintf (''endpoint=%s'' @ [LF]) [FmtS ep]) @
     (if length (pc_AllowedIPs peer) > 0
      then concat (map (\<lambda>ip. fmt_Sprintf (''allowed_ip=%s'' @ [LF]) [FmtS (Prefix_String ip)]) (pc_AllowedIPs peer))
      else doc routes_template)"

definition CreateIPCRequest :: "(string \<Rightarrow> string) \<Rightarrow> DeviceConfig \<Rightarrow> DeviceSetting result" where
  "CreateIPCRequest doc conf =
     (let request =
        fmt_Sprintf (''private_key=%s'' @ [LF]) [FmtS (dc_SecretKey conf)] @
        (case dc_ListenPort conf of None \<Rightarrow> [] | Some port \<Rightarrow> fmt_Sprintf (''listen_port=%d'' @ [LF]) [FmtD port]) @
        concat (map (peer_request doc) (dc_Peers conf))
      in Inr \<lparr>ds_IpcRequest = request, ds_DNS = dc_DNS conf, ds_DeviceAddr = dc_Endpoint conf, ds_MTU = dc_MTU conf\<rparr>)"

section \<open>Starting the device\<close>

datatype bind = DefaultBind | ClientBind ClientOnlyBind

definition bindForConfig :: "DeviceConfig \<Rightarrow> bind" where
  "bindForConfig conf =
     (if length (dc_Peers conf) \<noteq> 1 then DefaultBind
      else case pc_Endpoint (hd (dc_Peers conf)) of
        None \<Rightarrow> DefaultBind
      | Some ep \<Rightarrow>
          (case netip_ParseAddrPort ep of
             None \<Rightarrow> DefaultBind
           | Some ap \<Rightarrow>
               (case New ap of Inl e \<Rightarrow> DefaultBind | Inr b \<Rightarrow> ClientBind b)))"

text \<open>A logger made at a level, or the caller's own; level 0 is silent.\<close>

datatype logger = NewLogger int | CallerLogger nat

text \<open>
  The calls of the network stack and the device, in the order they are made, and the outcomes of the
  fallible ones.
\<close>

datatype wg_call =
    CreateNetTUN "addr list" "addr list" int
  | NewDevice bind logger
  | IpcSet string
  | DeviceUp

record wg_env =
  wg_doc :: "string \<Rightarrow> string"
  wg_CreateNetTUN :: "go_error option"
  wg_IpcSet :: "string \<Rightarrow> go_error option"
  wg_Up :: "go_error option"

definition resolved_strategy :: "addr list \<Rightarrow> string \<Rightarrow> string" where
  "resolved_strategy addrs strategy =
     (let hasV4 = list_ex Addr_Is4 addrs; hasV6 = list_ex Addr_Is6 addrs
      in if strategy = ''auto'' then (if hasV4 \<and> \<not> hasV6 then ''ipv4'' else ''ipv6'') else strategy)"

text \<open>
  The calls made, the configuration as it was left (the resolve strategy is written back), and the
  tunnel or the error.
\<close>

definition StartWireguardWithLogger ::
  "wg_env \<Rightarrow> 're Configuration \<Rightarrow> logger option \<Rightarrow> wg_call list \<times> 're Configuration \<times> VirtualTun result" where
  "StartWireguardWithLogger W conf lg =
     (let lg' = (case lg of None \<Rightarrow> NewLogger 0 | Some l \<Rightarrow> l);
          deviceConf = conf_Device conf
      in case CreateIPCRequest (wg_doc W) deviceConf of
           Inl e \<Rightarrow> ([], conf, Inl e)
         | Inr setting \<Rightarrow>
             (let calls = [CreateNetTUN (ds_DeviceAddr setting) (ds_DNS setting) (ds_MTU setting)] in
              case wg_CreateNetTUN W of
                Some e \<Rightarrow> (calls, conf, Inl e)
              | None \<Rightarrow>
                  (let calls = calls @ [NewDevice (bindForConfig deviceConf) lg', IpcSet (ds_IpcRequest setting)] in
                   case wg_IpcSet W (ds_IpcRequest setting) of
                     Some e \<Rightarrow> (calls, conf, Inl e)
                   | None \<Rightarrow>
                       (let calls = calls @ [DeviceUp] in
                        case wg_Up W of
                          Some e \<Rightarrow> (calls, conf, Inl e)
                        | None \<Rightarrow>
                            (let rc = (conf_Resolve conf)\<lparr>rc_ResolveStrategy :=
                                        resolved_strategy (ds_DeviceAddr setting)
                                          (rc_ResolveStrategy (conf_Resolve conf))\<rparr>
                             in (calls, conf\<lparr>conf_Resolve := rc\<rparr>,
                                 Inr \<lparr>vt_SystemDNS = (length (ds_DNS setting) = 0), vt_Conf = deviceConf,
                                      vt_ResolveConfig = rc, vt_PingRecord = []\<rparr>))))))"

definition StartWireguard ::
  "wg_env \<Rightarrow> 're Configuration \<Rightarrow> int \<Rightarrow> wg_call list \<times> 're Configuration \<times> VirtualTun result" where
  "StartWireguard W conf logLevel = StartWireguardWithLogger W conf (Some (NewLogger logLevel))"

section \<open>The userspace protocol\<close>

text \<open>
  What the request means: lines \<open>key=value\<close>; a \<open>public_key\<close> starts a peer, and the keys that follow set
  its fields until the next one.  The reader is a reference for what the text says, not the device: it
  takes ports and keep-alives as Go integers where the device accepts 16 bits, keeps two peers with one
  public key apart where the device would merge them, and leaves endpoints as text.
\<close>

record uapi_peer =
  up_public_key :: string
  up_preshared_key :: string
  up_endpoint :: "string option"
  up_keepalive :: int
  up_allowed_ips :: "ip_prefix list"

record uapi_device =
  ud_private_key :: string
  ud_listen_port :: "int option"
  ud_peers :: "uapi_peer list"

definition uapi_pairs :: "string \<Rightarrow> (string \<times> string) list option" where
  "uapi_pairs req = those (map (\<lambda>l. case strings_SplitN2 (CHR ''='') l of [k, v] \<Rightarrow> Some (k, v) | _ \<Rightarrow> None)
     (filter (\<lambda>l. l \<noteq> []) (strings_Split LF req)))"

definition set_peer :: "string \<Rightarrow> string \<Rightarrow> uapi_peer \<Rightarrow> uapi_peer option" where
  "set_peer k v p =
     (if k = ''preshared_key'' then Some (p\<lparr>up_preshared_key := v\<rparr>)
      else if k = ''endpoint'' then Some (p\<lparr>up_endpoint := Some v\<rparr>)
      else if k = ''persistent_keepalive_interval'' then map_option (\<lambda>i. p\<lparr>up_keepalive := i\<rparr>) (strconv_Atoi v)
      else if k = ''allowed_ip'' then
        map_option (\<lambda>x. p\<lparr>up_allowed_ips := up_allowed_ips p @ [x]\<rparr>) (netip_ParsePrefix v)
      else None)"

fun uapi_set :: "uapi_device \<Rightarrow> (string \<times> string) list \<Rightarrow> uapi_device option" where
  "uapi_set d [] = Some d"
| "uapi_set d ((k, v) # ps) =
     (if k = ''private_key'' then uapi_set (d\<lparr>ud_private_key := v\<rparr>) ps
      else if k = ''listen_port'' then
        (case strconv_Atoi v of None \<Rightarrow> None | Some i \<Rightarrow> uapi_set (d\<lparr>ud_listen_port := Some i\<rparr>) ps)
      else if k = ''public_key'' then
        uapi_set (d\<lparr>ud_peers := ud_peers d @ [\<lparr>up_public_key = v, up_preshared_key = [], up_endpoint = None,
          up_keepalive = 0, up_allowed_ips = []\<rparr>]\<rparr>) ps
      else if ud_peers d = [] then None
      else (case set_peer k v (last (ud_peers d)) of
              None \<Rightarrow> None
            | Some p \<Rightarrow> uapi_set (d\<lparr>ud_peers := butlast (ud_peers d) @ [p]\<rparr>) ps))"

definition uapi_read :: "string \<Rightarrow> uapi_device option" where
  "uapi_read req = Option.bind (uapi_pairs req)
     (uapi_set \<lparr>ud_private_key = [], ud_listen_port = None, ud_peers = []\<rparr>)"

text \<open>What the configuration asks for: without \<open>AllowedIPs\<close>, all of IPv4 and all of IPv6.\<close>

definition all_routes :: "ip_prefix list" where
  "all_routes = [\<lparr>px_ip = V4 0 0 0 0, px_bits = 0\<rparr>, \<lparr>px_ip = V6 [0, 0, 0, 0, 0, 0, 0, 0] [], px_bits = 0\<rparr>]"

definition wanted_peer :: "PeerConfig \<Rightarrow> uapi_peer" where
  "wanted_peer p = \<lparr>up_public_key = pc_PublicKey p, up_preshared_key = pc_PreSharedKey p,
     up_endpoint = pc_Endpoint p, up_keepalive = pc_KeepAlive p,
     up_allowed_ips = (if pc_AllowedIPs p = [] then all_routes else pc_AllowedIPs p)\<rparr>"

definition wanted_device :: "DeviceConfig \<Rightarrow> uapi_device" where
  "wanted_device c = \<lparr>ud_private_key = dc_SecretKey c, ud_listen_port = dc_ListenPort c,
     ud_peers = map wanted_peer (dc_Peers c)\<rparr>"

section \<open>The request as key-value pairs\<close>

definition ipc_line :: "string \<times> string \<Rightarrow> string" where
  "ipc_line kv = fst kv @ CHR ''='' # snd kv @ [LF]"

definition allowed_pairs :: "PeerConfig \<Rightarrow> (string \<times> string) list" where
  "allowed_pairs p = map (\<lambda>v. (''allowed_ip'', v))
     (if pc_AllowedIPs p = [] then [''0.0.0.0/0'', ''::0/0''] else map Prefix_String (pc_AllowedIPs p))"

definition peer_pairs :: "PeerConfig \<Rightarrow> (string \<times> string) list" where
  "peer_pairs p = [(''public_key'', pc_PublicKey p), (''persistent_keepalive_interval'', strconv_Itoa (pc_KeepAlive p)),
     (''preshared_key'', pc_PreSharedKey p)] @
     (case pc_Endpoint p of None \<Rightarrow> [] | Some ep \<Rightarrow> [(''endpoint'', ep)]) @ allowed_pairs p"

definition device_pairs :: "DeviceConfig \<Rightarrow> (string \<times> string) list" where
  "device_pairs c = (''private_key'', dc_SecretKey c) #
     (case dc_ListenPort c of None \<Rightarrow> [] | Some i \<Rightarrow> [(''listen_port'', strconv_Itoa i)]) @
     concat (map peer_pairs (dc_Peers c))"

lemma Sprintf_line:
  "fmt_Sprintf (''private_key=%s'' @ [LF]) [FmtS v] = ipc_line (''private_key'', v)"
  "fmt_Sprintf (''endpoint=%s'' @ [LF]) [FmtS v] = ipc_line (''endpoint'', v)"
  "fmt_Sprintf (''allowed_ip=%s'' @ [LF]) [FmtS v] = ipc_line (''allowed_ip'', v)"
  "fmt_Sprintf (''listen_port=%d'' @ [LF]) [FmtD i] = ipc_line (''listen_port'', strconv_Itoa i)"
  by (simp_all add: ipc_line_def)

lemma Sprintf_peer:
  "fmt_Sprintf (concat (map (\<lambda>l. l @ [LF]) [''public_key=%s'', ''persistent_keepalive_interval=%d'', ''preshared_key=%s'']))
     [FmtS a, FmtD i, FmtS b] =
   concat (map ipc_line [(''public_key'', a), (''persistent_keepalive_interval'', strconv_Itoa i), (''preshared_key'', b)])"
  by (simp add: ipc_line_def)

lemma heredoc_templates:
  assumes "heredoc_documented doc"
  shows "doc peer_template =
      concat (map (\<lambda>l. l @ [LF]) [''public_key=%s'', ''persistent_keepalive_interval=%d'', ''preshared_key=%s''])"
    and "doc routes_template = concat (map (\<lambda>l. l @ [LF]) [''allowed_ip=0.0.0.0/0'', ''allowed_ip=::0/0''])"
proof -
  have "\<forall>l \<in> set [''public_key=%s'', ''persistent_keepalive_interval=%d'', ''preshared_key=%s''].
      l \<noteq> [] \<and> (\<forall>c \<in> set l. graphic c)"
    and "\<forall>l \<in> set [''allowed_ip=0.0.0.0/0'', ''allowed_ip=::0/0'']. l \<noteq> [] \<and> (\<forall>c \<in> set l. graphic c)"
    by code_simp+
  then show "doc peer_template =
      concat (map (\<lambda>l. l @ [LF]) [''public_key=%s'', ''persistent_keepalive_interval=%d'', ''preshared_key=%s''])"
    and "doc routes_template = concat (map (\<lambda>l. l @ [LF]) [''allowed_ip=0.0.0.0/0'', ''allowed_ip=::0/0''])"
    using assms unfolding heredoc_documented_def peer_template_def routes_template_def by simp_all
qed

lemma peer_request_lines:
  assumes "heredoc_documented doc"
  shows "peer_request doc p = concat (map ipc_line (peer_pairs p))"
proof -
  have routes: "doc routes_template = concat (map ipc_line [(''allowed_ip'', ''0.0.0.0/0''), (''allowed_ip'', ''::0/0'')])"
    unfolding heredoc_templates(2) [OF assms] by (simp add: ipc_line_def)
  have "(case pc_Endpoint p of None \<Rightarrow> [] | Some ep \<Rightarrow> fmt_Sprintf (''endpoint=%s'' @ [LF]) [FmtS ep]) =
      concat (map ipc_line (case pc_Endpoint p of None \<Rightarrow> [] | Some ep \<Rightarrow> [(''endpoint'', ep)]))"
    unfolding Sprintf_line by (simp split: option.split)
  moreover have "(if length (pc_AllowedIPs p) > 0
      then concat (map (\<lambda>ip. fmt_Sprintf (''allowed_ip=%s'' @ [LF]) [FmtS (Prefix_String ip)]) (pc_AllowedIPs p))
      else doc routes_template) = concat (map ipc_line (allowed_pairs p))"
    unfolding Sprintf_line routes by (simp add: allowed_pairs_def comp_def)
  ultimately show ?thesis
    unfolding peer_request_def heredoc_templates(1) [OF assms] Sprintf_peer peer_pairs_def map_append concat_append
    by simp
qed

lemma IpcRequest_lines:
  assumes "heredoc_documented doc"
  shows "\<exists>s. CreateIPCRequest doc conf = Inr s \<and> ds_IpcRequest s = concat (map ipc_line (device_pairs conf)) \<and>
    ds_DNS s = dc_DNS conf \<and> ds_DeviceAddr s = dc_Endpoint conf \<and> ds_MTU s = dc_MTU conf"
proof -
  have "concat (map (peer_request doc) ps) = concat (map ipc_line (concat (map peer_pairs ps)))" for ps
    by (induction ps) (simp_all add: peer_request_lines [OF assms])
  then show ?thesis
    unfolding CreateIPCRequest_def Sprintf_line by (simp add: device_pairs_def Let_def split: option.split)
qed

section \<open>Reading the request back\<close>

definition clean_pair :: "string \<times> string \<Rightarrow> bool" where
  "clean_pair kv \<longleftrightarrow> CHR ''='' \<notin> set (fst kv) \<and> LF \<notin> set (fst kv) \<and> LF \<notin> set (snd kv)"

lemma split_lines:
  "list_all clean_pair ps \<Longrightarrow>
     strings_Split LF (concat (map ipc_line ps)) = map (\<lambda>kv. fst kv @ CHR ''='' # snd kv) ps @ [[]]"
proof (induction ps)
  case (Cons kv ps)
  have "strings_Split LF ((fst kv @ CHR ''='' # snd kv) @ LF # concat (map ipc_line ps)) =
      (fst kv @ CHR ''='' # snd kv) # strings_Split LF (concat (map ipc_line ps))"
    using Cons.prems by (intro strings_Split_append) (auto simp: clean_pair_def)
  moreover have "concat (map ipc_line (kv # ps)) = (fst kv @ CHR ''='' # snd kv) @ LF # concat (map ipc_line ps)"
    by (simp add: ipc_line_def)
  moreover have "strings_Split LF (concat (map ipc_line ps)) = map (\<lambda>kv. fst kv @ CHR ''='' # snd kv) ps @ [[]]"
    using Cons by simp
  ultimately show ?case by (simp only: list.map append_Cons)
qed simp

lemma those_map_Some: "\<forall>x \<in> set xs. f x = Some (g x) \<Longrightarrow> those (map f xs) = Some (map g xs)"
  by (induction xs) auto

lemma uapi_pairs_lines:
  assumes "list_all clean_pair ps"
  shows "uapi_pairs (concat (map ipc_line ps)) = Some ps"
proof -
  have "those (map (\<lambda>kv. case strings_SplitN2 (CHR ''='') (fst kv @ CHR ''='' # snd kv) of
      [k, v] \<Rightarrow> Some (k, v) | _ \<Rightarrow> None) ps) = Some (map (\<lambda>kv. kv) ps)"
    using assms by (intro those_map_Some) (auto simp: list_all_iff clean_pair_def strings_SplitN2_append)
  then show ?thesis
    by (simp add: uapi_pairs_def split_lines [OF assms] comp_def)
qed

lemma uapi_set_allowed:
  "map netip_ParsePrefix vs = map Some xs \<Longrightarrow> ud_peers d = qs @ [q] \<Longrightarrow>
     uapi_set d (map (\<lambda>v. (''allowed_ip'', v)) vs @ r) =
     uapi_set (d\<lparr>ud_peers := qs @ [q\<lparr>up_allowed_ips := up_allowed_ips q @ xs\<rparr>]\<rparr>) r"
proof (induction vs arbitrary: xs d q)
  case Nil
  then show ?case by (cases d) simp
next
  case (Cons v vs)
  then obtain y ys where xs: "xs = y # ys" and y: "netip_ParsePrefix v = Some y"
    and ys: "map netip_ParsePrefix vs = map Some ys"
    by (cases xs) auto
  from Cons.IH [OF ys, of "d\<lparr>ud_peers := qs @ [q\<lparr>up_allowed_ips := up_allowed_ips q @ [y]\<rparr>]\<rparr>"
      "q\<lparr>up_allowed_ips := up_allowed_ips q @ [y]\<rparr>"]
  show ?case using Cons.prems y by (simp add: xs set_peer_def)
qed

lemma all_routes_parse: "map netip_ParsePrefix [''0.0.0.0/0'', ''::0/0''] = map Some all_routes"
  by code_simp

lemma uapi_set_peer:
  assumes "in_int64 (pc_KeepAlive p)" and "list_all Prefix_wf (pc_AllowedIPs p)"
  shows "uapi_set d (peer_pairs p @ r) = uapi_set (d\<lparr>ud_peers := ud_peers d @ [wanted_peer p]\<rparr>) r"
proof -
  let ?xs = "if pc_AllowedIPs p = [] then all_routes else pc_AllowedIPs p"
  have vs: "map netip_ParsePrefix (if pc_AllowedIPs p = [] then [''0.0.0.0/0'', ''::0/0'']
      else map Prefix_String (pc_AllowedIPs p)) = map Some ?xs"
    using assms(2) all_routes_parse by (auto simp: list_all_iff ParsePrefix_String)
  show ?thesis
    using assms(1) uapi_set_allowed [OF vs]
    by (cases "pc_Endpoint p")
      (simp_all add: peer_pairs_def allowed_pairs_def wanted_peer_def set_peer_def strconv_Atoi_Itoa)
qed

lemma uapi_set_peers:
  "\<forall>p \<in> set ps. in_int64 (pc_KeepAlive p) \<and> list_all Prefix_wf (pc_AllowedIPs p) \<Longrightarrow>
     uapi_set d (concat (map peer_pairs ps)) = Some (d\<lparr>ud_peers := ud_peers d @ map wanted_peer ps\<rparr>)"
  by (induction ps arbitrary: d) (simp_all add: uapi_set_peer)

lemma lower_hex_clean: "key_wf k \<Longrightarrow> LF \<notin> set k"
  by (auto simp: key_wf_def list_all_iff is_lower_hex_def)

lemma Prefix_String_clean: "Prefix_wf x \<Longrightarrow> LF \<notin> set (Prefix_String x)"
  using Prefix_String_graphic [of x LF] by (auto simp: graphic_def)

text \<open>
  The parser's invariant, 64-bit numbers, and endpoints without a line feed: what the request needs.
\<close>

definition ipc_ready :: "DeviceConfig \<Rightarrow> bool" where
  "ipc_ready c \<longleftrightarrow> device_wf c \<and> (\<forall>i. dc_ListenPort c = Some i \<longrightarrow> in_int64 i) \<and>
     (\<forall>p \<in> set (dc_Peers c). in_int64 (pc_KeepAlive p) \<and> (\<forall>ep. pc_Endpoint p = Some ep \<longrightarrow> LF \<notin> set ep))"

lemma device_pairs_clean:
  assumes "ipc_ready c"
  shows "list_all clean_pair (device_pairs c)"
proof -
  have itoa: "LF \<notin> set (strconv_Itoa i)" for i by (simp add: strconv_Itoa_def is_digit_def)
  have "clean_pair kv" if "p \<in> set (dc_Peers c)" "kv \<in> set (peer_pairs p)" for p kv
  proof -
    have "peer_wf p" and "\<forall>ep. pc_Endpoint p = Some ep \<longrightarrow> LF \<notin> set ep"
      using assms that(1) by (auto simp: ipc_ready_def device_wf_def list_all_iff)
    then show ?thesis
      using that(2) itoa lower_hex_clean Prefix_String_clean
      by (auto simp: peer_pairs_def allowed_pairs_def clean_pair_def peer_wf_def list_all_iff split: option.splits if_splits)
  qed
  moreover have "key_wf (dc_SecretKey c)" using assms by (simp add: ipc_ready_def device_wf_def)
  ultimately show ?thesis
    using itoa lower_hex_clean
    by (auto simp: device_pairs_def list_all_iff clean_pair_def split: option.splits)
qed

lemma IpcRequest_read:
  assumes "heredoc_documented doc" and "ipc_ready conf"
  shows "\<exists>s. CreateIPCRequest doc conf = Inr s \<and> uapi_read (ds_IpcRequest s) = Some (wanted_device conf) \<and>
    ds_DNS s = dc_DNS conf \<and> ds_DeviceAddr s = dc_Endpoint conf \<and> ds_MTU s = dc_MTU conf"
proof -
  have peers: "\<forall>p \<in> set (dc_Peers conf). in_int64 (pc_KeepAlive p) \<and> list_all Prefix_wf (pc_AllowedIPs p)"
    and port: "\<forall>i. dc_ListenPort conf = Some i \<longrightarrow> in_int64 i"
    using assms(2) by (auto simp: ipc_ready_def device_wf_def peer_wf_def list_all_iff)
  have "uapi_read (concat (map ipc_line (device_pairs conf))) = Some (wanted_device conf)"
    unfolding uapi_read_def uapi_pairs_lines [OF device_pairs_clean [OF assms(2)]]
    using uapi_set_peers [OF peers] port
    by (cases "dc_ListenPort conf") (simp_all add: device_pairs_def wanted_device_def strconv_Atoi_Itoa)
  with IpcRequest_lines [OF assms(1), of conf] show ?thesis by metis
qed

section \<open>Properties\<close>

text \<open>
  C5: The IPC request says what the configuration says: read by the rules of the userspace protocol,
  it gives back the private key, the listen port and every peer in order with its keys, endpoint,
  keep-alive and allowed addresses, or all routes of both families where none are configured.
\<close>

theorem CreateIPCRequest_roundtrip:
  assumes "heredoc_documented doc" and "ipc_ready conf"
  shows "\<exists>s. CreateIPCRequest doc conf = Inr s \<and> uapi_read (ds_IpcRequest s) = Some (wanted_device conf) \<and>
    ds_DNS s = dc_DNS conf \<and> ds_DeviceAddr s = dc_Endpoint conf \<and> ds_MTU s = dc_MTU conf"
  by (rule IpcRequest_read [OF assms])

text \<open>A \<open>heredoc.Doc\<close> for texts indented by tabs.\<close>

definition doc_line :: "string \<Rightarrow> string" where
  "doc_line l = (let r = dropWhile (\<lambda>c. c = TAB) l in if r = [] then [] else r @ [LF])"

definition tab_doc :: "string \<Rightarrow> string" where
  "tab_doc t = concat (map doc_line (strings_Split LF t))"

definition demo_conf :: DeviceConfig where
  "demo_conf = default_device\<lparr>dc_SecretKey := replicate 64 CHR ''a'', dc_Endpoint := [V4 10 0 0 2], dc_ListenPort := Some 51820,
     dc_CheckAliveInterval := 5,
     dc_Peers := [\<lparr>pc_PublicKey = replicate 64 CHR ''1'', pc_PreSharedKey = replicate 64 CHR ''0'',
       pc_Endpoint = Some ''192.0.2.1:51820'', pc_KeepAlive = 25, pc_AllowedIPs = []\<rparr>]\<rparr>"

lemma tab_doc_documented: "heredoc_documented tab_doc"
  unfolding heredoc_documented_def
proof (intro allI impI, elim conjE)
  fix n m :: nat and ls :: "string list"
  assume ls: "\<forall>l \<in> set ls. l \<noteq> [] \<and> (\<forall>c \<in> set l. graphic c)"
  have nolf: "LF \<notin> set (replicate k TAB @ l)" if "\<forall>c \<in> set l. graphic c" for k l
    using that by (auto simp: graphic_def)
  have split: "strings_Split LF (concat (map (\<lambda>l. replicate n TAB @ l @ [LF]) ks) @ replicate m TAB) =
      map (\<lambda>l. replicate n TAB @ l) ks @ [replicate m TAB]"
    if "\<forall>l \<in> set ks. \<forall>c \<in> set l. graphic c" for ks
    using that
  proof (induction ks)
    case Nil
    show ?case using nolf [of "[]" m] by (simp add: strings_Split_absent)
  next
    case (Cons k ks)
    then have "strings_Split LF ((replicate n TAB @ k) @ LF # concat (map (\<lambda>l. replicate n TAB @ l @ [LF]) ks) @ replicate m TAB) =
        (replicate n TAB @ k) # strings_Split LF (concat (map (\<lambda>l. replicate n TAB @ l @ [LF]) ks) @ replicate m TAB)"
      using nolf [of k n] by (intro strings_Split_append) simp
    with Cons show ?case by simp
  qed
  have trim: "dropWhile (\<lambda>c. c = TAB) (replicate k TAB @ l) = l" if "l = [] \<or> graphic (hd l)" for k l
    using that by (induction k) (auto simp: graphic_def neq_Nil_conv dropWhile_eq_self_iff)
  have all: "\<forall>l \<in> set ls. \<forall>c \<in> set l. graphic c" using ls by blast
  have first: "strings_Split LF (indented n ls m) = [] # map (\<lambda>l. replicate n TAB @ l) ls @ [replicate m TAB]"
    using split [OF all] strings_Split_append [of LF "[]"] by (simp add: indented_def)
  have "concat (map (\<lambda>l. doc_line (replicate n TAB @ l)) ls) = concat (map (\<lambda>l. l @ [LF]) ls)"
  proof (rule arg_cong [where f = concat], rule map_cong [OF refl])
    fix l assume "l \<in> set ls"
    with ls have "l \<noteq> []" and "graphic (hd l)" by simp_all
    with trim [of l n] show "doc_line (replicate n TAB @ l) = l @ [LF]"
      by (simp add: doc_line_def Let_def del: dropWhile_eq_Nil_conv)
  qed
  moreover have "doc_line (replicate m TAB) = []" and "doc_line [] = []"
    using trim [of "[]" m] by (simp_all add: doc_line_def)
  ultimately show "tab_doc (indented n ls m) = concat (map (\<lambda>l. l @ [LF]) ls)"
    by (simp add: tab_doc_def first comp_def)
qed

theorem CreateIPCRequest_roundtrip_witness:
  "\<exists>s. CreateIPCRequest tab_doc demo_conf = Inr s \<and> uapi_read (ds_IpcRequest s) = Some (wanted_device demo_conf)"
proof -
  have wf: "device_wf demo_conf" by code_simp
  have "ipc_ready demo_conf"
    using wf by (auto simp: ipc_ready_def demo_conf_def in_int64_def)
  from CreateIPCRequest_roundtrip [OF tab_doc_documented this] show ?thesis by blast
qed

text \<open>
  The single-peer client bind is chosen exactly when there is one peer and its endpoint is a valid
  address and port, and it is then bound to that endpoint, unopened; every other configuration gets the
  default bind.
\<close>

theorem bindForConfig_iff:
  "bindForConfig conf = ClientBind b \<longleftrightarrow>
     (\<exists>p ep. dc_Peers conf = [p] \<and> pc_Endpoint p = Some ep \<and> netip_ParseAddrPort ep = Some (cb_peer b) \<and>
        cb_conn b = None)"
proof -
  have "length (dc_Peers conf) = 1 \<longleftrightarrow> (\<exists>p. dc_Peers conf = [p])" by (auto simp: length_Suc_conv)
  then show ?thesis
    by (auto simp: bindForConfig_def New_def ParseAddrPort_valid split: option.splits sum.splits if_splits)
qed


definition demo_wg :: wg_env where
  "demo_wg = \<lparr>wg_doc = tab_doc, wg_CreateNetTUN = None, wg_IpcSet = (\<lambda>_. None), wg_Up = None\<rparr>"


end
