(* ===== verification/Health.thy ===== *)
theory Health
  imports Spawner "HOL-Library.AList" "HOL-Library.List_Lexorder" "HOL-Library.Char_ord"
begin

text \<open>
  The health endpoint and the keep-alive pings of \<open>routine.go\<close>: \<open>VirtualTun.ServeHTTP\<close>, \<open>pingIPs\<close> and
  \<open>StartPingIPs\<close>.  The WireGuard device's \<open>IpcGet\<close>, the ICMP codec, the dialer and the clock are inputs.
\<close>

section \<open>The endpoint\<close>

record health_reply =
  hr_status :: nat
  hr_body :: string

text \<open>\<open>json.Marshal\<close> of a \<open>map[string]uint64\<close>: the keys in order, the numbers in decimal.\<close>

definition hex4 :: "nat \<Rightarrow> string" where
  "hex4 n = [CHR ''0'', CHR ''0'', hex_digit (n div 16), hex_digit (n mod 16)]"

definition json_char :: "char \<Rightarrow> string" where
  "json_char c =
     (if c = CHR 0x22 \<or> c = CHR 0x5C then [CHR 0x5C, c]
      else if of_char c < (32 :: nat) \<or> c \<in> {CHR ''<'', CHR ''>'', CHR ''&''} then [CHR 0x5C, CHR ''u''] @ hex4 (of_char c)
      else [c])"

definition json_string :: "string \<Rightarrow> string" where
  "json_string s = CHR 0x22 # concat (map json_char s) @ [CHR 0x22]"

definition json_Marshal :: "(string \<times> 64 word) list \<Rightarrow> string" where
  "json_Marshal m =
     CHR ''{'' # join_on (CHR '','')
       (map (\<lambda>(k, v). json_string k @ CHR '':'' # itoa_nat (unat v)) (sort_key fst m)) @ [CHR ''}'']"

text \<open>
  Times are nanoseconds since the epoch; \<open>int64(record)\<close> reads the stored word as signed.
\<close>

definition pong_stale :: "int \<Rightarrow> int \<Rightarrow> 64 word \<Rightarrow> bool" where
  "pong_stale interval now record \<longleftrightarrow>
     time_Sub now (sint record * 1000000000) > seconds (wrap64 (interval + 2))"

text \<open>A line of \<open>IpcGet\<close> as it is copied to the reply.\<close>

definition metrics_line :: "string \<Rightarrow> string" where
  "metrics_line peer =
     (case strings_SplitN2 (CHR ''='') peer of
        [k, v] \<Rightarrow>
          (let v = (if k = ''private_key'' \<or> k = ''preshared_key'' then ''REDACTED'' else v)
           in k @ ''='' @ v @ [CHR 0x0A])
      | _ \<Rightarrow> peer)"

definition metrics_body :: "string \<Rightarrow> string" where
  "metrics_body get = concat (map metrics_line (strings_Split (CHR 0x0A) get))"

definition ServeHTTP :: "VirtualTun \<Rightarrow> string result \<Rightarrow> int \<Rightarrow> string \<Rightarrow> health_reply" where
  "ServeHTTP d ipcGet now urlPath =
     (let p = path_Clean urlPath in
      if p = ''/readyz'' then
        \<lparr>hr_status = (if list_ex (\<lambda>(k, r). pong_stale (dc_CheckAliveInterval (vt_Conf d)) now r) (vt_PingRecord d)
                     then 503 else 200),
         hr_body = json_Marshal (vt_PingRecord d) @ [CHR 0x0A]\<rparr>
      else if p = ''/metrics'' then
        (case ipcGet of
           Inl e \<Rightarrow> \<lparr>hr_status = 500, hr_body = []\<rparr>
         | Inr get \<Rightarrow> \<lparr>hr_status = 200, hr_body = metrics_body get\<rparr>)
      else \<lparr>hr_status = 404, hr_body = []\<rparr>)"

section \<open>Pings\<close>

text \<open>
  What the ICMP package can parse a reply into; the printed forms of its type and body, which only go to
  the log, come with it.
\<close>

datatype icmp_body = EchoBody int string | RawBody string | OtherBody

record icmp_message =
  im_Type :: string
  im_Body :: icmp_body
  im_Printed :: string

text \<open>What became of waiting for a reply: \<open>Read\<close> failed, \<open>icmp.ParseMessage\<close> failed, or a message.\<close>

datatype ping_answer = NoReply go_error | BadReply go_error | Reply icmp_message

record echo_request =
  er_Seq :: int
  er_Data :: string

datatype ping_effect =
    PLog string
  | PDial string
  | PWrite handle echo_request
  | PGoReply handle echo_request
  | PClose handle
  | PRecord string

text \<open>
  The outcomes of one address in one round: the dial, the random sequence number and data, and the
  write.
\<close>

record ping_env =
  pe_dial :: "handle result"
  pe_seq :: nat
  pe_data :: string
  pe_write :: "go_error option"

definition ping_one :: "addr \<Rightarrow> ping_env \<Rightarrow> ping_effect list" where
  "ping_one a e =
     PDial (Addr_String a) #
     (case pe_dial e of
        Inl err \<Rightarrow> [PLog (''Failed to ping '' @ Addr_String a @ '': '' @ err_Error err)]
      | Inr socket \<Rightarrow>
          (let requestPing = \<lparr>er_Seq = int (pe_seq e mod 65536), er_Data = take 16 (pe_data e)\<rparr> in
           if \<not> Addr_Is4 a \<and> \<not> Addr_Is6 a then
             [PLog (''Failed to ping '' @ Addr_String a @ '': invalid address: '' @ Addr_String a)]
           else
             PWrite socket requestPing #
             (case pe_write e of
                Some err \<Rightarrow> [PLog (''Failed to ping '' @ Addr_String a @ '': '' @ err_Error err)]
              | None \<Rightarrow> [PGoReply socket requestPing])))"

text \<open>Every address is tried; a failure goes on with the next.\<close>

definition pingIPs :: "VirtualTun \<Rightarrow> (addr \<Rightarrow> ping_env) \<Rightarrow> ping_effect list" where
  "pingIPs d env = concat (map (\<lambda>a. ping_one a (env a)) (dc_CheckAlive (vt_Conf d)))"

datatype pong = PongAccepted | PongRejected string | PongPanics

definition be16 :: "char \<Rightarrow> char \<Rightarrow> int" where
  "be16 hi lo = int (of_char hi * 256 + of_char lo)"

text \<open>
  The checks of the goroutine that reads the reply.  \<open>Data[2:4]\<close> of a shorter body is a run-time
  panic.
\<close>

definition check_pong :: "addr \<Rightarrow> echo_request \<Rightarrow> icmp_message \<Rightarrow> pong" where
  "check_pong a req replyPacket =
     (if Addr_Is4 a then
        (case im_Body replyPacket of
           EchoBody seq data \<Rightarrow>
             if data \<noteq> er_Data req \<or> seq \<noteq> er_Seq req
             then PongRejected (''invalid ping reply: '' @ im_Printed replyPacket) else PongAccepted
         | _ \<Rightarrow> PongRejected (''invalid reply type: '' @ im_Type replyPacket))
      else if Addr_Is6 a then
        (case im_Body replyPacket of
           RawBody raw \<Rightarrow>
             if length raw < 4 then PongPanics
             else if drop 4 raw \<noteq> er_Data req \<or> be16 (raw ! 2) (raw ! 3) \<noteq> er_Seq req
             then PongRejected (''invalid ping reply: '' @ im_Printed replyPacket) else PongAccepted
         | _ \<Rightarrow> PongRejected (''invalid reply type: '' @ im_Type replyPacket))
      else PongAccepted)"

text \<open>
  The goroutine that waits for the reply.  The socket is closed by a \<open>defer\<close> that is only reached on
  success.  \<open>None\<close> is a panic.
\<close>

definition ping_reply ::
  "VirtualTun \<Rightarrow> addr \<Rightarrow> handle \<Rightarrow> echo_request \<Rightarrow> ping_answer \<Rightarrow> int \<Rightarrow>
     (VirtualTun \<times> ping_effect list) option" where
  "ping_reply d a socket req answer now =
     (case answer of
        NoReply e \<Rightarrow> Some (d, [PLog (''Failed to read ping response from '' @ Addr_String a @ '': '' @ err_Error e)])
      | BadReply e \<Rightarrow> Some (d, [PLog (''Failed to parse ping response from '' @ Addr_String a @ '': '' @ err_Error e)])
      | Reply replyPacket \<Rightarrow>
          (case check_pong a req replyPacket of
             PongPanics \<Rightarrow> None
           | PongRejected why \<Rightarrow>
               Some (d, [PLog (''Failed to parse ping response from '' @ Addr_String a @ '': '' @ why)])
           | PongAccepted \<Rightarrow>
               Some (d\<lparr>vt_PingRecord := AList.update (Addr_String a) (of_int (now div 1000000000)) (vt_PingRecord d)\<rparr>,
                     [PRecord (Addr_String a), PClose socket])))"

definition StartPingIPs_init :: "VirtualTun \<Rightarrow> VirtualTun" where
  "StartPingIPs_init d =
     d\<lparr>vt_PingRecord := fold (\<lambda>a m. AList.update (Addr_String a) 0 m) (dc_CheckAlive (vt_Conf d)) (vt_PingRecord d)\<rparr>"

text \<open>
  \<open>StartPingIPs\<close>: after the records are set up, a goroutine sends a round of pings again and again, and each
  ping that was written has a goroutine waiting for its reply.  An event is a round or what a waiting
  goroutine's read and parse gave.
\<close>

datatype ping_event =
    PingRound "addr \<Rightarrow> ping_env"
  | PongArrives addr handle ping_answer int

record pinger =
  pg_tun :: VirtualTun
  pg_waiting :: "(addr \<times> handle \<times> echo_request) list"
  pg_out :: "ping_effect list"

fun started_reply :: "ping_effect \<Rightarrow> (handle \<times> echo_request) list" where
  "started_reply (PGoReply socket req) = [(socket, req)]"
| "started_reply _ = []"

definition round_replies :: "VirtualTun \<Rightarrow> (addr \<Rightarrow> ping_env) \<Rightarrow> (addr \<times> handle \<times> echo_request) list" where
  "round_replies d env = concat (map (\<lambda>a. map (Pair a) (concat (map started_reply (ping_one a (env a)))))
     (dc_CheckAlive (vt_Conf d)))"

text \<open>\<open>None\<close>: the program has panicked.\<close>

fun ping_step :: "ping_event \<Rightarrow> pinger option \<Rightarrow> pinger option" where
  "ping_step ev None = None"
| "ping_step (PingRound env) (Some st) =
     Some (st\<lparr>pg_waiting := pg_waiting st @ round_replies (pg_tun st) env,
              pg_out := pg_out st @ pingIPs (pg_tun st) env\<rparr>)"
| "ping_step (PongArrives a socket answer now) (Some st) =
     (case List.find (\<lambda>(b, s, req). b = a \<and> s = socket) (pg_waiting st) of
        None \<Rightarrow> Some st
      | Some (b, s, req) \<Rightarrow>
          (case ping_reply (pg_tun st) a socket req answer now of
             None \<Rightarrow> None
           | Some (tun, effects) \<Rightarrow>
               Some (st\<lparr>pg_tun := tun, pg_waiting := remove1 (b, s, req) (pg_waiting st),
                        pg_out := pg_out st @ effects\<rparr>)))"

definition StartPingIPs :: "VirtualTun \<Rightarrow> ping_event list \<Rightarrow> pinger option" where
  "StartPingIPs d evs =
     fold ping_step evs (Some \<lparr>pg_tun = StartPingIPs_init d, pg_waiting = [], pg_out = []\<rparr>)"

section \<open>Properties\<close>

text \<open>
  C28: \<open>/readyz\<close> answers 200 exactly when the last pong of every recorded address is at most the check
  interval plus two seconds old, and 503 otherwise; the path is cleaned before it is compared.
\<close>

theorem readyz_status:
  assumes "path_Clean urlPath = ''/readyz''" and "0 \<le> dc_CheckAliveInterval (vt_Conf d)"
    and "dc_CheckAliveInterval (vt_Conf d) \<le> 1000000000" and "0 \<le> now" and "now < 2 ^ 62"
    and "\<forall>(k, r) \<in> set (vt_PingRecord d). unat r < 2 ^ 32"
  shows "hr_status (ServeHTTP d ipcGet now urlPath) =
    (if \<forall>(k, r) \<in> set (vt_PingRecord d).
          now \<le> (int (unat r) + dc_CheckAliveInterval (vt_Conf d) + 2) * 1000000000
     then 200 else 503)"
proof -
  let ?i = "dc_CheckAliveInterval (vt_Conf d)"
  have limit: "seconds (wrap64 (?i + 2)) = (?i + 2) * 1000000000"
    using assms(2,3) by (simp add: wrap64_id seconds_small)
  have "pong_stale ?i now r \<longleftrightarrow> \<not> now \<le> (int (unat r) + ?i + 2) * 1000000000"
    if "unat r < 2 ^ 32" for r :: "64 word"
  proof -
    have u: "int (unat r) < int (2 ^ 32)" using that by (simp only: of_nat_less_iff)
    have "sint r = int (unat r)"
    proof -
      from u have "uint r < 2 ^ 63" by simp
      moreover have "- (2 ^ 63) \<le> uint r" by (rule order_trans [of _ 0]) simp_all
      ultimately have "signed_take_bit 63 (uint r) = uint r" by (rule signed_take_bit_int_eq_self [rotated])
      then show ?thesis by (simp add: sint_uint)
    qed
    moreover have "in_int64 (now - int (unat r) * 1000000000)"
    proof -
      have "in_int64 (now - x * 1000000000)" if "0 \<le> x" "x < 4294967296" for x
        using that assms(4,5) by (auto simp: in_int64_def)
      with u show ?thesis by simp
    qed
    ultimately show ?thesis
      by (simp add: pong_stale_def limit time_Sub_exact) linarith
  qed
  with assms(6) have "(\<exists>(k, r) \<in> set (vt_PingRecord d). pong_stale ?i now r) \<longleftrightarrow>
      \<not> (\<forall>(k, r) \<in> set (vt_PingRecord d). now \<le> (int (unat r) + ?i + 2) * 1000000000)"
    by fastforce
  then show ?thesis
    using assms(1) by (auto simp: ServeHTTP_def Let_def list_ex_iff case_prod_unfold)
qed

definition demo_alive :: "int \<Rightarrow> (string \<times> 64 word) list \<Rightarrow> VirtualTun" where
  "demo_alive interval record =
     \<lparr>vt_SystemDNS = False, vt_Conf = default_device\<lparr>dc_CheckAlive := [V4 1 1 1 1, V4 8 8 8 8],
        dc_CheckAliveInterval := interval\<rparr>,
      vt_ResolveConfig = \<lparr>rc_ResolveStrategy = ''ipv4''\<rparr>, vt_PingRecord = record\<rparr>"

theorem readyz_status_witness:
  "hr_status (ServeHTTP (demo_alive 5 [(''1.1.1.1'', 100), (''8.8.8.8'', 93)]) (Inr []) 100500000000 ''//readyz/'') = 503 \<and>
   hr_status (ServeHTTP (demo_alive 5 [(''1.1.1.1'', 100), (''8.8.8.8'', 94)]) (Inr []) 100500000000 ''/readyz'') = 200"
proof -
  have "path_Clean ''//readyz/'' = ''/readyz''" and "path_Clean ''/readyz'' = ''/readyz''" by code_simp+
  with readyz_status [of "''//readyz/''" "demo_alive 5 [(''1.1.1.1'', 100), (''8.8.8.8'', 93)]" 100500000000 "Inr []"]
    readyz_status [of "''/readyz''" "demo_alive 5 [(''1.1.1.1'', 100), (''8.8.8.8'', 94)]" 100500000000 "Inr []"]
  show ?thesis by (simp add: demo_alive_def)
qed

text \<open>Two texts of \<open>IpcGet\<close> that differ in the values of the secret keys only.\<close>

definition same_but_secrets :: "string \<Rightarrow> string \<Rightarrow> bool" where
  "same_but_secrets g h \<longleftrightarrow>
     list_all2 (\<lambda>a b. a = b \<or>
       (\<exists>k \<in> {''private_key'', ''preshared_key''}. \<exists>v w. a = k @ ''='' @ v \<and> b = k @ ''='' @ w))
       (strings_Split (CHR 0x0A) g) (strings_Split (CHR 0x0A) h)"

lemma metrics_line_secret:
  assumes "k = ''private_key'' \<or> k = ''preshared_key''"
  shows "metrics_line (k @ ''='' @ v) = k @ ''=REDACTED'' @ [CHR 0x0A]"
proof -
  have "CHR ''='' \<notin> set k" using assms by auto
  then have "strings_SplitN2 (CHR ''='') (k @ ''='' @ v) = [k, v]"
    using strings_SplitN2_append [of "CHR ''=''" k v] by simp
  then show ?thesis using assms by (simp add: metrics_line_def Let_def)
qed

text \<open>
  C18: \<open>/metrics\<close> does not depend on the secret keys: two device states whose \<open>IpcGet\<close> output differs only
  in the values of \<open>private_key\<close> and \<open>preshared_key\<close> give the same reply, and every such line appears as
  \<open>REDACTED\<close>.
\<close>

theorem metrics_hide_secrets:
  assumes "same_but_secrets g h"
  shows "ServeHTTP d (Inr g) now urlPath = ServeHTTP d (Inr h) now urlPath \<and>
    metrics_line (''private_key='' @ v) = ''private_key=REDACTED'' @ [CHR 0x0A] \<and>
    metrics_line (''preshared_key='' @ v) = ''preshared_key=REDACTED'' @ [CHR 0x0A]"
proof -
  have "list_all2 (\<lambda>a b. metrics_line a = metrics_line b) (strings_Split (CHR 0x0A) g) (strings_Split (CHR 0x0A) h)"
    using assms unfolding same_but_secrets_def
  proof (rule list_all2_mono)
    fix a b
    assume "a = b \<or> (\<exists>k \<in> {''private_key'', ''preshared_key''}. \<exists>v w. a = k @ ''='' @ v \<and> b = k @ ''='' @ w)"
    then show "metrics_line a = metrics_line b"
    proof (elim disjE bexE exE conjE)
      fix k v w
      assume "k \<in> {''private_key'', ''preshared_key''}" and "a = k @ ''='' @ v" and "b = k @ ''='' @ w"
      then show ?thesis using metrics_line_secret [of k v] metrics_line_secret [of k w] by force
    qed simp
  qed
  then have "map metrics_line (strings_Split (CHR 0x0A) g) = map metrics_line (strings_Split (CHR 0x0A) h)"
    by (simp add: list_all2_conv_all_nth list_eq_iff_nth_eq)
  then have "metrics_body g = metrics_body h" by (simp add: metrics_body_def)
  then show ?thesis
    using metrics_line_secret [of "''private_key''" v] metrics_line_secret [of "''preshared_key''" v]
    by (simp add: ServeHTTP_def Let_def)
qed

theorem metrics_hide_secrets_witness:
  "ServeHTTP (demo_alive 5 []) (Inr (''private_key=00aa'' @ [CHR 0x0A] @ ''fwmark=0'' @ [CHR 0x0A])) 0 ''/metrics'' =
   ServeHTTP (demo_alive 5 []) (Inr (''private_key=ffbb'' @ [CHR 0x0A] @ ''fwmark=0'' @ [CHR 0x0A])) 0 ''/metrics''"
proof -
  have "strings_Split (CHR 0x0A) (''private_key=00aa'' @ [CHR 0x0A] @ ''fwmark=0'' @ [CHR 0x0A]) =
      [''private_key='' @ ''00aa'', ''fwmark=0'', []]"
    and "strings_Split (CHR 0x0A) (''private_key=ffbb'' @ [CHR 0x0A] @ ''fwmark=0'' @ [CHR 0x0A]) =
      [''private_key='' @ ''ffbb'', ''fwmark=0'', []]" by code_simp+
  then have "same_but_secrets (''private_key=00aa'' @ [CHR 0x0A] @ ''fwmark=0'' @ [CHR 0x0A])
      (''private_key=ffbb'' @ [CHR 0x0A] @ ''fwmark=0'' @ [CHR 0x0A])"
    by (simp add: same_but_secrets_def)
  from metrics_hide_secrets [OF this] show ?thesis by blast
qed

text \<open>The ICMPv6 body the package leaves unparsed: identifier, sequence number, data.\<close>

definition echo_reply_body :: "addr \<Rightarrow> char \<Rightarrow> char \<Rightarrow> int \<Rightarrow> string \<Rightarrow> icmp_body" where
  "echo_reply_body a id1 id2 seq data =
     (if Addr_Is4 a then EchoBody seq data
      else RawBody ([id1, id2, char_of (nat seq div 256), char_of (nat seq mod 256)] @ data))"

text \<open>
  A ping is answered only by its own echo: for an address of either family, a reply carrying a
  sequence number and data is accepted exactly when both are those of the request, and then the
  address's record becomes the current time and the socket is closed; a rejected or missing reply
  changes no record and leaves the socket open.
\<close>

theorem pong_matches_ping:
  assumes "Addr_Is4 a \<or> Addr_Is6 a" and "0 \<le> seq" and "seq < 65536"
  shows "ping_reply d a socket req (Reply \<lparr>im_Type = ty, im_Body = echo_reply_body a id1 id2 seq data, im_Printed = shown\<rparr>) now =
    (if seq = er_Seq req \<and> data = er_Data req
     then Some (d\<lparr>vt_PingRecord := AList.update (Addr_String a) (of_int (now div 1000000000)) (vt_PingRecord d)\<rparr>,
            [PRecord (Addr_String a), PClose socket])
     else Some (d, [PLog (''Failed to parse ping response from '' @ Addr_String a @ '': invalid ping reply: '' @ shown)]))"
proof -
  have "nat seq div 256 < 256" using assms(2,3) by (simp add: less_mult_imp_div_less)
  then have "be16 (char_of (nat seq div 256)) (char_of (nat seq mod 256)) = seq"
    using assms(2) by (simp add: be16_def)
  moreover have "\<not> (Addr_Is4 a \<and> Addr_Is6 a)" using Addr_Is4_Is6 by blast
  ultimately show ?thesis
    using assms(1) by (auto simp: ping_reply_def check_pong_def echo_reply_body_def)
qed

theorem pong_matches_ping_witness:
  "ping_reply (demo_alive 5 []) (V6 [0, 0, 0, 0, 0, 0, 0, 1] []) 7 \<lparr>er_Seq = 258, er_Data = ''xyz''\<rparr>
     (Reply \<lparr>im_Type = ''echo reply'', im_Body = echo_reply_body (V6 [0, 0, 0, 0, 0, 0, 0, 1] []) CHR ''a'' CHR ''b'' 258 ''xyz'',
        im_Printed = []\<rparr>) 5000000000 \<noteq> None"
proof -
  have "Addr_Is4 (V6 [0, 0, 0, 0, 0, 0, 0, 1] []) \<or> Addr_Is6 (V6 [0, 0, 0, 0, 0, 0, 0, 1] [])" by code_simp
  from pong_matches_ping [OF this, of 258] show ?thesis by simp
qed

lemma pings_initialised:
  assumes "a \<in> set (dc_CheckAlive (vt_Conf d))"
  shows "(Addr_String a, 0) \<in> set (vt_PingRecord (StartPingIPs_init d))"
proof -
  have keep: "map_of (fold (\<lambda>a m. AList.update (Addr_String a) (0 :: 64 word) m) as m) k = Some 0"
    if "map_of m k = Some 0 \<or> k \<in> Addr_String ` set as" for as m k
    using that
    by (induction as arbitrary: m) (auto simp: update_conv')
  then have "map_of (vt_PingRecord (StartPingIPs_init d)) (Addr_String a) = Some 0"
    using assms by (simp add: StartPingIPs_init_def)
  then show ?thesis by (rule map_of_SomeD)
qed

text \<open>
  After \<open>StartPingIPs\<close> every configured address has a record that counts as never answered, so that
  \<open>/readyz\<close> reports 503 until the first pongs arrive.
\<close>

theorem unready_until_pong:
  assumes "a \<in> set (dc_CheckAlive (vt_Conf d))" and "path_Clean urlPath = ''/readyz''"
    and "0 \<le> dc_CheckAliveInterval (vt_Conf d)" and "dc_CheckAliveInterval (vt_Conf d) \<le> 1000000000"
    and "(dc_CheckAliveInterval (vt_Conf d) + 2) * 1000000000 < now" and "now < 2 ^ 62"
  shows "hr_status (ServeHTTP (StartPingIPs_init d) ipcGet now urlPath) = 503"
proof -
  have "pong_stale (dc_CheckAliveInterval (vt_Conf d)) now 0"
    using assms(3-6) by (simp add: pong_stale_def wrap64_id seconds_small time_Sub_exact in_int64_def)
  with pings_initialised [OF assms(1)]
  have "list_ex (\<lambda>(k, r). pong_stale (dc_CheckAliveInterval (vt_Conf d)) now r) (vt_PingRecord (StartPingIPs_init d))"
    by (auto simp: list_ex_iff intro!: bexI [rotated])
  moreover have "vt_Conf (StartPingIPs_init d) = vt_Conf d" by (simp add: StartPingIPs_init_def)
  ultimately show ?thesis using assms(2) by (simp add: ServeHTTP_def)
qed

theorem unready_until_pong_witness:
  "hr_status (ServeHTTP (StartPingIPs_init (demo_alive 5 [])) (Inr []) 1700000000000000000 ''/readyz'') = 503"
proof -
  have "path_Clean ''/readyz'' = ''/readyz''" by code_simp
  with unready_until_pong [of "V4 1 1 1 1" "demo_alive 5 []" "''/readyz''" 1700000000000000000 "Inr []"]
  show ?thesis by (simp add: demo_alive_def)
qed

section \<open>The records over time\<close>

text \<open>
  The body of a reply echoes a request: the sequence number and the data are the request's.  ICMPv6
  bodies come unparsed: two bytes of identifier, two of sequence number, the data.
\<close>

definition echoes :: "addr \<Rightarrow> echo_request \<Rightarrow> icmp_body \<Rightarrow> bool" where
  "echoes a req body \<longleftrightarrow>
     Addr_Is4 a \<and> body = EchoBody (er_Seq req) (er_Data req) \<or>
     Addr_Is6 a \<and> (\<exists>id1 id2 hi lo. body = RawBody ([id1, id2, hi, lo] @ er_Data req) \<and>
       int (of_char hi) * 256 + int (of_char lo) = er_Seq req)"

text \<open>A reply that some event brings, at second \<open>r\<close>, for a request some round has sent to address \<open>k\<close>.\<close>

definition answered_at :: "ping_event list \<Rightarrow> string \<Rightarrow> 64 word \<Rightarrow> bool" where
  "answered_at evs k r \<longleftrightarrow> (\<exists>a socket req env msg now. PingRound env \<in> set evs \<and>
     PGoReply socket req \<in> set (ping_one a (env a)) \<and> PongArrives a socket (Reply msg) now \<in> set evs \<and>
     echoes a req (im_Body msg) \<and> k = Addr_String a \<and> r = of_int (now div 1000000000))"

lemma accepted_echoes:
  assumes "check_pong a req msg = PongAccepted" and "Addr_Is4 a \<or> Addr_Is6 a"
  shows "echoes a req (im_Body msg)"
proof (cases "Addr_Is4 a")
  case True
  with assms(1) show ?thesis
    by (auto simp: check_pong_def echoes_def split: icmp_body.splits if_splits)
next
  case False
  with assms obtain raw where raw: "im_Body msg = RawBody raw" "4 \<le> length raw"
    "drop 4 raw = er_Data req" "be16 (raw ! 2) (raw ! 3) = er_Seq req"
    by (auto simp: check_pong_def split: icmp_body.splits if_splits)
  from raw(2) obtain c0 c1 c2 c3 rest where "raw = [c0, c1, c2, c3] @ rest"
    by (cases raw rule: list.exhaust; cases "tl raw"; cases "tl (tl raw)"; cases "tl (tl (tl raw))") auto
  with raw False assms(2) show ?thesis by (auto simp: echoes_def be16_def)
qed

lemma sent_to_ip: "PGoReply socket req \<in> set (ping_one a e) \<Longrightarrow> Addr_Is4 a \<or> Addr_Is6 a"
  by (auto simp: ping_one_def Let_def split: sum.splits if_splits option.splits)

definition pings_inv :: "DeviceConfig \<Rightarrow> ping_event list \<Rightarrow> pinger \<Rightarrow> bool" where
  "pings_inv conf evs st \<longleftrightarrow> vt_Conf (pg_tun st) = conf \<and>
     (\<forall>(a, socket, req) \<in> set (pg_waiting st). a \<in> set (dc_CheckAlive conf) \<and>
        (\<exists>env. PingRound env \<in> set evs \<and> PGoReply socket req \<in> set (ping_one a (env a)))) \<and>
     (\<forall>(k, r) \<in> set (vt_PingRecord (pg_tun st)). r = 0 \<or> answered_at evs k r) \<and>
     fst ` set (vt_PingRecord (pg_tun st)) = Addr_String ` set (dc_CheckAlive conf)"

lemma answered_at_mono: "answered_at evs k r \<Longrightarrow> set evs \<subseteq> set evs' \<Longrightarrow> answered_at evs' k r"
  unfolding answered_at_def by blast

lemma pings_inv_mono: "pings_inv conf evs st \<Longrightarrow> set evs \<subseteq> set evs' \<Longrightarrow> pings_inv conf evs' st"
  unfolding pings_inv_def using answered_at_mono [of evs _ _ evs'] by fast

lemma pings_inv_Cons: "pings_inv conf evs st \<Longrightarrow> pings_inv conf (ev # evs) st"
  by (rule pings_inv_mono) auto

lemma in_started_reply: "x \<in> set (started_reply e) \<longleftrightarrow> e = PGoReply (fst x) (snd x)"
  by (cases x; cases e) auto

lemma in_round_replies:
  "(a, socket, req) \<in> set (round_replies d env) \<longleftrightarrow>
     a \<in> set (dc_CheckAlive (vt_Conf d)) \<and> PGoReply socket req \<in> set (ping_one a (env a))"
  by (fastforce simp: round_replies_def in_started_reply)

lemma ping_reply_cases:
  assumes "ping_reply d a socket req answer now = Some (d', effects)"
  obtains "d' = d" | msg where "answer = Reply msg" "check_pong a req msg = PongAccepted"
    "d' = d\<lparr>vt_PingRecord := AList.update (Addr_String a) (of_int (now div 1000000000)) (vt_PingRecord d)\<rparr>"
  using assms by (auto simp: ping_reply_def split: ping_answer.splits pong.splits)

lemma in_update: "(j, v) \<in> set (AList.update k w m) \<Longrightarrow> (j, v) = (k, w) \<or> (j, v) \<in> set m"
  by (induction m) (auto split: if_splits)

lemma pings_inv_step:
  assumes "pings_inv conf evs st" and "ping_step ev (Some st) = Some st'"
  shows "pings_inv conf (ev # evs) st'"
proof (cases ev)
  case (PingRound env)
  with assms(2) have st': "st' = st\<lparr>pg_waiting := pg_waiting st @ round_replies (pg_tun st) env,
      pg_out := pg_out st @ pingIPs (pg_tun st) env\<rparr>" by simp
  have "\<forall>(a, socket, req) \<in> set (round_replies (pg_tun st) env). a \<in> set (dc_CheckAlive (vt_Conf (pg_tun st))) \<and>
      (\<exists>env. PingRound env \<in> set (ev # evs) \<and> PGoReply socket req \<in> set (ping_one a (env a)))"
    using PingRound by (auto simp: in_round_replies)
  with pings_inv_Cons [OF assms(1)] show ?thesis
    by (simp add: st' pings_inv_def ball_Un del: list.set)
next
  case (PongArrives a socket answer now)
  note inv = pings_inv_Cons [OF assms(1), of ev]
  show ?thesis
  proof (cases "List.find (\<lambda>(b, s, req). b = a \<and> s = socket) (pg_waiting st)")
    case None
    with assms(2) PongArrives inv show ?thesis by auto
  next
    case (Some w)
    then obtain req where w: "w = (a, socket, req)" "(a, socket, req) \<in> set (pg_waiting st)"
      using find_SomeD [OF Some] by (cases w) auto
    obtain tun effects where r: "ping_reply (pg_tun st) a socket req answer now = Some (tun, effects)"
      and st': "st' = st\<lparr>pg_tun := tun, pg_waiting := remove1 (a, socket, req) (pg_waiting st), pg_out := pg_out st @ effects\<rparr>"
      using assms(2) PongArrives Some w(1) by (auto split: option.splits prod.splits)
    have a: "a \<in> set (dc_CheckAlive conf)"
      and sent: "\<exists>env. PingRound env \<in> set evs \<and> PGoReply socket req \<in> set (ping_one a (env a))"
      using assms(1) w(2) by (auto simp: pings_inv_def)
    from r show ?thesis
    proof (cases rule: ping_reply_cases)
      case 1
      with inv show ?thesis by (auto simp: st' pings_inv_def dest: notin_set_remove1 set_remove1_subset [THEN subsetD])
    next
      case (2 msg)
      then have "echoes a req (im_Body msg)" using sent sent_to_ip accepted_echoes by blast
      with 2 have "answered_at (ev # evs) (Addr_String a) (of_int (now div 1000000000))"
        using sent PongArrives unfolding answered_at_def by (metis list.set_intros)
      with inv a show ?thesis
        by (auto simp: st' 2(3) pings_inv_def dom_update dest!: in_update set_remove1_subset [THEN subsetD])
    qed
  qed
qed

lemma ping_step_None: "fold ping_step evs None = None"
  by (induction evs) auto

lemma pings_run:
  assumes "fold ping_step evs (Some st) = Some st'" and "pings_inv conf past st"
  shows "pings_inv conf (rev evs @ past) st'"
  using assms
proof (induction evs arbitrary: st past)
  case (Cons ev evs)
  then obtain st1 where "ping_step ev (Some st) = Some st1" "fold ping_step evs (Some st1) = Some st'"
    by (cases "ping_step ev (Some st)") (auto simp: ping_step_None)
  with Cons.IH [of st1 "ev # past"] pings_inv_step Cons.prems(2) show ?case by auto
qed simp

lemma pings_inv_init:
  assumes "vt_PingRecord d = []"
  shows "pings_inv (vt_Conf d) [] \<lparr>pg_tun = StartPingIPs_init d, pg_waiting = [], pg_out = []\<rparr>"
proof -
  have "fst ` set (fold (\<lambda>a m. AList.update (Addr_String a) (0 :: 64 word) m) as m) = Addr_String ` set as \<union> fst ` set m"
    for as m by (induction as arbitrary: m) (auto simp: dom_update)
  moreover have "r = 0" if "(k, r) \<in> set (fold (\<lambda>a m. AList.update (Addr_String a) (0 :: 64 word) m) as m)"
    "\<forall>(k, r) \<in> set m. r = 0" for k r as m
    using that by (induction as arbitrary: m) (fastforce dest: in_update)+
  ultimately show ?thesis
    using assms by (fastforce simp: pings_inv_def StartPingIPs_init_def)
qed

text \<open>
  C29: The health records are sound: over any number of rounds and replies, the records are exactly those of
  the configured addresses, and a record is either zero or the second at which a reply arrived on the
  socket of a request sent to that very address, with that request's sequence number and data.
\<close>

theorem ping_records_sound:
  assumes "StartPingIPs d evs = Some st" and "vt_PingRecord d = []"
  shows "fst ` set (vt_PingRecord (pg_tun st)) = Addr_String ` set (dc_CheckAlive (vt_Conf d)) \<and>
    (\<forall>(k, r) \<in> set (vt_PingRecord (pg_tun st)). r = 0 \<or> answered_at evs k r)"
proof -
  have "pings_inv (vt_Conf d) (rev evs @ []) st"
    by (rule pings_run [OF assms(1) [unfolded StartPingIPs_def] pings_inv_init [OF assms(2)]])
  then have "pings_inv (vt_Conf d) evs st" by (rule pings_inv_mono) simp
  then show ?thesis by (simp add: pings_inv_def)
qed

definition demo_pings :: "ping_event list" where
  "demo_pings = [PingRound (\<lambda>a. \<lparr>pe_dial = Inr (if a = V4 1 1 1 1 then 3 else 4), pe_seq = 9, pe_data = ''0123456789abcdef'',
       pe_write = None\<rparr>),
     PongArrives (V4 1 1 1 1) 3 (Reply \<lparr>im_Type = ''echo reply'', im_Body = EchoBody 9 ''0123456789abcdef'', im_Printed = []\<rparr>) 77000000000,
     PongArrives (V4 8 8 8 8) 4 (Reply \<lparr>im_Type = ''echo reply'', im_Body = EchoBody 8 ''0123456789abcdef'', im_Printed = []\<rparr>) 78000000000]"

theorem ping_records_sound_witness:
  "\<exists>st. StartPingIPs (demo_alive 5 []) demo_pings = Some st \<and>
     vt_PingRecord (pg_tun st) = [(''1.1.1.1'', 77), (''8.8.8.8'', 0)] \<and> answered_at demo_pings ''1.1.1.1'' 77"
proof -
  have "map_option (vt_PingRecord \<circ> pg_tun) (StartPingIPs (demo_alive 5 []) demo_pings) =
      Some [(''1.1.1.1'', 77), (''8.8.8.8'', 0)]" by code_simp
  then obtain st where st: "StartPingIPs (demo_alive 5 []) demo_pings = Some st"
    "vt_PingRecord (pg_tun st) = [(''1.1.1.1'', 77), (''8.8.8.8'', 0)]" by auto
  with ping_records_sound [OF st(1)] show ?thesis by (simp add: demo_alive_def)
qed

end
