(* ===== verification/Cli.thy ===== *)
theory Cli
  imports Wireguard Health
begin

text \<open>
  \<open>cmd/wireproxy\<close>: the command line program.  Its run is the list of the actions it takes on the
  system, in order, and how it ends.  The argument parser, the sandboxing system calls and the process
  environment are parameters.
\<close>

section \<open>Sandboxing\<close>

datatype rule =
    RODirs string
  | ROFiles string
  | RWFiles string
  | BindTCP "16 word"
  | ConnectTCP "16 word"

datatype sys_action =
    Unveil string string
  | Pledge string
  | RestrictPaths "rule list"
  | RestrictNet "rule list"
  | PreferGo
  | StdioToNull
  | StdoutToStderr

text \<open>\<open>os.Executable\<close>, or the first argument where it fails.\<close>

definition executablePath :: "string result \<Rightarrow> string list \<Rightarrow> string" where
  "executablePath exe args = (case exe of Inl e \<Rightarrow> hd args | Inr p \<Rightarrow> p)"

definition default_config_paths :: "string \<Rightarrow> string list" where
  "default_config_paths home = [''/etc/wireproxy/wireproxy.conf'', home @ ''/.config/wireproxy.conf'']"

definition configFilePath :: "(string \<Rightarrow> bool) \<Rightarrow> string \<Rightarrow> string option" where
  "configFilePath stat home = find stat (default_config_paths home)"

definition tlsFilePaths :: "'re routine list \<Rightarrow> string list" where
  "tlsFilePaths routines = concat (map (\<lambda>r. case r of
       HTTP h \<Rightarrow> (if http_CertFile h \<noteq> [] then [http_CertFile h] else []) @
                 (if http_KeyFile h \<noteq> [] then [http_KeyFile h] else [])
     | _ \<Rightarrow> []) routines)"

text \<open>The rules of stage \<open>ready\<close>; all but the root directory are ignored if missing.\<close>

definition ready_rules :: "rule list" where
  "ready_rules = map ROFiles [''/etc/resolv.conf'', ''/dev/fd'', ''/dev/zero'', ''/dev/urandom'', ''/etc/localtime'',
     ''/proc/self/stat'', ''/proc/self/status'', ''/usr/share/locale'', ''/proc/self/cmdline'', ''/usr/share/zoneinfo'',
     ''/proc/sys/kernel/version'', ''/proc/sys/kernel/ngroups_max'', ''/proc/sys/kernel/cap_last_cap'',
     ''/proc/sys/vm/overcommit_memory''] @
     map RWFiles [''/dev/log'', ''/dev/null'', ''/dev/full'', ''/proc/self/fd'']"

text \<open>\<open>None\<close> is the panic of an unknown stage.\<close>

definition lock :: "string \<Rightarrow> string \<Rightarrow> string list \<Rightarrow> sys_action list option" where
  "lock exePath stage roFiles =
     (if stage = ''boot'' then
        Some [Unveil ''/'' ''r'', Unveil exePath ''x'', Pledge ''stdio rpath inet dns proc exec'',
              RestrictPaths [RODirs ''/'', RWFiles ''/dev/null'']]
      else if stage = ''boot-daemon'' then Some []
      else if stage = ''read-config'' then Some [Pledge ''stdio rpath inet dns'']
      else if stage = ''ready'' then
        Some [Pledge ''stdio inet dns'', PreferGo, RestrictPaths (ready_rules @ map ROFiles roFiles)]
      else None)"

text \<open>\<open>None\<close> is a panic; the conversion to \<open>uint16\<close> keeps the low 16 bits.\<close>

definition extractPort :: "string \<Rightarrow> 16 word option" where
  "extractPort addr =
     (case net_SplitHostPort addr of
        Inl e \<Rightarrow> None
      | Inr (host, portStr) \<Rightarrow> map_option of_int (strconv_Atoi portStr))"

fun section_rules :: "'re routine \<Rightarrow> rule list option" where
  "section_rules (TCPServerTunnel c) = map_option (\<lambda>p. [ConnectTCP p]) (extractPort (tst_Target c))"
| "section_rules (HTTP c) = map_option (\<lambda>p. [BindTCP p]) (extractPort (http_BindAddress c))"
| "section_rules (TCPClientTunnel c) = Some [BindTCP (of_int (ta_Port (tct_BindAddress c)))]"
| "section_rules (Socks5 c) = map_option (\<lambda>p. [BindTCP p]) (extractPort (s5_BindAddress c))"
| "section_rules (SNI c) = map_option (\<lambda>p. [BindTCP p]) (extractPort (sni_BindAddress c))"
| "section_rules _ = Some []"

definition lockNetwork :: "'re routine list \<Rightarrow> string \<Rightarrow> rule list option" where
  "lockNetwork sections infoAddr =
     (case (if infoAddr \<noteq> [] then map_option (\<lambda>p. [BindTCP p]) (extractPort infoAddr) else Some []) of
        None \<Rightarrow> None
      | Some rules \<Rightarrow> map_option (\<lambda>rs. rules @ concat rs) (those (map section_rules sections)))"

text \<open>\<open>landlock_android.go\<close> and \<open>landlock_other.go\<close>: the platform decides whether the rules are applied.\<close>

datatype platform = Android | OtherOS

definition restrictPaths_android :: "rule list \<Rightarrow> go_error option" where
  "restrictPaths_android rules = None"

definition restrictNet_android :: "rule list \<Rightarrow> go_error option" where
  "restrictNet_android rules = None"

definition restrictPaths :: "platform \<Rightarrow> (rule list \<Rightarrow> go_error option) \<Rightarrow> rule list \<Rightarrow> go_error option" where
  "restrictPaths os landlock rules = (case os of Android \<Rightarrow> restrictPaths_android rules | OtherOS \<Rightarrow> landlock rules)"

definition restrictNet :: "platform \<Rightarrow> (rule list \<Rightarrow> go_error option) \<Rightarrow> rule list \<Rightarrow> go_error option" where
  "restrictNet os landlock rules = (case os of Android \<Rightarrow> restrictNet_android rules | OtherOS \<Rightarrow> landlock rules)"

section \<open>The main program\<close>

record flags =
  fl_config :: string
  fl_silent :: bool
  fl_daemon :: bool
  fl_info :: string
  fl_version :: bool
  fl_configTest :: bool

record ('file, 'sec, 'key, 're) main_env =
  me_Executable :: "string result"
  me_Args :: "string list"
  me_Home :: string
  me_Stat :: "string \<Rightarrow> bool"
  me_parse :: "string list \<Rightarrow> flags result"
  me_platform :: platform
  me_sys :: "sys_action \<Rightarrow> go_error option"
  me_cfg :: "('file, 'sec, 'key, 're) config_env"
  me_wg :: wg_env
  me_net :: net_env
  me_start :: "go_error option"

datatype 're action =
    Sys sys_action
  | Say string
  | Parsed string
  | Forked string "string list"
  | Started int
  | BoundTo "'re routine"
  | Serves "'re routine"
  | Pings
  | ServesInfo string

datatype exit = Exits | Fatal go_error | Panics | Waits

definition daemonProcess :: string where
  "daemonProcess = ''daemon-process''"

text \<open>One system action: its failure is \<open>log.Fatal\<close>.\<close>

definition sys_call :: "('file, 'sec, 'key, 're) main_env \<Rightarrow> sys_action \<Rightarrow> go_error option" where
  "sys_call M a = (case a of
       RestrictPaths rs \<Rightarrow> restrictPaths (me_platform M) (\<lambda>rs. me_sys M (RestrictPaths rs)) rs
     | RestrictNet rs \<Rightarrow> restrictNet (me_platform M) (\<lambda>rs. me_sys M (RestrictNet rs)) rs
     | PreferGo \<Rightarrow> None
     | StdioToNull \<Rightarrow> None
     | StdoutToStderr \<Rightarrow> None
     | _ \<Rightarrow> me_sys M a)"

text \<open>Actions in turn, then the rest of the program.\<close>

fun sys_then :: "('file, 'sec, 'key, 're) main_env \<Rightarrow> sys_action list \<Rightarrow> 're action list \<times> exit \<Rightarrow> 're action list \<times> exit" where
  "sys_then M [] rest = rest"
| "sys_then M (a # as) rest =
     (case sys_call M a of
        Some e \<Rightarrow> ([Sys a], Fatal e)
      | None \<Rightarrow> (case sys_then M as rest of (t, x) \<Rightarrow> (Sys a # t, x)))"

definition lock_then ::
  "('file, 'sec, 'key, 're) main_env \<Rightarrow> string \<Rightarrow> string list \<Rightarrow> 're action list \<times> exit \<Rightarrow> 're action list \<times> exit" where
  "lock_then M stage files rest =
     (case lock (executablePath (me_Executable M) (me_Args M)) stage files of
        None \<Rightarrow> ([], Panics)
      | Some as \<Rightarrow> sys_then M as rest)"

text \<open>
  The two loops over the routines: everything is bound before anything is served.  \<open>Waits\<close> is the end of
  \<open>main\<close> with its goroutines running; \<open>main_running\<close> below is what they can make of it.
\<close>

fun bind_all :: "net_env \<Rightarrow> 're routine list \<Rightarrow> 're routine list \<times> go_error option" where
  "bind_all N [] = ([], None)"
| "bind_all N (r # rs) =
     (case routine_Bind N r of
        (Some e, r') \<Rightarrow> ([], Some e)
      | (None, r') \<Rightarrow> (case bind_all N rs of (done, err) \<Rightarrow> (r' # done, err)))"

definition run_routines :: "net_env \<Rightarrow> 're routine list \<Rightarrow> string \<Rightarrow> 're action list \<times> exit" where
  "run_routines N rs info =
     (case bind_all N rs of
        (done, Some e) \<Rightarrow> (map BoundTo done, Fatal e)
      | (done, None) \<Rightarrow>
          (map BoundTo done @ map Serves done @ [Pings] @ (if info \<noteq> [] then [ServesInfo info] else []), Waits))"

definition start_and_run ::
  "('file, 'sec, 'key, 're) main_env \<Rightarrow> flags \<Rightarrow> 're Configuration \<Rightarrow> 're action list \<times> exit" where
  "start_and_run M fl conf =
     (let level = (if fl_silent fl then 0 else 2) in
      case StartWireguard (me_wg M) conf level of
        (calls, conf', Inl e) \<Rightarrow> ([Started level], Fatal e)
      | (calls, conf', Inr tun) \<Rightarrow>
          (case run_routines (me_net M) (conf_Routines conf') (fl_info fl) of
             (t, x) \<Rightarrow> (Started level # t, x)))"

text \<open>The process spawned by \<open>-d\<close> clears its own flag; the others fork and return.\<close>

definition fork_or_run ::
  "('file, 'sec, 'key, 're) main_env \<Rightarrow> flags \<Rightarrow> bool \<Rightarrow> string list \<Rightarrow> 're Configuration \<Rightarrow> 're action list \<times> exit" where
  "fork_or_run M fl isDaemonProcess args conf =
     (if fl_daemon fl \<and> \<not> isDaemonProcess then
        ([Forked (executablePath (me_Executable M) (me_Args M)) (daemonProcess # tl args)] @
           (case me_start M of None \<Rightarrow> [] | Some e \<Rightarrow> [Say (err_Error e)]), Exits)
      else sys_then M [StdoutToStderr]
             (lock_then M ''ready'' (tlsFilePaths (conf_Routines conf)) (start_and_run M fl conf)))"

text \<open>
  The child process discards its output before it clears its flag; errors of opening the null device are
  ignored.
\<close>

definition after_config ::
  "('file, 'sec, 'key, 're) main_env \<Rightarrow> flags \<Rightarrow> bool \<Rightarrow> string list \<Rightarrow> 're Configuration \<Rightarrow> 're action list \<times> exit" where
  "after_config M fl isDaemonProcess args conf =
     (if fl_configTest fl then ([Say ''Config OK''], Exits)
      else case lockNetwork (conf_Routines conf) (fl_info fl) of
        None \<Rightarrow> ([], Panics)
      | Some rules \<Rightarrow>
          sys_then M (RestrictNet rules # (if isDaemonProcess then [StdioToNull] else []))
            (fork_or_run M fl isDaemonProcess args conf))"

definition is_daemon :: "('file, 'sec, 'key, 're) main_env \<Rightarrow> bool" where
  "is_daemon M \<longleftrightarrow> length (me_Args M) > 1 \<and> me_Args M ! 1 = daemonProcess"

definition main_args :: "('file, 'sec, 'key, 're) main_env \<Rightarrow> string list" where
  "main_args M = (if is_daemon M then hd (me_Args M) # drop 2 (me_Args M) else me_Args M)"

definition main :: "('file, 'sec, 'key, 're) main_env \<Rightarrow> 're action list \<times> exit" where
  "main M =
     (let isDaemonProcess = is_daemon M;
          args = main_args M
      in lock_then M ''boot'' []
           ((if isDaemonProcess then lock_then M ''boot-daemon'' [] else (\<lambda>rest. rest))
             (case me_parse M args of
                Inl e \<Rightarrow> ([Say (err_Error e)], Exits)
              | Inr fl \<Rightarrow>
                  if fl_version fl then ([Say ''wireproxy, version 1.0.8-dev''], Exits)
                  else
                    (case (if fl_config fl = [] then configFilePath (me_Stat M) (me_Home M) else Some (fl_config fl)) of
                       None \<Rightarrow> ([Say ''configuration path is required''], Exits)
                     | Some path \<Rightarrow>
                         (if \<not> fl_daemon fl then lock_then M ''read-config'' [] else (\<lambda>rest. rest))
                           (case ParseConfig (me_cfg M) path of
                              Inl e \<Rightarrow> ([Parsed path], Fatal e)
                            | Inr conf \<Rightarrow>
                                (case after_config M fl isDaemonProcess args conf of (t, x) \<Rightarrow> (Parsed path # t, x)))))))"

text \<open>
  Once goroutines run, the process can end while \<open>main\<close> goes on or waits: a \<open>Serve\<close> that returns an error
  is \<open>log.Fatal\<close>, one that returns nil is not; the info server's error is a panic.  \<open>SIGINT\<close> and \<open>SIGQUIT\<close>
  only cancel the context \<open>main\<close> waits for at its end.
\<close>

datatype 're run_event =
    ServeReturns "'re routine" "go_error option"
  | InfoReturns "go_error option"
  | Signalled

text \<open>How an event ends the process, if it does; \<open>t\<close> is what \<open>main\<close> has done, \<open>waiting\<close> whether that is all.\<close>

fun event_exit :: "'re run_event \<Rightarrow> 're action list \<Rightarrow> bool \<Rightarrow> exit option" where
  "event_exit (ServeReturns r err) t waiting =
     (if Serves r \<in> set t then map_option Fatal err else None)"
| "event_exit (InfoReturns err) t waiting =
     (if list_ex (\<lambda>a. case a of ServesInfo _ \<Rightarrow> True | _ \<Rightarrow> False) t then map_option (\<lambda>_. Panics) err else None)"
| "event_exit Signalled t waiting = (if waiting then Some Exits else None)"

text \<open>The run with event \<open>ev\<close> after the first \<open>n\<close> actions.\<close>

definition main_running ::
  "('file, 'sec, 'key, 're) main_env \<Rightarrow> nat \<Rightarrow> 're run_event \<Rightarrow> 're action list \<times> exit" where
  "main_running M n ev =
     (case main M of (t, x) \<Rightarrow>
        if x \<noteq> Waits then (t, x)
        else case event_exit ev (take n t) (length t \<le> n) of
               None \<Rightarrow> (t, Waits)
             | Some y \<Rightarrow> (take n t, y))"

section \<open>Lemmas\<close>

text \<open>
  \<open>R\<close> is the run of \<open>rest\<close> after some system actions, or those actions only, ended by a failure.
\<close>

definition leads_to :: "'re action list \<times> exit \<Rightarrow> 're action list \<times> exit \<Rightarrow> bool" where
  "leads_to R rest \<longleftrightarrow>
     (\<exists>as. R = (map Sys as @ fst rest, snd rest)) \<or> (\<exists>as x. R = (map Sys as, x) \<and> x \<noteq> Waits \<and> x \<noteq> Exits)"

lemma leads_to_refl: "leads_to rest rest"
  unfolding leads_to_def by (rule disjI1, rule exI [of _ "[]"]) simp

lemma leads_to_Cons:
  assumes "leads_to R rest"
  shows "leads_to (Sys a # fst R, snd R) rest"
  using assms unfolding leads_to_def
proof (elim disjE exE conjE)
  fix as assume "R = (map Sys as @ fst rest, snd rest)"
  then have "(Sys a # fst R, snd R) = (map Sys (a # as) @ fst rest, snd rest)" by simp
  then show "(\<exists>as. (Sys a # fst R, snd R) = (map Sys as @ fst rest, snd rest)) \<or>
      (\<exists>as x. (Sys a # fst R, snd R) = (map Sys as, x) \<and> x \<noteq> Waits \<and> x \<noteq> Exits)" by blast
next
  fix as x assume "R = (map Sys as, x)" and "x \<noteq> Waits" "x \<noteq> Exits"
  then have "(Sys a # fst R, snd R) = (map Sys (a # as), x) \<and> x \<noteq> Waits \<and> x \<noteq> Exits" by simp
  then show "(\<exists>as. (Sys a # fst R, snd R) = (map Sys as @ fst rest, snd rest)) \<or>
      (\<exists>as x. (Sys a # fst R, snd R) = (map Sys as, x) \<and> x \<noteq> Waits \<and> x \<noteq> Exits)"
    by (intro disjI2 exI)
qed

lemma sys_then_leads: "leads_to (sys_then M as rest) rest"
proof (induction as)
  case Nil
  show ?case by (simp add: leads_to_refl)
next
  case (Cons a as)
  show ?case
  proof (cases "sys_call M a")
    case None
    with leads_to_Cons [OF Cons] show ?thesis by (simp add: case_prod_unfold)
  next
    case (Some e)
    then have "sys_then M (a # as) rest = (map Sys [a], Fatal e)" by simp
    then show ?thesis unfolding leads_to_def by blast
  qed
qed

lemma lock_then_leads: "leads_to (lock_then M stage files rest) rest"
proof (cases "lock (executablePath (me_Executable M) (me_Args M)) stage files")
  case None
  then have "lock_then M stage files rest = (map Sys [], Panics)" by (simp add: lock_then_def)
  then show ?thesis unfolding leads_to_def by blast
next
  case (Some as)
  then show ?thesis using sys_then_leads [of M as rest] by (simp add: lock_then_def)
qed

text \<open>An action that is not a system action comes from the rest.\<close>

lemma leads_to_action:
  assumes "leads_to R rest" and "a \<in> set (fst R)" and "\<And>s. a \<noteq> Sys s"
  shows "a \<in> set (fst rest) \<and> snd R = snd rest \<and> (\<exists>as. fst R = map Sys as @ fst rest)"
proof -
  have "a \<notin> set (map Sys as)" for as using assms(3) by auto
  with assms(1,2) show ?thesis unfolding leads_to_def by fastforce
qed

lemma lock_opt_leads: "leads_to ((if b then lock_then M stage files else (\<lambda>rest. rest)) rest) rest"
  by (simp add: leads_to_refl lock_then_leads)

text \<open>What \<open>main\<close> does besides system actions, messages and reading the configuration.\<close>

definition quiet :: "'re action \<Rightarrow> bool" where
  "quiet a \<longleftrightarrow> (case a of Sys s \<Rightarrow> True | Say m \<Rightarrow> True | Parsed p \<Rightarrow> True | _ \<Rightarrow> False)"

lemma main_action:
  assumes "a \<in> set (fst (main M))" and "\<not> quiet a"
  obtains fl path conf pre where "me_parse M (main_args M) = Inr fl" "\<not> fl_version fl"
    "ParseConfig (me_cfg M) path = Inr conf" "list_all quiet pre"
    "a \<in> set (fst (after_config M fl (is_daemon M) (main_args M) conf))"
    "main M = (pre @ fst (after_config M fl (is_daemon M) (main_args M) conf),
       snd (after_config M fl (is_daemon M) (main_args M) conf))"
proof -
  have ns: "a \<noteq> Sys s" for s using assms(2) by (auto simp: quiet_def)
  have q: "list_all quiet (map Sys as)" for as :: "sys_action list"
    by (simp add: list_all_iff quiet_def)
  define inner where "inner = (case me_parse M (main_args M) of
      Inl e \<Rightarrow> ([Say (err_Error e)], Exits)
    | Inr fl \<Rightarrow>
        if fl_version fl then ([Say ''wireproxy, version 1.0.8-dev''], Exits)
        else
          (case (if fl_config fl = [] then configFilePath (me_Stat M) (me_Home M) else Some (fl_config fl)) of
             None \<Rightarrow> ([Say ''configuration path is required''], Exits)
           | Some path \<Rightarrow>
               (if \<not> fl_daemon fl then lock_then M ''read-config'' [] else (\<lambda>rest. rest))
                 (case ParseConfig (me_cfg M) path of
                    Inl e \<Rightarrow> ([Parsed path], Fatal e)
                  | Inr conf \<Rightarrow>
                      (case after_config M fl (is_daemon M) (main_args M) conf of (t, x) \<Rightarrow> (Parsed path # t, x)))))"
  define mid where "mid = (if is_daemon M then lock_then M ''boot-daemon'' [] else (\<lambda>rest. rest)) inner"
  have m: "main M = lock_then M ''boot'' [] mid"
    unfolding main_def Let_def mid_def inner_def ..
  obtain as1 where 1: "a \<in> set (fst mid)" "main M = (map Sys as1 @ fst mid, snd mid)"
    using leads_to_action [OF lock_then_leads [of M "''boot''" "[]" mid]] assms(1) ns m
    by (metis prod.collapse)
  obtain as2 where 2: "a \<in> set (fst inner)" "mid = (map Sys as2 @ fst inner, snd inner)"
    using leads_to_action [OF lock_opt_leads [of "is_daemon M" M "''boot-daemon''" "[]" inner]] 1(1) ns mid_def
    by (metis prod.collapse)
  from 2(1) assms(2) obtain fl path where fl: "me_parse M (main_args M) = Inr fl" "\<not> fl_version fl"
    and path: "(if fl_config fl = [] then configFilePath (me_Stat M) (me_Home M) else Some (fl_config fl)) = Some path"
    by (auto simp: inner_def quiet_def split: sum.splits if_splits option.splits)
  define parsed where "parsed = (case ParseConfig (me_cfg M) path of
      Inl e \<Rightarrow> ([Parsed path], Fatal e)
    | Inr conf \<Rightarrow> (case after_config M fl (is_daemon M) (main_args M) conf of (t, x) \<Rightarrow> (Parsed path # t, x)))"
  have i: "inner = (if \<not> fl_daemon fl then lock_then M ''read-config'' [] else (\<lambda>rest. rest)) parsed"
    using fl path by (simp add: inner_def parsed_def)
  obtain as3 where 3: "a \<in> set (fst parsed)" "inner = (map Sys as3 @ fst parsed, snd parsed)"
    using leads_to_action [OF lock_opt_leads [of "\<not> fl_daemon fl" M "''read-config''" "[]" parsed]] 2(1) ns i
    by (metis prod.collapse)
  from 3(1) assms(2) obtain conf where conf: "ParseConfig (me_cfg M) path = Inr conf"
    by (auto simp: parsed_def quiet_def split: sum.splits)
  let ?a = "after_config M fl (is_daemon M) (main_args M) conf"
  have p: "parsed = (Parsed path # fst ?a, snd ?a)" by (simp add: parsed_def conf case_prod_unfold)
  show ?thesis
  proof (rule that [OF fl conf])
    show "list_all quiet (map Sys as1 @ map Sys as2 @ map Sys as3 @ [Parsed path])"
      using q [of as1] q [of as2] q [of as3] by (simp add: quiet_def)
    show "a \<in> set (fst ?a)" using 3(1) assms(2) by (auto simp: p quiet_def)
    show "main M = ((map Sys as1 @ map Sys as2 @ map Sys as3 @ [Parsed path]) @ fst ?a, snd ?a)"
      using 1(2) 2(2) 3(2) p by simp
  qed
qed

lemma StartWireguard_routines:
  "StartWireguard W conf level = (calls, conf', r) \<Longrightarrow> conf_Routines conf' = conf_Routines conf"
  by (auto simp: StartWireguard_def StartWireguardWithLogger_def CreateIPCRequest_def Let_def
      split: option.splits)

text \<open>Actions after the configuration was read, from the outside in.\<close>

lemma after_config_inner:
  assumes "a \<in> set (fst (after_config M fl dp args conf))" and "\<not> quiet a"
  obtains as where "a \<in> set (fst (fork_or_run M fl dp args conf))" "\<not> fl_configTest fl"
    "after_config M fl dp args conf = (map Sys as @ fst (fork_or_run M fl dp args conf), snd (fork_or_run M fl dp args conf))"
proof -
  have ns: "a \<noteq> Sys x" for x using assms(2) by (auto simp: quiet_def)
  from assms obtain rules where r: "lockNetwork (conf_Routines conf) (fl_info fl) = Some rules"
    and nt: "\<not> fl_configTest fl"
    by (auto simp: after_config_def quiet_def split: if_splits option.splits)
  define as0 where "as0 = RestrictNet rules # (if dp then [StdioToNull] else [])"
  have ac: "after_config M fl dp args conf = sys_then M as0 (fork_or_run M fl dp args conf)"
    using nt r by (simp add: after_config_def as0_def)
  show ?thesis
    using leads_to_action [OF sys_then_leads [of M as0 "fork_or_run M fl dp args conf"]]
      assms(1) ns that nt unfolding ac by (metis prod.collapse)
qed

lemma start_and_run_action:
  assumes "a \<in> set (fst (start_and_run M fl conf))" and "\<And>l. a \<noteq> Started l"
  obtains level where "a \<in> set (fst (run_routines (me_net M) (conf_Routines conf) (fl_info fl)))"
    "start_and_run M fl conf = (Started level # fst (run_routines (me_net M) (conf_Routines conf) (fl_info fl)),
       snd (run_routines (me_net M) (conf_Routines conf) (fl_info fl)))"
proof -
  define level where "level = (if fl_silent fl then 0 else 2 :: int)"
  obtain calls conf' res where sw: "StartWireguard (me_wg M) conf level = (calls, conf', res)" by (metis surj_pair)
  show ?thesis
    using assms that [of level] StartWireguard_routines [OF sw]
    unfolding start_and_run_def Let_def level_def [symmetric] sw
    by (cases res) (auto simp: case_prod_unfold)
qed

lemma after_config_action:
  assumes "a \<in> set (fst (after_config M fl dp args conf))" and "\<not> quiet a" and "\<And>e v. a \<noteq> Forked e v"
    and "\<And>l. a \<noteq> Started l"
  obtains as level where
    "after_config M fl dp args conf =
       (map Sys as @ Started level # fst (run_routines (me_net M) (conf_Routines conf) (fl_info fl)),
        snd (run_routines (me_net M) (conf_Routines conf) (fl_info fl)))"
    "a \<in> set (fst (run_routines (me_net M) (conf_Routines conf) (fl_info fl)))"
proof -
  have ns: "a \<noteq> Sys x" for x using assms(2) by (auto simp: quiet_def)
  obtain as1 where 1: "a \<in> set (fst (fork_or_run M fl dp args conf))"
    "after_config M fl dp args conf = (map Sys as1 @ fst (fork_or_run M fl dp args conf), snd (fork_or_run M fl dp args conf))"
    using after_config_inner [OF assms(1,2)] by metis
  have nf: "\<not> (fl_daemon fl \<and> \<not> dp)"
  proof
    assume "fl_daemon fl \<and> \<not> dp"
    with 1(1) assms(2,3) show False by (auto simp: fork_or_run_def quiet_def split: option.splits)
  qed
  define ready where "ready = lock_then M ''ready'' (tlsFilePaths (conf_Routines conf)) (start_and_run M fl conf)"
  have fr: "fork_or_run M fl dp args conf = sys_then M [StdoutToStderr] ready"
    using nf by (simp only: fork_or_run_def ready_def if_False)
  obtain as3 where 3: "a \<in> set (fst ready)" "fork_or_run M fl dp args conf = (map Sys as3 @ fst ready, snd ready)"
    using leads_to_action [OF sys_then_leads] 1(1) ns unfolding fr by (metis prod.collapse)
  obtain as2 where 2: "a \<in> set (fst (start_and_run M fl conf))"
    "ready = (map Sys as2 @ fst (start_and_run M fl conf), snd (start_and_run M fl conf))"
    using leads_to_action [OF lock_then_leads] 3(1) ns unfolding ready_def by (metis prod.collapse)
  obtain level where 4: "a \<in> set (fst (run_routines (me_net M) (conf_Routines conf) (fl_info fl)))"
    "start_and_run M fl conf = (Started level # fst (run_routines (me_net M) (conf_Routines conf) (fl_info fl)),
       snd (run_routines (me_net M) (conf_Routines conf) (fl_info fl)))"
    using start_and_run_action [OF 2(1) assms(4)] by metis
  show ?thesis
    by (rule that [of "as1 @ as3 @ as2" level]) (simp_all add: 1(2) 3(2) 2(2) 4)
qed

lemma after_config_forked:
  assumes "Forked e v \<in> set (fst (after_config M fl dp args conf))"
  shows "\<not> dp \<and> v = daemonProcess # tl args"
proof -
  have nq: "\<not> quiet (Forked e v)" by (simp add: quiet_def)
  have fr: "Forked e v \<in> set (fst (fork_or_run M fl dp args conf))"
    using after_config_inner [OF assms nq] by metis
  have "Forked e v \<notin> set (fst (run_routines N rs info))" for N rs info
    by (auto simp: run_routines_def split: prod.split option.split)
  then have "Forked e v \<notin> set (fst (start_and_run M fl conf))"
    using start_and_run_action [of "Forked e v" M fl conf] by blast
  then have "Forked e v \<notin> set (fst (lock_then M ''ready'' files (start_and_run M fl conf)))" for files
    using leads_to_action [OF lock_then_leads, of "Forked e v" M "''ready''" files "start_and_run M fl conf"] by blast
  then have "Forked e v \<notin> set (fst (sys_then M as (lock_then M ''ready'' files (start_and_run M fl conf))))" for as files
    using leads_to_action [OF sys_then_leads, of "Forked e v" M as "lock_then M ''ready'' files (start_and_run M fl conf)"]
    by blast
  with fr have "fl_daemon fl \<and> \<not> dp" unfolding fork_or_run_def by (auto simp del: sys_then.simps split: if_splits)
  with fr show ?thesis by (auto simp: fork_or_run_def split: option.splits)
qed

lemma bind_all_None:
  "bind_all N rs = (ds, None) \<Longrightarrow> list_all2 (\<lambda>r d. routine_Bind N r = (None, d)) rs ds"
  by (induction N rs arbitrary: ds rule: bind_all.induct) (auto split: prod.splits option.splits)

lemma bind_all_Some:
  "bind_all N rs = (ds, Some e) \<Longrightarrow> \<exists>r \<in> set rs. fst (routine_Bind N r) = Some e"
  by (induction N rs arbitrary: ds rule: bind_all.induct) (force split: prod.splits option.splits)+

lemma main_running_ends:
  assumes "snd (main M) = Waits" and "Serves r \<in> set (fst (main M))" and "length (fst (main M)) \<le> n"
  shows "main_running M n (ServeReturns r None) = main M"
    and "main_running M n (ServeReturns r (Some e)) = (fst (main M), Fatal e)"
    and "main_running M n Signalled = (fst (main M), Exits)"
  using assms by (cases "main M"; simp add: main_running_def)+

lemma main_running_take: "\<exists>k. fst (main_running M n ev) = take k (fst (main M))"
proof (cases "main M")
  case (Pair t x)
  then have "fst (main_running M n ev) = t \<or> fst (main_running M n ev) = take n t"
    by (auto simp: main_running_def split: option.split)
  moreover have "t = take (length t) t" by simp
  ultimately show ?thesis unfolding Pair fst_conv by metis
qed

lemma main_running_bound:
  assumes "fst (main M) = pre @ map BoundTo ds @ rest" and "\<forall>d. Serves d \<notin> set pre"
    and "Serves s \<in> set (fst (main_running M n ev))"
  shows "BoundTo ` set ds \<subseteq> set (fst (main_running M n ev))"
proof -
  obtain k where k: "fst (main_running M n ev) = take k (pre @ map BoundTo ds @ rest)"
    using main_running_take [of M n ev] assms(1) by metis
  have "length (pre @ map BoundTo ds) \<le> k"
  proof (rule ccontr)
    assume "\<not> length (pre @ map BoundTo ds) \<le> k"
    then have "fst (main_running M n ev) = take k (pre @ map BoundTo ds)"
      unfolding k append_assoc [symmetric] take_append by simp
    with assms(2,3) show False by (auto dest: in_set_takeD)
  qed
  then show ?thesis unfolding k append_assoc [symmetric] take_append by auto
qed

section \<open>Properties\<close>

text \<open>
  C9: The program serves a routine only after it has bound every routine of the configuration: when
  anything is served, each configured routine was bound without error, the bindings all come before
  the first \<open>Serve\<close>, in the order of the configuration, and exactly the bound routines are served.  From
  then on the program waits: it ends when a served routine returns an error, with that error, or on a
  signal, and goes on when the routine returns nil; and wherever the run is cut, everything was bound
  before anything was served.
\<close>

theorem bind_before_serve:
  assumes "Serves r \<in> set (fst (main M))"
  shows "\<exists>path conf ds pre post. ParseConfig (me_cfg M) path = Inr conf \<and>
    list_all2 (\<lambda>r d. routine_Bind (me_net M) r = (None, d)) (conf_Routines conf) ds \<and>
    fst (main M) = pre @ map BoundTo ds @ map Serves ds @ post \<and>
    (\<forall>d. Serves d \<notin> set pre \<and> BoundTo d \<notin> set pre \<and> Serves d \<notin> set post \<and> BoundTo d \<notin> set post) \<and>
    snd (main M) = Waits \<and>
    (\<forall>n e. length (fst (main M)) \<le> n \<longrightarrow> main_running M n (ServeReturns r None) = main M \<and>
      main_running M n (ServeReturns r (Some e)) = (fst (main M), Fatal e) \<and>
      main_running M n Signalled = (fst (main M), Exits)) \<and>
    (\<forall>n ev s. Serves s \<in> set (fst (main_running M n ev)) \<longrightarrow>
      BoundTo ` set ds \<subseteq> set (fst (main_running M n ev)))"
proof -
  have nq: "\<not> quiet (Serves r)" by (simp add: quiet_def)
  obtain fl path conf pre where c: "ParseConfig (me_cfg M) path = Inr conf" and pre: "list_all quiet pre"
    and a: "Serves r \<in> set (fst (after_config M fl (is_daemon M) (main_args M) conf))"
    and m: "main M = (pre @ fst (after_config M fl (is_daemon M) (main_args M) conf),
       snd (after_config M fl (is_daemon M) (main_args M) conf))"
    using main_action [OF assms nq] by metis
  obtain as level where ac: "after_config M fl (is_daemon M) (main_args M) conf =
       (map Sys as @ Started level # fst (run_routines (me_net M) (conf_Routines conf) (fl_info fl)),
        snd (run_routines (me_net M) (conf_Routines conf) (fl_info fl)))"
    and s: "Serves r \<in> set (fst (run_routines (me_net M) (conf_Routines conf) (fl_info fl)))"
    by (rule after_config_action [OF a nq]) simp_all
  obtain ds where b: "bind_all (me_net M) (conf_Routines conf) = (ds, None)"
    using s by (cases "bind_all (me_net M) (conf_Routines conf)")
      (auto simp: run_routines_def split: option.splits)
  let ?post = "[Pings] @ (if fl_info fl \<noteq> [] then [ServesInfo (fl_info fl)] else [])"
  have r: "run_routines (me_net M) (conf_Routines conf) (fl_info fl) = (map BoundTo ds @ map Serves ds @ ?post, Waits)"
    by (simp add: run_routines_def b)
  have t: "fst (main M) = (pre @ map Sys as @ [Started level]) @ map BoundTo ds @ map Serves ds @ ?post"
    and w: "snd (main M) = Waits"
    by (simp_all add: m ac r)
  moreover have no: "\<forall>d. Serves d \<notin> set (pre @ map Sys as @ [Started level]) \<and>
      BoundTo d \<notin> set (pre @ map Sys as @ [Started level]) \<and> Serves d \<notin> set ?post \<and> BoundTo d \<notin> set ?post"
    using pre by (auto simp: list_all_iff quiet_def split: if_splits)
  moreover have "\<forall>n e. length (fst (main M)) \<le> n \<longrightarrow> main_running M n (ServeReturns r None) = main M \<and>
      main_running M n (ServeReturns r (Some e)) = (fst (main M), Fatal e) \<and>
      main_running M n Signalled = (fst (main M), Exits)"
    using main_running_ends [OF w assms] by blast
  moreover have "\<forall>n ev s. Serves s \<in> set (fst (main_running M n ev)) \<longrightarrow>
      BoundTo ` set ds \<subseteq> set (fst (main_running M n ev))"
    using main_running_bound [OF t] no by blast
  ultimately show ?thesis
    using c bind_all_None [OF b] by blast
qed

text \<open>
  C33: The daemon is started once: the command line the program runs to go into the background makes
  the new process recognise itself, whatever its flags are, and that process never forks.
\<close>

theorem daemon_forks_once:
  assumes "Forked exe argv \<in> set (fst (main M))" and "me_Args M' = exe # argv"
  shows "Forked e v \<notin> set (fst (main M'))"
proof
  have nq: "\<not> quiet (Forked a b)" for a b by (simp add: quiet_def)
  obtain fl conf where "Forked exe argv \<in> set (fst (after_config M fl (is_daemon M) (main_args M) conf))"
    using main_action [OF assms(1) nq] by metis
  then have "argv = daemonProcess # tl (main_args M)"
    using after_config_forked by blast
  then have d: "is_daemon M'" by (simp add: assms(2) is_daemon_def)
  assume "Forked e v \<in> set (fst (main M'))"
  then obtain fl' conf' where "Forked e v \<in> set (fst (after_config M' fl' (is_daemon M') (main_args M') conf'))"
    using main_action [OF _ nq] by metis
  with d show False using after_config_forked by blast
qed

section \<open>Sample runs\<close>

definition demo_main :: "string list \<Rightarrow> flags \<Rightarrow> (ini_file, ini_section, string list, string) main_env" where
  "demo_main argv fl = \<lparr>me_Executable = Inr ''/usr/bin/wireproxy'', me_Args = argv, me_Home = ''/root'',
     me_Stat = (\<lambda>_. True), me_parse = (\<lambda>_. Inr fl), me_platform = OtherOS, me_sys = (\<lambda>_. None),
     me_cfg = sample_env, me_wg = demo_wg, me_net = demo_net, me_start = None\<rparr>"

definition demo_flags :: "bool \<Rightarrow> bool \<Rightarrow> flags" where
  "demo_flags daemon test = \<lparr>fl_config = [], fl_silent = True, fl_daemon = daemon, fl_info = [], fl_version = False,
     fl_configTest = test\<rparr>"

definition demo_bound :: "string routine" where
  "demo_bound = TCPServerTunnel \<lparr>closed = False, tst_ListenPort = 25565, tst_Target = ''127.0.0.1:25565'',
     tst_listener = Some 6, tst_raddr = Some \<lparr>ap_address = ''127.0.0.1'', ap_port = 25565\<rparr>\<rparr>"

lemma demo_serves:
  "filter (\<lambda>a. \<not> quiet a) (fst (main (demo_main [''wireproxy''] (demo_flags False False)))) =
     [Started 0, BoundTo demo_bound, Serves demo_bound, Pings]"
  by code_simp

lemma demo_forks:
  "filter (\<lambda>a. \<not> quiet a) (fst (main (demo_main [''wireproxy'', ''-d''] (demo_flags True False)))) =
     [Forked ''/usr/bin/wireproxy'' [''daemon-process'', ''-d'']]"
  by code_simp

theorem bind_before_serve_witness:
  "snd (main (demo_main [''wireproxy''] (demo_flags False False))) = Waits"
proof -
  have "Serves demo_bound \<in> set (filter (\<lambda>a. \<not> quiet a) (fst (main (demo_main [''wireproxy''] (demo_flags False False)))))"
    unfolding demo_serves by simp
  then have "Serves demo_bound \<in> set (fst (main (demo_main [''wireproxy''] (demo_flags False False))))" by simp
  from bind_before_serve [OF this] show ?thesis by blast
qed

theorem daemon_forks_once_witness:
  "\<forall>e v. Forked e v \<notin>
     set (fst (main (demo_main [''/usr/bin/wireproxy'', ''daemon-process'', ''-d''] (demo_flags True False))))"
proof (intro allI)
  fix e v
  have "Forked ''/usr/bin/wireproxy'' [''daemon-process'', ''-d''] \<in>
      set (filter (\<lambda>a. \<not> quiet a) (fst (main (demo_main [''wireproxy'', ''-d''] (demo_flags True False)))))"
    unfolding demo_forks by simp
  then have "Forked ''/usr/bin/wireproxy'' [''daemon-process'', ''-d''] \<in>
      set (fst (main (demo_main [''wireproxy'', ''-d''] (demo_flags True False))))" by simp
  then show "Forked e v \<notin>
      set (fst (main (demo_main [''/usr/bin/wireproxy'', ''daemon-process'', ''-d''] (demo_flags True False))))"
    by (rule daemon_forks_once) (simp add: demo_main_def)
qed

text \<open>
  The configuration test touches nothing: with \<open>-n\<close> the program only confines itself, reads the
  configuration and prints a message; no device is started, and nothing is bound, served or forked.
\<close>

theorem configtest_is_dry:
  assumes "me_parse M (main_args M) = Inr fl" and "fl_configTest fl"
  shows "list_all quiet (fst (main M))"
  unfolding list_all_iff
proof
  fix a assume a: "a \<in> set (fst (main M))"
  show "quiet a"
  proof (rule ccontr)
    assume nq: "\<not> quiet a"
    obtain fl' conf where "me_parse M (main_args M) = Inr fl'"
      "a \<in> set (fst (after_config M fl' (is_daemon M) (main_args M) conf))"
      using main_action [OF a nq] by metis
    with assms nq show False by (simp add: after_config_def quiet_def)
  qed
qed

theorem configtest_is_dry_witness:
  "list_all quiet (fst (main (demo_main [''wireproxy'', ''-n''] (demo_flags False True)))) \<and>
   Say ''Config OK'' \<in> set (fst (main (demo_main [''wireproxy'', ''-n''] (demo_flags False True))))"
proof
  have "me_parse (demo_main [''wireproxy'', ''-n''] (demo_flags False True))
      (main_args (demo_main [''wireproxy'', ''-n''] (demo_flags False True))) = Inr (demo_flags False True)"
    and "fl_configTest (demo_flags False True)" by (simp_all add: demo_main_def demo_flags_def)
  then show "list_all quiet (fst (main (demo_main [''wireproxy'', ''-n''] (demo_flags False True))))"
    by (rule configtest_is_dry)
  show "Say ''Config OK'' \<in> set (fst (main (demo_main [''wireproxy'', ''-n''] (demo_flags False True))))" by code_simp
qed

section \<open>The network sandbox\<close>

lemma those_Some_set: "those xs = Some ys \<Longrightarrow> set ys = the ` set xs \<and> None \<notin> set xs"
  by (induction xs arbitrary: ys) (auto split: option.splits)

lemma those_map_set: "those (map f xs) = Some ys \<Longrightarrow> y \<in> set ys \<longleftrightarrow> (\<exists>x \<in> set xs. f x = Some y)"
  by (induction xs arbitrary: ys) (auto split: option.splits)

lemma lockNetwork_rules:
  assumes "lockNetwork rs info = Some rules"
  shows "x \<in> set rules \<longleftrightarrow> (\<exists>p. info \<noteq> [] \<and> extractPort info = Some p \<and> x = BindTCP p) \<or>
    (\<exists>r \<in> set rs. \<exists>l. section_rules r = Some l \<and> x \<in> set l)"
proof -
  obtain pre ls where ls: "those (map section_rules rs) = Some ls" and rules: "rules = pre @ concat ls"
    and pre: "(if info \<noteq> [] then map_option (\<lambda>p. [BindTCP p]) (extractPort info) else Some []) = Some pre"
    using assms by (auto simp: lockNetwork_def split: option.splits)
  have "x \<in> set (concat ls) \<longleftrightarrow> (\<exists>r \<in> set rs. \<exists>l. section_rules r = Some l \<and> x \<in> set l)"
    unfolding set_concat UN_iff using those_map_set [OF ls] by metis
  moreover have "x \<in> set pre \<longleftrightarrow> (\<exists>p. info \<noteq> [] \<and> extractPort info = Some p \<and> x = BindTCP p)"
    using pre by (auto split: if_splits)
  ultimately show ?thesis by (auto simp: rules)
qed

lemma extractPort_address:
  "parseAddressPort t = Inr ap \<Longrightarrow> extractPort t = Some (ap_port ap)"
  by (auto simp: parseAddressPort_def extractPort_def split: sum.splits option.splits if_splits)

text \<open>
  C34: The network sandbox admits the TCP connects of the server tunnels and no other: a bound server
  tunnel may connect to the port it forwards to, and every port that may be connected to is the target
  port of a server tunnel.  A configuration without server tunnels can therefore not dial any host
  directly, although the HTTP, SOCKS5 and SNI proxies with \<open>TunnelDomains\<close> send the names that match
  no pattern that way.
\<close>

theorem sandbox_connects:
  assumes "lockNetwork rs info = Some rules"
  shows "(TCPServerTunnel c \<in> set rs \<and> TCPServerTunnel_Bind N c = (None, c') \<longrightarrow>
      (\<exists>ap. tst_raddr c' = Some ap \<and> ConnectTCP (ap_port ap) \<in> set rules)) \<and>
    (ConnectTCP p \<in> set rules \<longrightarrow> (\<exists>c. TCPServerTunnel c \<in> set rs \<and> extractPort (tst_Target c) = Some p))"
proof (intro conjI impI)
  assume c: "TCPServerTunnel c \<in> set rs \<and> TCPServerTunnel_Bind N c = (None, c')"
  then obtain ap where "parseAddressPort (tst_Target c) = Inr ap" and ap: "tst_raddr c' = Some ap"
    by (auto simp: TCPServerTunnel_Bind_def Let_def split: sum.splits)
  then have "section_rules (TCPServerTunnel c :: 'a routine) = Some [ConnectTCP (ap_port ap)]"
    by (simp add: extractPort_address)
  with c ap show "\<exists>ap. tst_raddr c' = Some ap \<and> ConnectTCP (ap_port ap) \<in> set rules"
    using lockNetwork_rules [OF assms, of "ConnectTCP (ap_port ap)"] by fastforce
next
  assume "ConnectTCP p \<in> set rules"
  then obtain r l where r: "r \<in> set rs" and l: "section_rules r = Some l" "ConnectTCP p \<in> set l"
    using lockNetwork_rules [OF assms] by auto
  from l have "\<exists>c. r = TCPServerTunnel c \<and> extractPort (tst_Target c) = Some p"
    by (cases r) auto
  with r show "\<exists>c. TCPServerTunnel c \<in> set rs \<and> extractPort (tst_Target c) = Some p" by blast
qed

theorem sandbox_connects_witness:
  "ConnectTCP 443 \<notin> set [BindTCP 1080] \<and>
   lockNetwork [Socks5 \<lparr>closed = False, s5_BindAddress = ''127.0.0.1:1080'', s5_Username = [], s5_Password = [],
     s5_TunnelDomains = [''corp''], s5_LogDomains = False, s5_listener = None\<rparr>] [] = Some [BindTCP 1080]"
proof -
  let ?rs = "[Socks5 \<lparr>closed = False, s5_BindAddress = ''127.0.0.1:1080'', s5_Username = [], s5_Password = [],
     s5_TunnelDomains = [''corp''], s5_LogDomains = False, s5_listener = None\<rparr>]"
  have l: "lockNetwork ?rs [] = Some [BindTCP 1080]" by code_simp
  from sandbox_connects [OF l, where p = 443] l show ?thesis by simp
qed

text \<open>
  The port of an address is read with \<open>uint16\<close> truncation, and an address without a port is a
  panic: a proxy whose section has no \<open>BindAddress\<close> is accepted by the parser but makes the program
  panic before anything is bound.
\<close>

theorem extractPort_truncates:
  assumes "plain_host h" and "in_int64 p"
  shows "extractPort (net_JoinHostPort h (strconv_Itoa p)) = Some (of_int p) \<and>
    (s5_BindAddress c = [] \<and> Socks5 c \<in> set rs \<longrightarrow> lockNetwork rs info = None)"
proof
  have "plain_port (strconv_Itoa p)" by (auto simp: plain_port_def strconv_Itoa_def)
  with assms show "extractPort (net_JoinHostPort h (strconv_Itoa p)) = Some (of_int p)"
    by (simp add: extractPort_def SplitHostPort_JoinHostPort strconv_Atoi_Itoa)
  have "extractPort [] = None" by code_simp
  then show "s5_BindAddress c = [] \<and> Socks5 c \<in> set rs \<longrightarrow> lockNetwork rs info = None"
    using those_Some_set [of "map section_rules rs"]
    by (cases "those (map section_rules rs)") (force simp: lockNetwork_def split: option.splits)+
qed

theorem extractPort_truncates_witness:
  "extractPort (net_JoinHostPort ''localhost'' (strconv_Itoa 70000)) = Some 4464"
proof -
  have "plain_host ''localhost''" and "in_int64 70000" by code_simp+
  from extractPort_truncates [OF this, THEN conjunct1]
  have "extractPort (net_JoinHostPort ''localhost'' (strconv_Itoa 70000)) = Some (of_int 70000)" .
  moreover have "(of_int 70000 :: 16 word) = 4464" by code_simp
  ultimately show ?thesis by simp
qed

end
