(* ===== verification/ShutdownRace.thy ===== *)
theory ShutdownRace
  imports Spawner
begin

text \<open>
  \<open>Close\<close> runs in another goroutine than \<open>Serve\<close>, and more than one goroutine may call it.  Here the
  bodies of the \<open>Close\<close> methods are programs of atomic instructions and \<open>Serve\<close> is the machine that
  waits in \<open>Accept\<close>, has received an error, or has returned; a step is one instruction of one
  goroutine.  The theorems hold for every interleaving of any number of callers.  No instruction blocks:
  the flag is an atomic store, the \<open>select\<close> has a default branch, closing a channel never waits, and
  closing a listener is taken to return; the error it returns is the subject of \<open>Spawner\<close>.
\<close>

section \<open>Programs and state\<close>

datatype close_instr = MarkClosed | SelectDone | CloseDone | CloseListener

text \<open>\<open>SelectDone\<close> is the \<open>select\<close> on the channel; its default branch goes on with \<open>CloseDone\<close>.\<close>

definition tcp_close_prog :: "close_instr list" where
  "tcp_close_prog = [MarkClosed, CloseListener]"

definition udp_close_prog :: "close_instr list" where
  "udp_close_prog = [MarkClosed, SelectDone, CloseListener]"

text \<open>
  The flag of \<open>GotErr\<close> and \<open>ServeReturned\<close> is history: whether the listener was still open when
  \<open>Accept\<close> failed.
\<close>

datatype serve_phase =
    Accepting
  | GotErr go_error bool
  | ServeReturned "go_error option" bool

record race = shutdown +
  rs_open :: bool
  rs_done :: "chan option"
  rs_serve :: serve_phase
  rs_closers :: "close_instr list list"
  rs_panicked :: bool

text \<open>
  The TCP-like routines return a foreign error wrapped in a prefix; the UDP routines log it and
  read again.
\<close>

datatype serve_kind = Stops string | Retries

definition race_init :: "chan option \<Rightarrow> close_instr list list \<Rightarrow> race" where
  "race_init d progs = \<lparr>closed = False, rs_open = True, rs_done = d, rs_serve = Accepting,
     rs_closers = progs, rs_panicked = False\<rparr>"

section \<open>Steps\<close>

fun exec_instr :: "close_instr \<Rightarrow> race \<Rightarrow> race \<times> close_instr list" where
  "exec_instr MarkClosed s = (markClosed s, [])"
| "exec_instr SelectDone s =
     (s, case rs_done s of Some ChanOpen \<Rightarrow> [CloseDone] | _ \<Rightarrow> [])"
| "exec_instr CloseDone s =
     (case rs_done s of
        Some ChanOpen \<Rightarrow> (s\<lparr>rs_done := Some ChanClosed\<rparr>, [])
      | _ \<Rightarrow> (s\<lparr>rs_panicked := True\<rparr>, []))"
| "exec_instr CloseListener s = (s\<lparr>rs_open := False\<rparr>, [])"

definition closer_step :: "nat \<Rightarrow> race \<Rightarrow> race option" where
  "closer_step i s =
     (if rs_panicked s \<or> i \<ge> length (rs_closers s) then None
      else case rs_closers s ! i of
        [] \<Rightarrow> None
      | ins # rest \<Rightarrow>
          (let (s', more) = exec_instr ins s
           in Some (s'\<lparr>rs_closers := (rs_closers s)[i := more @ rest]\<rparr>)))"

datatype serve_event = EvConn | EvFail go_error | EvDecide

text \<open>A closed listener gives no more connections; which error it reports is its owner's choice.\<close>

definition serve_step :: "serve_kind \<Rightarrow> serve_event \<Rightarrow> race \<Rightarrow> race option" where
  "serve_step k ev s =
     (if rs_panicked s then None
      else case (rs_serve s, ev) of
        (Accepting, EvConn) \<Rightarrow> if rs_open s then Some s else None
      | (Accepting, EvFail e) \<Rightarrow> Some (s\<lparr>rs_serve := GotErr e (rs_open s)\<rparr>)
      | (GotErr e opn, EvDecide) \<Rightarrow>
          if closedByUs s (Some e) then Some (s\<lparr>rs_serve := ServeReturned None opn\<rparr>)
          else (case k of
                  Stops pre \<Rightarrow> Some (s\<lparr>rs_serve := ServeReturned (Some (ErrWrap pre e)) opn\<rparr>)
                | Retries \<Rightarrow> Some (s\<lparr>rs_serve := Accepting\<rparr>))
      | _ \<Rightarrow> None)"

inductive race_step :: "serve_kind \<Rightarrow> race \<Rightarrow> race \<Rightarrow> bool" for k :: serve_kind where
  closer: "closer_step i s = Some s' \<Longrightarrow> race_step k s s'"
| serve: "serve_step k ev s = Some s' \<Longrightarrow> race_step k s s'"

abbreviation race_steps :: "serve_kind \<Rightarrow> race \<Rightarrow> race \<Rightarrow> bool" where
  "race_steps k \<equiv> (race_step k)\<^sup>*\<^sup>*"

text \<open>A schedule: which closer moves next, or what \<open>Serve\<close> experiences.\<close>

fun run_schedule :: "serve_kind \<Rightarrow> (nat + serve_event) list \<Rightarrow> race \<Rightarrow> race option" where
  "run_schedule k [] s = Some s"
| "run_schedule k (Inl i # sch) s = Option.bind (closer_step i s) (run_schedule k sch)"
| "run_schedule k (Inr ev # sch) s = Option.bind (serve_step k ev s) (run_schedule k sch)"

lemma run_schedule_steps: "run_schedule k sch s = Some s' \<Longrightarrow> race_steps k s s'"
proof (induction k sch s rule: run_schedule.induct)
  case (2 k i sch s)
  then obtain t where "closer_step i s = Some t" and "run_schedule k sch t = Some s'"
    by (cases "closer_step i s") auto
  with 2 show ?case by (metis converse_rtranclp_into_rtranclp race_step.closer)
next
  case (3 k ev sch s)
  then obtain t where "serve_step k ev s = Some t" and "run_schedule k sch t = Some s'"
    by (cases "serve_step k ev s") auto
  with 3 show ?case by (metis converse_rtranclp_into_rtranclp race_step.serve)
qed simp

lemma closer_step_elim:
  assumes "closer_step i s = Some s'"
  obtains ins rest where "i < length (rs_closers s)" "rs_closers s ! i = ins # rest" "\<not> rs_panicked s"
    "s' = (fst (exec_instr ins s))\<lparr>rs_closers := (rs_closers s)[i := snd (exec_instr ins s) @ rest]\<rparr>"
  using assms by (auto simp: closer_step_def case_prod_unfold Let_def split: if_splits list.splits)

section \<open>The programs run alone\<close>

text \<open>One \<open>Close\<close> that is not interrupted.\<close>

fun run_alone :: "nat \<Rightarrow> race \<Rightarrow> race" where
  "run_alone 0 s = s"
| "run_alone (Suc n) s = (case closer_step 0 s of None \<Rightarrow> s | Some s' \<Rightarrow> run_alone n s')"

text \<open>
  Run alone to its end, each program does what the method of the component theory does: it sets the
  flag, closes \<open>done\<close> once, and closes the listener, without a panic.
\<close>

lemma udp_prog_alone:
  "run_alone 4 (race_init d [udp_close_prog]) =
     (race_init (close_done d) [[]])\<lparr>closed := True, rs_open := False\<rparr>"
proof -
  consider "d = None" | "d = Some ChanOpen" | "d = Some ChanClosed"
    by (metis chan.exhaust option.exhaust)
  then show ?thesis
    by cases (simp_all add: numeral_eq_Suc race_init_def udp_close_prog_def closer_step_def close_done_def
        markClosed_def)
qed

lemma close_prog_alone:
  "run_alone 4 (race_init (ust_done q) [udp_close_prog]) =
     (race_init (ust_done (fst (UDPServerTunnel_Close K q))) [[]])
       \<lparr>closed := stopping (fst (UDPServerTunnel_Close K q)), rs_open := False\<rparr>"
  "run_alone 4 (race_init (upt_done p) [udp_close_prog]) =
     (race_init (upt_done (fst (UDPProxyTunnel_Close K p))) [[]])
       \<lparr>closed := stopping (fst (UDPProxyTunnel_Close K p)), rs_open := False\<rparr>"
  "run_alone 4 (race_init None [tcp_close_prog]) =
     (race_init None [[]])\<lparr>closed := stopping (fst (TCPServerTunnel_Close K u)), rs_open := False\<rparr>"
  by (simp_all add: udp_prog_alone)
    (simp_all add: UDPServerTunnel_Close_def UDPProxyTunnel_Close_def TCPServerTunnel_Close_def stopping_def
      markClosed_def numeral_eq_Suc race_init_def tcp_close_prog_def closer_step_def)

section \<open>Every interleaving\<close>

text \<open>
  The intent is recorded before the listener is closed: a listener found closed means the flag is
  set, and a \<open>Close\<close> that has yet to close it has not skipped its first instruction.
\<close>

fun marks_first :: "close_instr list \<Rightarrow> bool" where
  "marks_first [] = True"
| "marks_first (ins # _) = (ins = MarkClosed)"

definition intent_inv :: "race \<Rightarrow> bool" where
  "intent_inv s \<longleftrightarrow>
     (rs_open s \<or> closed s) \<and> (\<forall>p \<in> set (rs_closers s). marks_first p \<or> closed s) \<and>
     (case rs_serve s of
        Accepting \<Rightarrow> True
      | GotErr e opn \<Rightarrow> opn \<or> closed s
      | ServeReturned r opn \<Rightarrow> r = None \<or> opn)"

lemma intent_inv_closer: "intent_inv s \<Longrightarrow> closer_step i s = Some s' \<Longrightarrow> intent_inv s'"
proof -
  assume inv: "intent_inv s" and step: "closer_step i s = Some s'"
  then obtain ins rest where i: "i < length (rs_closers s)" and p: "rs_closers s ! i = ins # rest"
    and s': "s' = (fst (exec_instr ins s))\<lparr>rs_closers := (rs_closers s)[i := snd (exec_instr ins s) @ rest]\<rparr>"
    by (auto elim: closer_step_elim)
  from inv i p have "ins = MarkClosed \<or> closed s"
    by (fastforce simp: intent_inv_def dest: nth_mem)
  then have "closed s'" by (cases ins) (auto simp: s' markClosed_def split: option.splits chan.splits)
  moreover have "rs_serve s' = rs_serve s"
    by (cases ins) (auto simp: s' markClosed_def split: option.splits chan.splits)
  ultimately show ?thesis
    using inv by (auto simp: intent_inv_def split: serve_phase.splits)
qed

lemma intent_inv_serve: "intent_inv s \<Longrightarrow> serve_step k ev s = Some s' \<Longrightarrow> intent_inv s'"
  by (auto simp: intent_inv_def serve_step_def closedByUs_def stopping_def
      split: serve_phase.splits serve_event.splits serve_kind.splits if_splits)

lemma intent_inv_steps: "race_steps k s s' \<Longrightarrow> intent_inv s \<Longrightarrow> intent_inv s'"
  by (induction rule: rtranclp_induct)
    (auto elim!: race_step.cases intro: intent_inv_closer intent_inv_serve)

lemma intent_inv_init:
  "\<forall>p \<in> set progs. p \<in> {tcp_close_prog, udp_close_prog} \<Longrightarrow> intent_inv (race_init d progs)"
  by (auto simp: intent_inv_def race_init_def tcp_close_prog_def udp_close_prog_def)

text \<open>
  C2: However the callers of \<open>Close\<close> and the accept loop interleave, and whatever error a closed
  listener reports, \<open>Serve\<close> returns an error only if the listener failed while it was still open: a
  deliberate stop is never reported as a fault.  And a loop that has met the closed listener returns
  nil at its next step.
\<close>

theorem stop_never_reported_as_fault:
  assumes "\<forall>p \<in> set progs. p \<in> {tcp_close_prog, udp_close_prog}"
    and "race_steps k (race_init d progs) s"
  shows "(\<forall>e opn. rs_serve s = ServeReturned (Some e) opn \<longrightarrow> opn) \<and>
    (\<forall>e. rs_serve s = GotErr e False \<longrightarrow> \<not> rs_panicked s \<longrightarrow>
       serve_step k EvDecide s = Some (s\<lparr>rs_serve := ServeReturned None False\<rparr>)) \<and>
    (\<not> rs_open s \<longrightarrow> closed s)"
  using intent_inv_steps [OF assms(2) intent_inv_init [OF assms(1)]]
  by (auto simp: intent_inv_def serve_step_def closedByUs_def stopping_def)

theorem stop_never_reported_as_fault_witness:
  "\<exists>s. run_schedule (Stops ''tcp server tunnel: '')
      [Inl 0, Inl 1, Inl 1, Inr (EvFail (ErrMsg ''endpoint is in invalid state''))]
      (race_init None [tcp_close_prog, tcp_close_prog]) = Some s \<and>
    serve_step (Stops ''tcp server tunnel: '') EvDecide s = Some (s\<lparr>rs_serve := ServeReturned None False\<rparr>)"
proof -
  let ?k = "Stops ''tcp server tunnel: ''"
  let ?s = "\<lparr>closed = True, rs_open = False, rs_done = None,
    rs_serve = GotErr (ErrMsg ''endpoint is in invalid state'') False, rs_closers = [[CloseListener], []],
    rs_panicked = False\<rparr>"
  have run: "run_schedule ?k [Inl 0, Inl 1, Inl 1, Inr (EvFail (ErrMsg ''endpoint is in invalid state''))]
      (race_init None [tcp_close_prog, tcp_close_prog]) = Some ?s" by code_simp
  have "serve_step ?k EvDecide ?s = Some (?s\<lparr>rs_serve := ServeReturned None False\<rparr>)"
    using stop_never_reported_as_fault [OF _ run_schedule_steps [OF run]] by simp
  with run show ?thesis by blast
qed

section \<open>Panics\<close>

definition uses_done :: "close_instr list \<Rightarrow> bool" where
  "uses_done p \<longleftrightarrow> SelectDone \<in> set p \<or> CloseDone \<in> set p"

lemma uses_done_simps [simp]:
  "\<not> uses_done []" "uses_done (ins # p) \<longleftrightarrow> ins = SelectDone \<or> ins = CloseDone \<or> uses_done p"
  by (auto simp: uses_done_def)

text \<open>At most one caller is still to touch the channel, and one about to close it finds it open.\<close>

definition done_ok :: "chan option \<Rightarrow> close_instr list \<Rightarrow> bool" where
  "done_ok d p \<longleftrightarrow> \<not> uses_done p \<or> p \<in> {udp_close_prog, [SelectDone, CloseListener]} \<or>
     p = [CloseDone, CloseListener] \<and> d = Some ChanOpen"

definition done_inv :: "nat \<Rightarrow> race \<Rightarrow> bool" where
  "done_inv j s \<longleftrightarrow> \<not> rs_panicked s \<and>
     (\<forall>i < length (rs_closers s). if i = j then done_ok (rs_done s) (rs_closers s ! i)
        else \<not> uses_done (rs_closers s ! i))"

lemma done_inv_closer:
  assumes inv: "done_inv j s" and step: "closer_step i s = Some s'"
  shows "done_inv j s'"
proof -
  from step obtain ins rest where i: "i < length (rs_closers s)" and p: "rs_closers s ! i = ins # rest"
    and s': "s' = (fst (exec_instr ins s))\<lparr>rs_closers := (rs_closers s)[i := snd (exec_instr ins s) @ rest]\<rparr>"
    by (auto elim: closer_step_elim)
  have own: "if i = j then done_ok (rs_done s) (ins # rest) else \<not> uses_done (ins # rest)"
    using inv i p by (auto simp: done_inv_def)
  then have "\<not> rs_panicked s' \<and> (if i = j then done_ok (rs_done s') (snd (exec_instr ins s) @ rest)
      else rs_done s' = rs_done s \<and> \<not> uses_done (snd (exec_instr ins s) @ rest))"
    using inv by (cases ins) (auto simp: s' done_inv_def done_ok_def udp_close_prog_def markClosed_def
        split: option.splits chan.splits if_splits)
  moreover have "length (rs_closers s') = length (rs_closers s)" by (simp add: s')
  moreover have "rs_closers s' ! m = (if m = i then snd (exec_instr ins s) @ rest else rs_closers s ! m)"
    if "m < length (rs_closers s)" for m
    using that by (simp add: s')
  ultimately show ?thesis
    using inv i by (auto simp: done_inv_def split: if_splits)
qed

lemma done_inv_serve: "done_inv j s \<Longrightarrow> serve_step k ev s = Some s' \<Longrightarrow> done_inv j s'"
  by (auto simp: done_inv_def serve_step_def
      split: serve_phase.splits serve_event.splits serve_kind.splits if_splits)

lemma done_inv_steps: "race_steps k s s' \<Longrightarrow> done_inv j s \<Longrightarrow> done_inv j s'"
  by (induction rule: rtranclp_induct)
    (auto elim!: race_step.cases intro: done_inv_closer done_inv_serve)

text \<open>
  Any number of concurrent calls of \<open>Close\<close> on a routine without a \<open>done\<close> channel, together with
  one call of a UDP tunnel's \<open>Close\<close>, never panic, under every interleaving.
\<close>

theorem close_never_panics:
  assumes "race_steps k (race_init d (replicate m tcp_close_prog @ replicate n udp_close_prog)) s"
    and "n \<le> 1"
  shows "\<not> rs_panicked s"
proof -
  have "done_inv m (race_init d (replicate m tcp_close_prog @ replicate n udp_close_prog))"
    using assms(2) by (auto simp: done_inv_def race_init_def nth_append done_ok_def tcp_close_prog_def)
  from done_inv_steps [OF assms(1) this] show ?thesis by (simp add: done_inv_def)
qed

theorem close_never_panics_witness:
  "\<exists>s. run_schedule Retries [Inl 2, Inl 0, Inl 2, Inl 2, Inl 1, Inl 2, Inl 0]
      (race_init (Some ChanOpen) (replicate 2 tcp_close_prog @ replicate 1 udp_close_prog)) = Some s \<and>
    \<not> rs_panicked s"
proof -
  let ?s = "\<lparr>closed = True, rs_open = False, rs_done = Some ChanClosed, rs_serve = Accepting,
    rs_closers = [[], [CloseListener], []], rs_panicked = False\<rparr>"
  have run: "run_schedule Retries [Inl 2, Inl 0, Inl 2, Inl 2, Inl 1, Inl 2, Inl 0]
      (race_init (Some ChanOpen) (replicate 2 tcp_close_prog @ replicate 1 udp_close_prog)) = Some ?s"
    by code_simp
  from close_never_panics [OF run_schedule_steps [OF run]] run show ?thesis by blast
qed

text \<open>
  C38: Two concurrent calls of a UDP tunnel's \<open>Close\<close> can panic: both may find \<open>done\<close> open in their
  \<open>select\<close> before either closes it, although the interface promises that \<open>Close\<close> is idempotent and
  safe to call from another goroutine.
\<close>

theorem udp_double_close_panics:
  "\<exists>s. race_steps Retries (race_init (Some ChanOpen) [udp_close_prog, udp_close_prog]) s \<and> rs_panicked s"
proof -
  have "run_schedule Retries [Inl 0, Inl 1, Inl 0, Inl 1, Inl 0, Inl 1]
      (race_init (Some ChanOpen) [udp_close_prog, udp_close_prog]) =
    Some \<lparr>closed = True, rs_open = True, rs_done = Some ChanClosed, rs_serve = Accepting,
      rs_closers = [[CloseListener], [CloseListener]], rs_panicked = True\<rparr>" by code_simp
  from run_schedule_steps [OF this] show ?thesis by fastforce
qed

section \<open>Progress\<close>

text \<open>How many steps a program may still take: a \<open>select\<close> may be followed by one more.\<close>

fun instr_steps :: "close_instr \<Rightarrow> nat" where
  "instr_steps SelectDone = 2"
| "instr_steps _ = 1"

lemma instr_steps_pos [simp]: "instr_steps ins \<noteq> 0"
  by (cases ins) simp_all

definition prog_steps :: "close_instr list \<Rightarrow> nat" where
  "prog_steps p = sum_list (map instr_steps p)"

lemma closer_step_some:
  "closer_step i s \<noteq> None \<longleftrightarrow> \<not> rs_panicked s \<and> i < length (rs_closers s) \<and> rs_closers s ! i \<noteq> []"
  by (auto simp: closer_step_def case_prod_unfold Let_def split: list.split)

lemma serve_step_closers: "serve_step k ev s = Some s' \<Longrightarrow> rs_closers s' = rs_closers s"
  by (auto simp: serve_step_def split: serve_phase.splits serve_event.splits serve_kind.splits if_splits)

lemma closer_step_closers:
  assumes "closer_step i s = Some s'"
  shows "length (rs_closers s') = length (rs_closers s)"
    and "prog_steps (rs_closers s' ! i) < prog_steps (rs_closers s ! i)"
    and "j \<noteq> i \<Longrightarrow> rs_closers s' ! j = rs_closers s ! j"
proof -
  from assms obtain ins rest where *: "i < length (rs_closers s)" "rs_closers s ! i = ins # rest"
    "s' = (fst (exec_instr ins s))\<lparr>rs_closers := (rs_closers s)[i := snd (exec_instr ins s) @ rest]\<rparr>"
    by (rule closer_step_elim)
  show "length (rs_closers s') = length (rs_closers s)" and "j \<noteq> i \<Longrightarrow> rs_closers s' ! j = rs_closers s ! j"
    using * by simp_all
  have "prog_steps (snd (exec_instr ins s)) < instr_steps ins"
    by (cases ins) (auto simp: prog_steps_def split: option.split chan.split)
  with * show "prog_steps (rs_closers s' ! i) < prog_steps (rs_closers s ! i)"
    by (simp add: prog_steps_def)
qed

lemma schedule_bounds:
  assumes "run_schedule k sch s = Some s'"
  shows "length (rs_closers s') = length (rs_closers s) \<and>
    count_list sch (Inl i) + prog_steps (rs_closers s' ! i) \<le> prog_steps (rs_closers s ! i)"
  using assms
proof (induction k sch s rule: run_schedule.induct)
  case (2 k j sch s)
  then obtain t where t: "closer_step j s = Some t" "run_schedule k sch t = Some s'"
    by (cases "closer_step j s") auto
  with 2 closer_step_closers [OF t(1)] show ?case by (cases "i = j") (fastforce simp: t)+
next
  case (3 k ev sch s)
  then obtain t where "serve_step k ev s = Some t" "run_schedule k sch t = Some s'"
    by (cases "serve_step k ev s") auto
  with 3 show ?case by (auto dest: serve_step_closers)
qed simp

text \<open>A call that is done has closed the listener, and a listener once closed stays so.\<close>

definition closes_inv :: "race \<Rightarrow> bool" where
  "closes_inv s \<longleftrightarrow> (\<forall>p \<in> set (rs_closers s). CloseListener \<in> set p) \<or> \<not> rs_open s"

lemma closes_inv_closer: "closes_inv s \<Longrightarrow> closer_step i s = Some s' \<Longrightarrow> closes_inv s'"
proof (erule closer_step_elim)
  fix ins rest
  assume inv: "closes_inv s" and i: "i < length (rs_closers s)" and p: "rs_closers s ! i = ins # rest"
    and s': "s' = (fst (exec_instr ins s))\<lparr>rs_closers := (rs_closers s)[i := snd (exec_instr ins s) @ rest]\<rparr>"
  have "CloseListener \<in> set rest" if "rs_open s" "ins \<noteq> CloseListener"
    using inv that p nth_mem [OF i] by (auto simp: closes_inv_def)
  with inv show "closes_inv s'"
    by (cases ins) (auto simp: s' closes_inv_def markClosed_def dest!: subsetD [OF set_update_subset_insert]
        split: option.splits chan.splits)
qed

lemma closes_inv_steps: "race_steps k s s' \<Longrightarrow> closes_inv s \<Longrightarrow> closes_inv s'"
proof (induction rule: rtranclp_induct)
  case (step t u)
  from step(2) show ?case
  proof cases
    case (serve ev)
    then show ?thesis using step by (auto simp: closes_inv_def serve_step_def
        split: serve_phase.splits serve_event.splits serve_kind.splits if_splits)
  qed (use step closes_inv_closer in blast)
qed

text \<open>\<open>done\<close> only ever goes from what it was to closed, and a call that is past its \<open>select\<close> leaves it closed.\<close>

definition done_progress :: "chan option \<Rightarrow> close_instr list list \<Rightarrow> race \<Rightarrow> bool" where
  "done_progress d progs s \<longleftrightarrow> length (rs_closers s) = length progs \<and> rs_done s \<in> {d, close_done d} \<and>
     (\<forall>i < length progs. progs ! i = udp_close_prog \<longrightarrow> uses_done (rs_closers s ! i) \<or> rs_done s = close_done d)"

lemma close_done_not_open: "close_done d \<noteq> Some ChanOpen" "d \<noteq> Some ChanOpen \<Longrightarrow> close_done d = d"
  by (cases d; cases "the d"; simp add: close_done_def)+

lemma done_progress_closer:
  assumes "done_progress d progs s" and "closer_step i s = Some s'"
  shows "done_progress d progs s'"
proof -
  from assms(2) obtain ins rest where i: "i < length (rs_closers s)" and p: "rs_closers s ! i = ins # rest"
    and s': "s' = (fst (exec_instr ins s))\<lparr>rs_closers := (rs_closers s)[i := snd (exec_instr ins s) @ rest]\<rparr>"
    by (rule closer_step_elim)
  have len: "length (rs_closers s) = length progs" and d: "rs_done s \<in> {d, close_done d}"
    and udp: "\<And>j. j < length progs \<Longrightarrow> progs ! j = udp_close_prog \<Longrightarrow>
      uses_done (rs_closers s ! j) \<or> rs_done s = close_done d"
    using assms(1) by (auto simp: done_progress_def)
  have "rs_done s' \<in> {rs_done s, close_done d}"
    using d close_done_not_open by (cases ins) (auto simp: s' markClosed_def close_done_def split: option.splits chan.splits)
  moreover have "uses_done (snd (exec_instr ins s) @ rest) \<or> rs_done s' = close_done d"
    if "progs ! i = udp_close_prog"
    using d udp [OF _ that] i len p close_done_not_open
    by (cases ins) (auto simp: s' markClosed_def close_done_def split: option.splits chan.splits)
  moreover have "rs_closers s' ! j = (if j = i then snd (exec_instr ins s) @ rest else rs_closers s ! j)"
    if "j < length progs" for j
    using that len by (simp add: s')
  ultimately show ?thesis
    using d udp len by (auto simp: done_progress_def s')
qed

lemma done_progress_serve: "done_progress d progs s \<Longrightarrow> serve_step k ev s = Some s' \<Longrightarrow> done_progress d progs s'"
  by (auto simp: done_progress_def serve_step_def
      split: serve_phase.splits serve_event.splits serve_kind.splits if_splits)

lemma done_progress_steps: "race_steps k s s' \<Longrightarrow> done_progress d progs s \<Longrightarrow> done_progress d progs s'"
  by (induction rule: rtranclp_induct)
    (auto elim!: race_step.cases intro: done_progress_closer done_progress_serve)

text \<open>What holds once some call has run to its end.\<close>

lemma finished_call:
  assumes "\<forall>p \<in> set progs. p \<in> {tcp_close_prog, udp_close_prog}"
    and "race_steps k (race_init d progs) s" and "[] \<in> set (rs_closers s)"
  shows "\<not> rs_open s" and "closed s"
proof -
  have "closes_inv (race_init d progs)"
    using assms(1) by (auto simp: closes_inv_def race_init_def tcp_close_prog_def udp_close_prog_def)
  with closes_inv_steps [OF assms(2)] assms(3) show "\<not> rs_open s" by (fastforce simp: closes_inv_def)
  with intent_inv_steps [OF assms(2) intent_inv_init [OF assms(1)]] show "closed s" by (simp add: intent_inv_def)
qed

text \<open>
  C25: \<open>Close\<close> completes: whatever the schedule, a call takes at most four steps of its own; until it is
  done, or the program has panicked, it can take its next step; and once it is done the intent to stop
  is recorded, the listener is closed and, on a UDP tunnel, so is \<open>done\<close>, whatever the other
  goroutines did in between.
\<close>

theorem close_completes:
  assumes "\<forall>p \<in> set progs. p \<in> {tcp_close_prog, udp_close_prog}" and "i < length progs"
    and "run_schedule k sch (race_init d progs) = Some s" and "\<not> rs_panicked s"
  shows "count_list sch (Inl i) \<le> 4 \<and> (count_list sch (Inl i) = 4 \<longrightarrow> rs_closers s ! i = []) \<and>
    (if rs_closers s ! i = []
     then closed s \<and> \<not> rs_open s \<and> (progs ! i = udp_close_prog \<longrightarrow> rs_done s = close_done d)
     else closer_step i s \<noteq> None)"
proof -
  note steps = run_schedule_steps [OF assms(3)]
  have b: "length (rs_closers s) = length progs"
    "count_list sch (Inl i) + prog_steps (rs_closers s ! i) \<le> prog_steps (progs ! i)"
    using schedule_bounds [OF assms(3)] by (simp_all add: race_init_def)
  have "prog_steps (progs ! i) \<le> 4"
    using assms(1) nth_mem [OF assms(2)] by (auto simp: prog_steps_def tcp_close_prog_def udp_close_prog_def)
  moreover have "rs_closers s ! i = []" if "prog_steps (rs_closers s ! i) = 0"
    using that by (cases "rs_closers s ! i") (simp_all add: prog_steps_def)
  moreover have "closer_step i s \<noteq> None" if "rs_closers s ! i \<noteq> []"
    using that assms(2,4) b(1) closer_step_some [of i s] by argo
  moreover have "closed s \<and> \<not> rs_open s" if "rs_closers s ! i = []"
    using finished_call [OF assms(1) steps] that assms(2) b(1) by (metis nth_mem)
  moreover have "rs_done s = close_done d" if "rs_closers s ! i = []" "progs ! i = udp_close_prog"
  proof -
    have "done_progress d progs (race_init d progs)" by (simp add: done_progress_def race_init_def udp_close_prog_def)
    from done_progress_steps [OF steps this] that assms(2) show ?thesis by (auto simp: done_progress_def)
  qed
  ultimately show ?thesis using b(2) by auto
qed

theorem close_completes_witness:
  "\<exists>s. run_schedule Retries [Inl 0, Inr EvConn, Inl 0, Inl 0, Inr (EvFail ErrClosed), Inl 0]
      (race_init (Some ChanOpen) [udp_close_prog]) = Some s \<and>
    closed s \<and> \<not> rs_open s \<and> rs_done s = Some ChanClosed"
proof -
  let ?sch = "[Inl 0, Inr EvConn, Inl 0, Inl 0, Inr (EvFail ErrClosed), Inl 0]"
  let ?s0 = "race_init (Some ChanOpen) [udp_close_prog]"
  have "map_option (\<lambda>s. (rs_panicked s, rs_closers s)) (run_schedule Retries ?sch ?s0) = Some (False, [[]])"
    by code_simp
  then obtain s where run: "run_schedule Retries ?sch ?s0 = Some s" and s: "\<not> rs_panicked s" "rs_closers s = [[]]"
    by auto
  from close_completes [OF _ _ run s(1), of 0] s(2) run show ?thesis by (simp add: close_done_def)
qed

text \<open>
  C3: Once a call of \<open>Close\<close> has returned, \<open>Serve\<close> stops: a loop waiting in \<open>Accept\<close> gets no more connections,
  and with whatever error \<open>Accept\<close> reports it returns nil at the next step; a loop that already holds
  an error returns nil, too.  No \<open>Serve\<close> runs on, on either kind of routine, however the calls interleaved.
\<close>

theorem close_stops_serve:
  assumes "\<forall>p \<in> set progs. p \<in> {tcp_close_prog, udp_close_prog}"
    and "race_steps k (race_init d progs) s" and "\<not> rs_panicked s"
    and "[] \<in> set (rs_closers s)"
  shows "serve_step k EvConn s = None \<and>
    (rs_serve s = Accepting \<longrightarrow>
       run_schedule k [Inr (EvFail e), Inr EvDecide] s = Some (s\<lparr>rs_serve := ServeReturned None False\<rparr>)) \<and>
    (rs_serve s = GotErr e' opn \<longrightarrow> serve_step k EvDecide s = Some (s\<lparr>rs_serve := ServeReturned None opn\<rparr>))"
proof -
  have "\<not> rs_open s" and "closed s" by (fact finished_call [OF assms(1,2,4)])+
  then show ?thesis
    using assms(3) by (auto simp: serve_step_def closedByUs_def stopping_def split: serve_phase.split)
qed

theorem close_stops_serve_witness:
  "\<exists>s. run_schedule Retries [Inr EvConn, Inl 0, Inl 0, Inl 0, Inl 0] (race_init (Some ChanOpen) [udp_close_prog]) = Some s \<and>
     run_schedule Retries [Inr (EvFail (ErrMsg ''endpoint is in invalid state'')), Inr EvDecide] s =
       Some (s\<lparr>rs_serve := ServeReturned None False\<rparr>)"
proof -
  let ?s = "\<lparr>closed = True, rs_open = False, rs_done = Some ChanClosed, rs_serve = Accepting,
      rs_closers = [[]], rs_panicked = False\<rparr>"
  have run: "run_schedule Retries [Inr EvConn, Inl 0, Inl 0, Inl 0, Inl 0]
      (race_init (Some ChanOpen) [udp_close_prog]) = Some ?s" by code_simp
  have "run_schedule Retries [Inr (EvFail (ErrMsg ''endpoint is in invalid state'')), Inr EvDecide] ?s =
       Some (?s\<lparr>rs_serve := ServeReturned None False\<rparr>)"
    using close_stops_serve [OF _ run_schedule_steps [OF run]] by simp
  with run show ?thesis by blast
qed

end
