(* ===== verification/UdpSession.thy ===== *)
theory UdpSession
  imports ShutdownRace "HOL-Library.AList"
begin

text \<open>
  The session tables of \<open>udp_proxy.go\<close> and \<open>udp_server_tunnel.go\<close>.  Sessions are objects shared by the
  read loop, the reaper and one goroutine each, so the state is explicit: a heap of session objects,
  the table from source address to pointer, and the goroutines with the point they have reached.  A
  step is a critical section or one pass of a loop body between two blocking calls.
\<close>

section \<open>Machines driven by events\<close>

locale event_machine =
  fixes step :: "'e \<Rightarrow> 's \<Rightarrow> 's"
    and inv :: "'s \<Rightarrow> bool"
  assumes inv_step: "inv s \<Longrightarrow> inv (step e s)"
begin

lemma inv_run: "inv s \<Longrightarrow> inv (fold step evs s)"
  by (induction evs arbitrary: s) (auto simp: inv_step)

end

section \<open>State\<close>

record session =
  ss_conn :: handle
  ss_lastActive :: int
  ss_closeChan :: chan

record udpSession = session +
  us_inactivityDur :: int

type_synonym udpServerSession = session

text \<open>
  Where the goroutine of a session is: before the check of \<open>closeChan\<close> at the top of its loop, in
  \<open>Read\<close>, or between its two deferred calls.
\<close>

datatype phase = AtTop | Reading | Finishing

datatype udp_out =
    Sent nat string
  | Replied string string

record 's sessions =
  st_heap :: "nat \<Rightarrow> 's option"
  st_table :: "(string \<times> nat) list"
  st_next :: nat
  st_handler :: "nat \<Rightarrow> (string \<times> phase) option"
  st_hungup :: "nat list"
  st_out :: "udp_out list"
  st_serving :: bool
  st_flag :: bool
  st_done :: bool
  st_reaper :: bool

text \<open>\<open>Sent p d\<close> is a write of \<open>d\<close> to the connection of session \<open>p\<close>; \<open>st_hungup\<close> lists the sessions whose
  connection was closed; \<open>st_flag\<close> and \<open>st_done\<close> are the shutdown flag and whether \<open>done\<close> is closed, and
  \<open>st_reaper\<close> whether the reaper's goroutine is still running.\<close>

definition no_sessions :: "'s sessions" where
  "no_sessions = \<lparr>st_heap = Map.empty, st_table = [], st_next = 0, st_handler = Map.empty, st_hungup = [],
     st_out = [], st_serving = True, st_flag = False, st_done = False, st_reaper = True\<rparr>"

section \<open>Operations on the table\<close>

definition touch :: "nat \<Rightarrow> int \<Rightarrow> 'a session_scheme sessions \<Rightarrow> 'a session_scheme sessions" where
  "touch p now st = (case st_heap st p of None \<Rightarrow> st
     | Some s \<Rightarrow> st\<lparr>st_heap := (st_heap st)(p \<mapsto> s\<lparr>ss_lastActive := now\<rparr>)\<rparr>)"

text \<open>The \<open>select\<close> that closes \<open>closeChan\<close> unless it is closed.\<close>

definition closeSessionChan :: "nat \<Rightarrow> 'a session_scheme sessions \<Rightarrow> 'a session_scheme sessions" where
  "closeSessionChan p st = (case st_heap st p of None \<Rightarrow> st
     | Some s \<Rightarrow> (case ss_closeChan s of
         ChanClosed \<Rightarrow> st
       | ChanOpen \<Rightarrow> st\<lparr>st_heap := (st_heap st)(p \<mapsto> s\<lparr>ss_closeChan := ChanClosed\<rparr>)\<rparr>))"

text \<open>Only the session that is still registered under the key is removed.\<close>

definition removeSession :: "string \<Rightarrow> nat \<Rightarrow> 'a session_scheme sessions \<Rightarrow> 'a session_scheme sessions" where
  "removeSession src p st =
     (if map_of (st_table st) src = Some p
      then (closeSessionChan p st)\<lparr>st_table := AList.delete src (st_table st)\<rparr>
      else st)"

text \<open>One pass of the reaper; deleting from a map while ranging over it is allowed in Go.\<close>

definition expired :: "int \<Rightarrow> int \<Rightarrow> 'a session_scheme \<Rightarrow> bool" where
  "expired dur now s \<longleftrightarrow> time_Sub now (ss_lastActive s) \<ge> dur"

definition reap_entry :: "int \<Rightarrow> int \<Rightarrow> string \<times> nat \<Rightarrow> 'a session_scheme sessions \<Rightarrow> 'a session_scheme sessions" where
  "reap_entry dur now e st =
     (case st_heap st (snd e) of None \<Rightarrow> st
      | Some s \<Rightarrow> if expired dur now s
          then (closeSessionChan (snd e) st)\<lparr>st_table := AList.delete (fst e) (st_table st)\<rparr>
          else st)"

definition reap :: "int \<Rightarrow> int \<Rightarrow> 'a session_scheme sessions \<Rightarrow> 'a session_scheme sessions" where
  "reap dur now st = fold (reap_entry dur now) (st_table st) st"

text \<open>A new session object, registered, with its goroutine started.\<close>

definition add_session :: "string \<Rightarrow> 's \<Rightarrow> 's sessions \<Rightarrow> nat \<times> 's sessions" where
  "add_session src s st =
     (st_next st,
      st\<lparr>st_heap := (st_heap st)(st_next st \<mapsto> s), st_table := AList.update src (st_next st) (st_table st),
         st_next := Suc (st_next st), st_handler := (st_handler st)(st_next st \<mapsto> (src, AtTop))\<rparr>)"

definition set_phase :: "nat \<Rightarrow> phase \<Rightarrow> 's sessions \<Rightarrow> 's sessions" where
  "set_phase p ph st = (case st_handler st p of None \<Rightarrow> st
     | Some (src, _) \<Rightarrow> st\<lparr>st_handler := (st_handler st)(p \<mapsto> (src, ph))\<rparr>)"

definition end_handler :: "nat \<Rightarrow> 's sessions \<Rightarrow> 's sessions" where
  "end_handler p st = st\<lparr>st_handler := (st_handler st)(p := None)\<rparr>"

definition hang_up :: "nat \<Rightarrow> 's sessions \<Rightarrow> 's sessions" where
  "hang_up p st = st\<lparr>st_hungup := p # st_hungup st\<rparr>"

definition chan_open :: "'a session_scheme sessions \<Rightarrow> nat \<Rightarrow> bool" where
  "chan_open st p \<longleftrightarrow> (\<exists>s. st_heap st p = Some s \<and> ss_closeChan s = ChanOpen)"

lemma chan_open_code [code]:
  "chan_open st p = (case st_heap st p of None \<Rightarrow> False | Some s \<Rightarrow> ss_closeChan s = ChanOpen)"
  by (auto simp: chan_open_def split: option.split)

section \<open>The table invariant\<close>

text \<open>
  A session is registered exactly while its \<open>closeChan\<close> is open; whatever is registered has its
  goroutine, which knows the key; pointers from \<open>st_next\<close> on are fresh.
\<close>

definition table_inv :: "'a session_scheme sessions \<Rightarrow> bool" where
  "table_inv st \<longleftrightarrow>
     distinct (map fst (st_table st)) \<and>
     (\<forall>k p. (k, p) \<in> set (st_table st) \<longrightarrow> chan_open st p \<and> (\<exists>ph. st_handler st p = Some (k, ph))) \<and>
     (\<forall>p. chan_open st p \<longrightarrow> (\<exists>k. (k, p) \<in> set (st_table st))) \<and>
     (\<forall>p. st_next st \<le> p \<longrightarrow> st_heap st p = None \<and> st_handler st p = None) \<and>
     (\<forall>p. p < st_next st \<longrightarrow> st_heap st p \<noteq> None)"

lemma table_invD:
  assumes "table_inv st"
  shows "distinct (map fst (st_table st))"
    "\<And>k p. (k, p) \<in> set (st_table st) \<Longrightarrow> chan_open st p \<and> (\<exists>ph. st_handler st p = Some (k, ph))"
    "\<And>p. chan_open st p \<Longrightarrow> \<exists>k. (k, p) \<in> set (st_table st)"
    "\<And>p. st_next st \<le> p \<Longrightarrow> st_heap st p = None \<and> st_handler st p = None"
    "\<And>p. p < st_next st \<Longrightarrow> st_heap st p \<noteq> None"
  using assms by (simp_all add: table_inv_def)

lemma in_delete: "(k, p) \<in> set (AList.delete j t) \<longleftrightarrow> (k, p) \<in> set t \<and> k \<noteq> j"
  by (auto simp: AList.delete_eq)

lemma key_of_pointer:
  "table_inv st \<Longrightarrow> (k, p) \<in> set (st_table st) \<Longrightarrow> (j, p) \<in> set (st_table st) \<Longrightarrow> k = j"
  by (metis table_invD(2) option.inject prod.inject)

lemma no_sessions_inv [simp]: "table_inv no_sessions"
  by (simp add: table_inv_def no_sessions_def chan_open_def)

text \<open>Fields outside the table do not matter.\<close>

lemma table_inv_cong:
  assumes "st_heap st' = st_heap st" "st_table st' = st_table st" "st_next st' = st_next st"
    "\<And>p. map_option fst (st_handler st' p) = map_option fst (st_handler st p)"
  shows "table_inv st' = table_inv st"
proof -
  have ex: "(\<exists>ph. st_handler st' p = Some (k, ph)) \<longleftrightarrow> (\<exists>ph. st_handler st p = Some (k, ph))" for p k
    using assms(4) [of p] by (cases "st_handler st' p"; cases "st_handler st p") auto
  have no: "st_handler st' p = None \<longleftrightarrow> st_handler st p = None" for p
    using assms(4) [of p] by (metis option.map_disc_iff)
  show ?thesis
    by (simp add: table_inv_def chan_open_def assms(1-3) ex no)
qed

lemma chan_open_touch [simp]: "chan_open (touch p now st) q = chan_open st q"
  by (auto simp: chan_open_def touch_def split: option.split)

lemma touch_fields [simp]:
  "st_table (touch p now st) = st_table st" "st_next (touch p now st) = st_next st"
  "st_handler (touch p now st) = st_handler st" "st_hungup (touch p now st) = st_hungup st"
  "st_out (touch p now st) = st_out st" "st_heap (touch p now st) q = None \<longleftrightarrow> st_heap st q = None"
  "st_serving (touch p now st) = st_serving st"
  by (auto simp: touch_def split: option.split)

lemma touch_inv [simp]: "table_inv (touch p now st) = table_inv st"
  by (simp add: table_inv_def)

lemma closeSessionChan_fields [simp]:
  "st_table (closeSessionChan p st) = st_table st" "st_next (closeSessionChan p st) = st_next st"
  "st_handler (closeSessionChan p st) = st_handler st" "st_hungup (closeSessionChan p st) = st_hungup st"
  "st_out (closeSessionChan p st) = st_out st"
  "st_heap (closeSessionChan p st) q = None \<longleftrightarrow> st_heap st q = None"
  "st_serving (closeSessionChan p st) = st_serving st"
  by (auto simp: closeSessionChan_def split: option.split chan.split)

lemma chan_open_close [simp]: "chan_open (closeSessionChan p st) q \<longleftrightarrow> chan_open st q \<and> q \<noteq> p"
  by (auto simp: chan_open_def closeSessionChan_def split: option.split chan.split)

text \<open>Unregistering an entry together with closing its channel keeps the invariant.\<close>

lemma unregister_inv:
  assumes "table_inv st" and "(k, p) \<in> set (st_table st)"
  shows "table_inv ((closeSessionChan p st)\<lparr>st_table := AList.delete k (st_table st)\<rparr>)"
proof -
  let ?st' = "(closeSessionChan p st)\<lparr>st_table := AList.delete k (st_table st)\<rparr>"
  have open_iff: "chan_open ?st' q \<longleftrightarrow> chan_open st q \<and> q \<noteq> p" for q
    using chan_open_close [of p st q] by (simp add: chan_open_def)
  have other: "j = k" if "(j, p) \<in> set (st_table st)" for j
    using key_of_pointer [OF assms(1)] assms(2) that by blast
  note inv = table_invD [OF assms(1)]
  show ?thesis
    unfolding table_inv_def open_iff
  proof (intro conjI allI impI)
    fix q assume "chan_open st q \<and> q \<noteq> p"
    then obtain j where "(j, q) \<in> set (st_table st)" "q \<noteq> p" using inv(3) by blast
    moreover have "j \<noteq> k"
      using inv(1) assms(2) calculation by (metis eq_key_imp_eq_value)
    ultimately show "\<exists>j. (j, q) \<in> set (st_table ?st')" by (auto simp: in_delete)
  qed (use inv in \<open>auto simp: in_delete distinct_delete dest: other\<close>)
qed

lemma removeSession_inv: "table_inv st \<Longrightarrow> table_inv (removeSession src p st)"
  by (auto simp: removeSession_def intro: unregister_inv dest: map_of_SomeD)

text \<open>The effect of the reaper on the table, entry by entry.\<close>

lemma reap_entry_inv:
  "table_inv st \<Longrightarrow> e \<in> set (st_table st) \<Longrightarrow> table_inv (reap_entry dur now e st)"
  by (cases e) (auto simp: reap_entry_def unregister_inv split: option.split)

lemma reap_entry_table:
  "set (st_table (reap_entry dur now e st)) =
     (if \<exists>s. st_heap st (snd e) = Some s \<and> expired dur now s
      then {x \<in> set (st_table st). fst x \<noteq> fst e} else set (st_table st))"
  by (auto simp: reap_entry_def AList.delete_eq split: option.split)

lemma reap_entry_heap:
  "q \<noteq> snd e \<Longrightarrow> st_heap (reap_entry dur now e st) q = st_heap st q"
  by (auto simp: reap_entry_def closeSessionChan_def split: option.split chan.split)

lemma reap_entry_fields [simp]:
  "st_next (reap_entry dur now e st) = st_next st" "st_handler (reap_entry dur now e st) = st_handler st"
  "st_hungup (reap_entry dur now e st) = st_hungup st" "st_out (reap_entry dur now e st) = st_out st"
  "st_serving (reap_entry dur now e st) = st_serving st"
  by (auto simp: reap_entry_def split: option.split)

lemma fold_reap_fields [simp]:
  "st_next (fold (reap_entry dur now) es st) = st_next st"
  "st_handler (fold (reap_entry dur now) es st) = st_handler st"
  "st_hungup (fold (reap_entry dur now) es st) = st_hungup st"
  "st_out (fold (reap_entry dur now) es st) = st_out st"
  "st_serving (fold (reap_entry dur now) es st) = st_serving st"
  by (induction es arbitrary: st) simp_all

definition stale :: "int \<Rightarrow> int \<Rightarrow> 'a session_scheme sessions \<Rightarrow> nat \<Rightarrow> bool" where
  "stale dur now st p \<longleftrightarrow> (\<exists>s. st_heap st p = Some s \<and> expired dur now s)"

text \<open>Reaping the entries \<open>es\<close>, distinct keys and pointers, all still registered.\<close>

lemma fold_reap:
  assumes "table_inv st" and "set es \<subseteq> set (st_table st)" and "distinct (map fst es)" and "distinct (map snd es)"
  shows "table_inv (fold (reap_entry dur now) es st) \<and>
    set (st_table (fold (reap_entry dur now) es st)) =
      {x \<in> set (st_table st). x \<in> set es \<longrightarrow> \<not> stale dur now st (snd x)}"
  using assms
proof (induction es arbitrary: st)
  case (Cons e es)
  let ?st1 = "reap_entry dur now e st"
  obtain k p where e: "e = (k, p)" by (cases e)
  from Cons.prems have reg: "(k, p) \<in> set (st_table st)" by (simp add: e)
  have "x \<in> set (st_table st) \<and> fst x \<noteq> k \<longleftrightarrow> x \<in> set (st_table st) \<and> x \<noteq> e" for x
    using reg table_invD(1) [OF Cons.prems(1)] by (metis e eq_key_imp_eq_value fst_conv prod.collapse)
  then have tab: "set (st_table ?st1) = {x \<in> set (st_table st). x = e \<longrightarrow> \<not> stale dur now st (snd e)}"
    unfolding reap_entry_table stale_def e by (simp del: split_paired_All split_paired_Ex) blast
  have "set es \<subseteq> set (st_table ?st1)"
    using Cons.prems by (auto simp: tab)
  moreover have same: "stale dur now ?st1 (snd x) = stale dur now st (snd x)" if "x \<in> set es" for x
  proof -
    have "snd x \<noteq> snd e" using Cons.prems(4) imageI [OF that, of snd]
      by (metis distinct.simps(2) list.simps(9) set_map)
    then show ?thesis by (simp add: stale_def reap_entry_heap)
  qed
  ultimately have "table_inv (fold (reap_entry dur now) es ?st1) \<and>
      set (st_table (fold (reap_entry dur now) es ?st1)) =
        {x \<in> set (st_table ?st1). x \<in> set es \<longrightarrow> \<not> stale dur now ?st1 (snd x)}"
    using Cons.IH [of ?st1] Cons.prems reap_entry_inv [of st e dur now] by simp
  moreover have "{x \<in> set (st_table ?st1). x \<in> set es \<longrightarrow> \<not> stale dur now ?st1 (snd x)} =
      {x \<in> set (st_table st). x \<in> set (e # es) \<longrightarrow> \<not> stale dur now st (snd x)}"
    unfolding tab by (simp add: same del: split_paired_All split_paired_Ex cong: conj_cong imp_cong)
  ultimately show ?case by simp
qed simp

lemma reap_inv:
  assumes "table_inv st"
  shows "table_inv (reap dur now st)"
    and "set (st_table (reap dur now st)) = {x \<in> set (st_table st). \<not> stale dur now st (snd x)}"
proof -
  have "distinct (map snd (st_table st))"
    using table_invD(1) [OF assms] key_of_pointer [OF assms]
    by (auto simp: distinct_map inj_on_def)
  with fold_reap [OF assms _ table_invD(1) [OF assms], of dur now]
  show "table_inv (reap dur now st)"
    and "set (st_table (reap dur now st)) = {x \<in> set (st_table st). \<not> stale dur now st (snd x)}"
    by (auto simp: reap_def)
qed

lemma reap_fields [simp]:
  "st_next (reap dur now st) = st_next st" "st_handler (reap dur now st) = st_handler st"
  "st_hungup (reap dur now st) = st_hungup st" "st_out (reap dur now st) = st_out st"
  "st_serving (reap dur now st) = st_serving st"
  by (simp_all add: reap_def)

lemma update_fresh: "k \<notin> fst ` set t \<Longrightarrow> AList.update k v t = t @ [(k, v)]"
  by (induction t) auto

lemma add_session_inv:
  assumes "table_inv st" and "map_of (st_table st) src = None" and "ss_closeChan s = ChanOpen"
  shows "table_inv (snd (add_session src s st))"
proof -
  let ?st' = "snd (add_session src s st)"
  have fresh: "st_heap st (st_next st) = None" "st_handler st (st_next st) = None"
    using table_invD(4) [OF assms(1), of "st_next st"] by simp_all
  have open_iff: "chan_open ?st' q \<longleftrightarrow> chan_open st q \<or> q = st_next st" for q
    using assms(3) fresh by (auto simp: chan_open_def add_session_def)
  have src: "src \<notin> fst ` set (st_table st)" using assms(2) by (simp add: map_of_eq_None_iff)
  then have tab: "set (st_table ?st') = insert (src, st_next st) (set (st_table st))"
    by (simp add: add_session_def update_fresh)
  note inv = table_invD [OF assms(1)]
  have old: "q \<noteq> st_next st" if "(k, q) \<in> set (st_table st)" for k q
    using inv(2) [OF that] fresh by (auto simp: chan_open_def)
  show ?thesis
    unfolding table_inv_def open_iff tab
  proof (intro conjI allI impI)
    fix q assume "chan_open st q \<or> q = st_next st"
    then show "\<exists>k. (k, q) \<in> insert (src, st_next st) (set (st_table st))"
      using inv(3) by blast
  next
    fix k q assume "(k, q) \<in> insert (src, st_next st) (set (st_table st))"
    then show "chan_open st q \<or> q = st_next st" and "\<exists>ph. st_handler ?st' q = Some (k, ph)"
      using inv(2) [of k q] old [of k q] by (auto simp: add_session_def)
  qed (use inv in \<open>auto simp: add_session_def distinct_update\<close>)
qed

lemma add_session_fst [simp]: "fst (add_session src s st) = st_next st"
  by (simp add: add_session_def)

lemma removeSession_fields [simp]:
  "st_next (removeSession src p st) = st_next st" "st_handler (removeSession src p st) = st_handler st"
  "st_hungup (removeSession src p st) = st_hungup st" "st_out (removeSession src p st) = st_out st"
  "st_serving (removeSession src p st) = st_serving st"
  by (auto simp: removeSession_def)

text \<open>After a goroutine has unregistered its session, the session's channel is closed.\<close>

lemma removeSession_closes:
  assumes "table_inv st" and "st_handler st p = Some (src, ph)"
  shows "\<not> chan_open (removeSession src p st) p"
proof
  assume op: "chan_open (removeSession src p st) p"
  then have "chan_open st p"
    by (auto simp: removeSession_def chan_open_def closeSessionChan_def split: if_splits option.splits chan.splits)
  then obtain k where "(k, p) \<in> set (st_table st)" using table_invD(3) [OF assms(1)] by blast
  with assms have "(src, p) \<in> set (st_table st)" using table_invD(2) [OF assms(1)] by fastforce
  then have "map_of (st_table st) src = Some p" using table_invD(1) [OF assms(1)] by simp
  with op show False using chan_open_close [of p st p] by (simp add: removeSession_def chan_open_def)
qed

lemma chan_open_removeSession: "chan_open (removeSession src p st) q \<Longrightarrow> chan_open st q"
  using chan_open_close [of p st q] by (auto simp: removeSession_def chan_open_def split: if_splits)

lemma set_phase_handler:
  "st_handler (set_phase p ph st) q =
     (if q = p then map_option (\<lambda>(src, _). (src, ph)) (st_handler st p) else st_handler st q)"
  by (auto simp: set_phase_def split: option.split)

lemma set_phase_fields [simp]:
  "st_heap (set_phase p ph st) = st_heap st" "st_table (set_phase p ph st) = st_table st"
  "st_next (set_phase p ph st) = st_next st" "st_hungup (set_phase p ph st) = st_hungup st"
  "st_out (set_phase p ph st) = st_out st" "st_serving (set_phase p ph st) = st_serving st"
  "chan_open (set_phase p ph st) q = chan_open st q"
  by (auto simp: set_phase_def chan_open_def split: option.split)

lemma set_phase_inv [simp]: "table_inv (set_phase p ph st) = table_inv st"
  by (rule table_inv_cong) (auto simp: set_phase_handler option.map_comp o_def case_prod_unfold
      intro: option.map_cong)

lemma end_handler_inv:
  assumes "table_inv st" and "\<not> chan_open st p"
  shows "table_inv (end_handler p st)"
proof -
  have "(k, p) \<notin> set (st_table st)" for k
    using assms(2) table_invD(2) [OF assms(1)] by blast
  moreover have "chan_open (end_handler p st) q = chan_open st q" for q
    by (simp add: chan_open_def end_handler_def)
  ultimately show ?thesis
    using assms(1) by (auto simp: table_inv_def) (auto simp: end_handler_def)
qed

end
