(* ===== verification/Udp.thy ===== *)
theory Udp
  imports UdpSession
begin

text \<open>
  \<open>Serve\<close> of the two UDP tunnels over the session table: the read loop, the reaper and the goroutine
  of each session, as a function from events to states.  An event is what a blocking call returned, a
  tick of the reaper's timer, or a call of \<open>Close\<close>.
\<close>

datatype udp_event =
    Packet string string "handle result" int
  | OddSource
  | ReadFails go_error
  | Tick int
  | Check nat
  | ReadReturns nat string "go_error option" int bool bool
  | Finish nat
  | CloseCalled
  | ReaperExits

text \<open>
  \<open>Packet src payload dialled now\<close>: a datagram from \<open>src\<close>, with the outcome a dial would have.
  \<open>ReadReturns p d e now resolves writes\<close>: the session's connection returned \<open>d\<close> or the error \<open>e\<close>, and
  the outcomes of resolving the client's address and writing to it.  \<open>OddSource\<close>: a source address that
  is not a UDP address (netstack only).  The \<open>select\<close> of the reaper takes either ready case, so a tick may
  still be served after \<open>done\<close> was closed: \<open>ReaperExits\<close> is its other case.
\<close>

definition emit :: "udp_out \<Rightarrow> 's sessions \<Rightarrow> 's sessions" where
  "emit x st = st\<lparr>st_out := st_out st @ [x]\<rparr>"

section \<open>The UDP proxy\<close>

definition getOrCreateSession ::
  "UDPProxyTunnelConfig \<Rightarrow> handle result \<Rightarrow> int \<Rightarrow> string \<Rightarrow> udpSession sessions \<Rightarrow>
     nat result \<times> udpSession sessions" where
  "getOrCreateSession conf dialled now src st =
     (case map_of (st_table st) src of
        Some p \<Rightarrow> (Inr p, touch p now st)
      | None \<Rightarrow>
          (case dialled of
             Inl e \<Rightarrow> (Inl (ErrWrap (''UDPProxyTunnel: could not Dial('' @ upt_Target conf @ ''): '') e), st)
           | Inr remoteConn \<Rightarrow>
               (let s = \<lparr>ss_conn = remoteConn, ss_lastActive = now, ss_closeChan = ChanOpen,
                         us_inactivityDur = seconds (upt_InactivityTimeout conf)\<rparr>;
                    (p, st') = add_session src s st
                in (Inr p, st'))))"

text \<open>The deferred function of \<open>handleRemoteToLocal\<close> unregisters, then hangs up.\<close>

definition proxy_leave :: "nat \<Rightarrow> string \<Rightarrow> udpSession sessions \<Rightarrow> udpSession sessions" where
  "proxy_leave p src st = set_phase p Finishing (removeSession src p st)"

definition handleRemoteToLocal_check :: "nat \<Rightarrow> udpSession sessions \<Rightarrow> udpSession sessions" where
  "handleRemoteToLocal_check p st =
     (case st_handler st p of
        Some (src, AtTop) \<Rightarrow> if chan_open st p then set_phase p Reading st else proxy_leave p src st
      | _ \<Rightarrow> st)"

definition handleRemoteToLocal_read ::
  "nat \<Rightarrow> string \<Rightarrow> go_error option \<Rightarrow> int \<Rightarrow> bool \<Rightarrow> bool \<Rightarrow> udpSession sessions \<Rightarrow> udpSession sessions" where
  "handleRemoteToLocal_read p d err now resolves writes st =
     (case st_handler st p of
        Some (src, Reading) \<Rightarrow>
          (case err of
             Some e \<Rightarrow>
               if net_Error_Timeout e \<and> chan_open st p then set_phase p AtTop st
               else proxy_leave p src st
           | None \<Rightarrow>
               (let st = touch p now st
                in if \<not> resolves then proxy_leave p src st
                   else if \<not> writes then proxy_leave p src st
                   else set_phase p AtTop (emit (Replied src d) st)))
      | _ \<Rightarrow> st)"

definition handleRemoteToLocal_finish :: "nat \<Rightarrow> udpSession sessions \<Rightarrow> udpSession sessions" where
  "handleRemoteToLocal_finish p st =
     (case st_handler st p of
        Some (src, Finishing) \<Rightarrow> end_handler p (hang_up p st)
      | _ \<Rightarrow> st)"

fun proxy_step :: "UDPProxyTunnelConfig \<Rightarrow> udp_event \<Rightarrow> udpSession sessions \<Rightarrow> udpSession sessions" where
  "proxy_step conf (Packet src payload dialled now) st =
     (if \<not> st_serving st then st
      else case getOrCreateSession conf dialled now src st of
             (Inl e, st') \<Rightarrow> st'
           | (Inr p, st') \<Rightarrow> emit (Sent p payload) (touch p now st'))"
| "proxy_step conf (ReadFails e) st =
     (if st_serving st \<and> closedByUs (conf\<lparr>closed := st_flag st\<rparr>) (Some e)
      then st\<lparr>st_serving := False\<rparr> else st)"
| "proxy_step conf (Tick now) st =
     (if upt_InactivityTimeout conf > 0 \<and> st_reaper st
      then reap (seconds (upt_InactivityTimeout conf)) now st else st)"
| "proxy_step conf (Check p) st = handleRemoteToLocal_check p st"
| "proxy_step conf (ReadReturns p d err now resolves writes) st =
     handleRemoteToLocal_read p d err now resolves writes st"
| "proxy_step conf (Finish p) st = handleRemoteToLocal_finish p st"
| "proxy_step conf CloseCalled st = st\<lparr>st_flag := True, st_done := True\<rparr>"
| "proxy_step conf ReaperExits st = (if st_done st then st\<lparr>st_reaper := False\<rparr> else st)"
| "proxy_step conf OddSource st = st"

text \<open>What the goroutines of \<open>Serve\<close> have made of the events so far.\<close>

definition UDPProxyTunnel_Serve :: "UDPProxyTunnelConfig \<Rightarrow> udp_event list \<Rightarrow> udpSession sessions result" where
  "UDPProxyTunnel_Serve conf evs =
     (if upt_listener conf = None then Inl (ErrMsg ''udp proxy: Serve called before Bind'')
      else Inr (fold (proxy_step conf) evs no_sessions))"

section \<open>The UDP server tunnel\<close>

text \<open>The deferred calls run in the other order: hang up, then \<open>closeSession\<close>.\<close>

definition server_leave :: "nat \<Rightarrow> udpServerSession sessions \<Rightarrow> udpServerSession sessions" where
  "server_leave p st = set_phase p Finishing (hang_up p st)"

definition server_packet ::
  "UDPServerTunnelConfig \<Rightarrow> string \<Rightarrow> string \<Rightarrow> handle result \<Rightarrow> int \<Rightarrow> udpServerSession sessions \<Rightarrow>
     udpServerSession sessions" where
  "server_packet conf src payload dialled now st =
     (case map_of (st_table st) src of
        Some p \<Rightarrow> emit (Sent p payload) (touch p now st)
      | None \<Rightarrow>
          (case dialled of
             Inl e \<Rightarrow> st
           | Inr localConn \<Rightarrow>
               (let s = \<lparr>ss_conn = localConn, ss_lastActive = now, ss_closeChan = ChanOpen\<rparr>;
                    (p, st') = add_session src s st
                in emit (Sent p payload) st')))"

definition server_check :: "nat \<Rightarrow> udpServerSession sessions \<Rightarrow> udpServerSession sessions" where
  "server_check p st =
     (case st_handler st p of
        Some (src, AtTop) \<Rightarrow> if chan_open st p then set_phase p Reading st else server_leave p st
      | _ \<Rightarrow> st)"

definition server_read ::
  "nat \<Rightarrow> string \<Rightarrow> go_error option \<Rightarrow> int \<Rightarrow> bool \<Rightarrow> udpServerSession sessions \<Rightarrow> udpServerSession sessions" where
  "server_read p d err now writes st =
     (case st_handler st p of
        Some (src, Reading) \<Rightarrow>
          (case err of
             Some e \<Rightarrow>
               if net_Error_Timeout e \<and> chan_open st p then set_phase p AtTop st
               else server_leave p st
           | None \<Rightarrow>
               (let st = touch p now st
                in if \<not> writes then server_leave p st
                   else set_phase p AtTop (emit (Replied src d) st)))
      | _ \<Rightarrow> st)"

definition server_finish :: "nat \<Rightarrow> udpServerSession sessions \<Rightarrow> udpServerSession sessions" where
  "server_finish p st =
     (case st_handler st p of
        Some (src, Finishing) \<Rightarrow> end_handler p (removeSession src p st)
      | _ \<Rightarrow> st)"

fun server_step ::
  "UDPServerTunnelConfig \<Rightarrow> udp_event \<Rightarrow> udpServerSession sessions \<Rightarrow> udpServerSession sessions" where
  "server_step conf (Packet src payload dialled now) st =
     (if \<not> st_serving st then st else server_packet conf src payload dialled now st)"
| "server_step conf (ReadFails e) st =
     (if st_serving st \<and> closedByUs (conf\<lparr>closed := st_flag st\<rparr>) (Some e)
      then st\<lparr>st_serving := False\<rparr> else st)"
| "server_step conf (Tick now) st =
     (if ust_InactivityTimeout conf > 0 \<and> st_reaper st
      then reap (seconds (ust_InactivityTimeout conf)) now st else st)"
| "server_step conf (Check p) st = server_check p st"
| "server_step conf (ReadReturns p d err now resolves writes) st = server_read p d err now writes st"
| "server_step conf (Finish p) st = server_finish p st"
| "server_step conf CloseCalled st = st\<lparr>st_flag := True, st_done := True\<rparr>"
| "server_step conf ReaperExits st = (if st_done st then st\<lparr>st_reaper := False\<rparr> else st)"
| "server_step conf OddSource st = st"

definition UDPServerTunnel_Serve ::
  "UDPServerTunnelConfig \<Rightarrow> udp_event list \<Rightarrow> udpServerSession sessions result" where
  "UDPServerTunnel_Serve conf evs =
     (if ust_listener conf = None then Inl (ErrMsg ''udp server tunnel: Serve called before Bind'')
      else Inr (fold (server_step conf) evs no_sessions))"

section \<open>Invariants\<close>

text \<open>
  On top of the table: which connections have been hung up, each once.  In the proxy a goroutine that
  is \<open>Finishing\<close> has unregistered; in the server it has hung up.
\<close>

definition proxy_inv :: "udpSession sessions \<Rightarrow> bool" where
  "proxy_inv st \<longleftrightarrow> table_inv st \<and> distinct (st_hungup st) \<and>
     (\<forall>p. p \<in> set (st_hungup st) \<longleftrightarrow> p < st_next st \<and> st_handler st p = None) \<and>
     (\<forall>p src. st_handler st p = Some (src, Finishing) \<longrightarrow> \<not> chan_open st p)"

definition server_inv :: "udpServerSession sessions \<Rightarrow> bool" where
  "server_inv st \<longleftrightarrow> table_inv st \<and> distinct (st_hungup st) \<and>
     (\<forall>p. p \<in> set (st_hungup st) \<longleftrightarrow>
        p < st_next st \<and> (\<forall>src ph. st_handler st p = Some (src, ph) \<longrightarrow> ph = Finishing))"

lemma emit_fields [simp]:
  "st_heap (emit x st) = st_heap st" "st_table (emit x st) = st_table st" "st_next (emit x st) = st_next st"
  "st_handler (emit x st) = st_handler st" "st_hungup (emit x st) = st_hungup st"
  "st_out (emit x st) = st_out st @ [x]" "st_serving (emit x st) = st_serving st"
  "chan_open (emit x st) p = chan_open st p"
  by (simp_all add: emit_def chan_open_def)

lemma hang_up_fields [simp]:
  "st_heap (hang_up p st) = st_heap st" "st_table (hang_up p st) = st_table st" "st_next (hang_up p st) = st_next st"
  "st_handler (hang_up p st) = st_handler st" "st_hungup (hang_up p st) = p # st_hungup st"
  "st_serving (hang_up p st) = st_serving st" "chan_open (hang_up p st) q = chan_open st q"
  by (simp_all add: hang_up_def chan_open_def)

lemma emit_hang_inv [simp]: "table_inv (emit x st) = table_inv st" "table_inv (hang_up p st) = table_inv st"
  by (rule table_inv_cong; simp)+

lemma handler_allocated: "table_inv st \<Longrightarrow> st_handler st p = Some h \<Longrightarrow> p < st_next st"
  using table_invD(4) [of st p] by (metis leI option.distinct(1))

lemma proxy_leave_inv:
  assumes "proxy_inv st" and "st_handler st p = Some (src, ph)"
  shows "proxy_inv (proxy_leave p src st)"
  using assms removeSession_closes [of st p src ph]
  by (auto simp: proxy_inv_def proxy_leave_def removeSession_inv set_phase_handler
      dest: chan_open_removeSession split: if_splits)

lemma proxy_inv_touch [simp]: "proxy_inv (touch p now st) = proxy_inv st"
  by (simp add: proxy_inv_def)

lemma proxy_inv_emit [simp]: "proxy_inv (emit x st) = proxy_inv st"
  by (simp add: proxy_inv_def)

lemma proxy_inv_phase:
  "proxy_inv st \<Longrightarrow> ph \<noteq> Finishing \<Longrightarrow> proxy_inv (set_phase p ph st)"
  by (auto simp: proxy_inv_def set_phase_handler)

lemma proxy_inv_finish:
  assumes "proxy_inv st" and "st_handler st p = Some (src, Finishing)"
  shows "proxy_inv (end_handler p (hang_up p st))"
proof -
  have "\<not> chan_open (hang_up p st) p" "table_inv (hang_up p st)" "p < st_next st" "p \<notin> set (st_hungup st)"
    using assms handler_allocated [of st p] by (auto simp: proxy_inv_def)
  moreover from this end_handler_inv have "table_inv (end_handler p (hang_up p st))" by blast
  moreover have "chan_open (end_handler p (hang_up p st)) q = chan_open st q" for q
    by (simp add: chan_open_def end_handler_def hang_up_def)
  ultimately show ?thesis
    using assms(1) by (auto simp: proxy_inv_def) (auto simp: end_handler_def split: if_splits)
qed

lemma add_session_fields:
  "st_next (snd (add_session src s st)) = Suc (st_next st)"
  "st_hungup (snd (add_session src s st)) = st_hungup st"
  "st_handler (snd (add_session src s st)) = (st_handler st)(st_next st \<mapsto> (src, AtTop))"
  "st_heap (snd (add_session src s st)) = (st_heap st)(st_next st \<mapsto> s)"
  by (simp_all add: add_session_def)

lemma proxy_inv_add:
  assumes "proxy_inv st" and "map_of (st_table st) src = None" and "ss_closeChan s = ChanOpen"
  shows "proxy_inv (snd (add_session src s st))"
proof -
  have t: "table_inv st" using assms(1) by (simp add: proxy_inv_def)
  have "st_handler st (st_next st) = None" using table_invD(4) [OF t] by simp
  moreover have "\<not> st_next st < st_next st" by simp
  ultimately show ?thesis
    using assms(1) add_session_inv [OF t assms(2,3)]
    by (auto simp: proxy_inv_def add_session_fields less_Suc_eq chan_open_def split: if_splits)
qed

lemma chan_open_reap: "table_inv st \<Longrightarrow> chan_open (reap dur now st) p \<Longrightarrow> chan_open st p"
  using reap_inv [of st dur now] table_invD(2,3) by (metis (mono_tags, lifting) mem_Collect_eq)

lemma proxy_inv_reap: "proxy_inv st \<Longrightarrow> proxy_inv (reap dur now st)"
  by (auto simp: proxy_inv_def reap_inv dest: chan_open_reap)

lemma proxy_inv_flags [simp]:
  "proxy_inv (st\<lparr>st_serving := b\<rparr>) = proxy_inv st"
  "proxy_inv (st\<lparr>st_flag := b, st_done := c\<rparr>) = proxy_inv st"
  "proxy_inv (st\<lparr>st_reaper := b\<rparr>) = proxy_inv st"
  by (simp_all add: proxy_inv_def table_inv_def chan_open_def)

lemma getOrCreateSession_inv:
  assumes "proxy_inv st"
  shows "proxy_inv (snd (getOrCreateSession conf dialled now src st))"
  using assms
  by (auto simp: getOrCreateSession_def proxy_inv_add case_prod_unfold Let_def split: option.split sum.split)

lemma handleRemoteToLocal_inv:
  assumes "proxy_inv st"
  shows "proxy_inv (handleRemoteToLocal_check p st)"
    and "proxy_inv (handleRemoteToLocal_read p d err now resolves writes st)"
    and "proxy_inv (handleRemoteToLocal_finish p st)"
  using assms
  by (auto simp: handleRemoteToLocal_check_def handleRemoteToLocal_read_def handleRemoteToLocal_finish_def
      proxy_leave_inv proxy_inv_phase proxy_inv_finish Let_def split: option.split phase.split)

interpretation proxy_machine: event_machine "proxy_step conf" proxy_inv for conf
proof
  fix e and st :: "udpSession sessions"
  assume inv: "proxy_inv st"
  show "proxy_inv (proxy_step conf e st)"
    using inv getOrCreateSession_inv [OF inv] handleRemoteToLocal_inv [OF inv] proxy_inv_reap [OF inv]
    by (cases e) (auto simp: case_prod_unfold split: sum.split)
qed

section \<open>The server tunnel keeps its invariant\<close>

lemma server_inv_simps [simp]:
  "server_inv (touch p now st) = server_inv st" "server_inv (emit x st) = server_inv st"
  "server_inv (st\<lparr>st_serving := b\<rparr>) = server_inv st"
  "server_inv (st\<lparr>st_flag := b, st_done := c\<rparr>) = server_inv st"
  "server_inv (st\<lparr>st_reaper := b\<rparr>) = server_inv st"
  by (simp_all add: server_inv_def) (simp_all add: table_inv_def chan_open_def)

lemma server_inv_phase:
  "server_inv st \<Longrightarrow> st_handler st p = Some (src, ph0) \<Longrightarrow> ph0 \<noteq> Finishing \<Longrightarrow> ph \<noteq> Finishing \<Longrightarrow>
     server_inv (set_phase p ph st)"
  by (auto simp: server_inv_def set_phase_handler)

lemma server_leave_inv:
  assumes "server_inv st" and "st_handler st p = Some (src, ph)" and "ph \<noteq> Finishing"
  shows "server_inv (server_leave p st)"
  using assms handler_allocated [of st p]
  by (auto simp: server_inv_def server_leave_def set_phase_handler)

lemma server_finish_inv:
  assumes "server_inv st"
  shows "server_inv (server_finish p st)"
proof (cases "\<exists>src. st_handler st p = Some (src, Finishing)")
  case True
  then obtain src where h: "st_handler st p = Some (src, Finishing)" by blast
  have t: "table_inv st" using assms by (simp add: server_inv_def)
  have "table_inv (end_handler p (removeSession src p st))"
    using end_handler_inv removeSession_inv [OF t] removeSession_closes [OF t h] by blast
  with assms h handler_allocated [OF t h] show ?thesis
    by (auto simp: server_inv_def server_finish_def) (auto simp: end_handler_def split: if_splits)
next
  case False
  then show ?thesis using assms by (auto simp: server_finish_def split: option.split phase.split)
qed

lemma server_packet_inv:
  assumes "server_inv st"
  shows "server_inv (server_packet conf src payload dialled now st)"
proof -
  have t: "table_inv st" using assms by (simp add: server_inv_def)
  have "st_handler st (st_next st) = None" using table_invD(4) [OF t] by simp
  then have "server_inv (snd (add_session src s st))"
    if "map_of (st_table st) src = None" "ss_closeChan s = ChanOpen" for s
    using assms add_session_inv [OF t that]
    by (auto simp: server_inv_def add_session_fields less_Suc_eq split: if_splits)
  then show ?thesis
    using assms by (auto simp: server_packet_def case_prod_unfold Let_def split: option.split sum.split)
qed

lemma server_check_read_inv:
  assumes "server_inv st"
  shows "server_inv (server_check p st)" and "server_inv (server_read p d err now writes st)"
  using assms
  by (auto simp: server_check_def server_read_def server_leave_inv server_inv_phase Let_def
      split: option.split phase.split)

interpretation server_machine: event_machine "server_step conf" server_inv for conf
proof
  fix e and st :: "udpServerSession sessions"
  assume inv: "server_inv st"
  then have "server_inv (reap dur now st)" for dur now by (simp add: server_inv_def reap_inv)
  then show "server_inv (server_step conf e st)"
    using inv server_packet_inv [OF inv] server_check_read_inv [OF inv] server_finish_inv [OF inv]
    by (cases e) auto
qed

section \<open>Properties\<close>

lemma proxy_run_inv: "proxy_inv (fold (proxy_step conf) evs no_sessions)"
  by (rule proxy_machine.inv_run) (simp add: proxy_inv_def, simp add: no_sessions_def)

lemma server_run_inv: "server_inv (fold (server_step conf) evs no_sessions)"
  by (rule server_machine.inv_run) (simp add: server_inv_def, simp add: no_sessions_def)

text \<open>
  C6: In both UDP tunnels, after any events in any order: a session is registered exactly while its
  \<open>closeChan\<close> is open, under one key only, the address its goroutine answers to; no connection is
  closed twice; the proxy closes a session's connection when its goroutine ends, and the server's
  goroutine never reads from a connection it has closed.
\<close>

theorem udp_session_invariant:
  fixes pc :: UDPProxyTunnelConfig and sc :: UDPServerTunnelConfig and evs :: "udp_event list"
  defines "u \<equiv> fold (proxy_step pc) evs no_sessions"
  defines "v \<equiv> fold (server_step sc) evs no_sessions"
  shows "((\<exists>k. (k, p) \<in> set (st_table u)) \<longleftrightarrow> chan_open u p) \<and>
    ((k, p) \<in> set (st_table u) \<longrightarrow> (\<exists>ph. st_handler u p = Some (k, ph))) \<and>
    distinct (map fst (st_table u)) \<and> distinct (st_hungup u) \<and>
    (p < st_next u \<longrightarrow> (p \<in> set (st_hungup u) \<longleftrightarrow> st_handler u p = None)) \<and>
    ((\<exists>k. (k, p) \<in> set (st_table v)) \<longleftrightarrow> chan_open v p) \<and>
    ((k, p) \<in> set (st_table v) \<longrightarrow> (\<exists>ph. st_handler v p = Some (k, ph))) \<and>
    distinct (map fst (st_table v)) \<and> distinct (st_hungup v) \<and>
    (st_handler v p \<in> {Some (k, AtTop), Some (k, Reading)} \<longrightarrow> p \<notin> set (st_hungup v))"
proof -
  have u: "table_inv u" "proxy_inv u" and v: "table_inv v" "server_inv v"
    using proxy_run_inv [of pc evs] server_run_inv [of sc evs]
    by (simp_all add: u_def v_def proxy_inv_def server_inv_def)
  show ?thesis
    using table_invD(1-3) [OF u(1)] table_invD(1-3) [OF v(1)] u(2) v(2)
    by (intro conjI) (auto simp: proxy_inv_def server_inv_def)
qed

definition demo_proxy :: UDPProxyTunnelConfig where
  "demo_proxy = \<lparr>closed = False, upt_BindAddress = ''127.0.0.1:5353'', upt_Target = ''10.0.0.1:53'',
     upt_InactivityTimeout = 30, upt_listener = Some 7, upt_done = Some ChanOpen\<rparr>"

definition demo_events :: "udp_event list" where
  "demo_events = [Packet ''a'' ''one'' (Inr 11) 0, Packet ''b'' ''two'' (Inr 12) (seconds 25), Check 0,
     Packet ''a'' ''three'' (Inr 13) (seconds 1), Tick (seconds 40)]"

lemma demo_run:
  "st_table (fold (proxy_step demo_proxy) demo_events no_sessions) = [(''b'', 1)]"
  "st_out (fold (proxy_step demo_proxy) demo_events no_sessions) = [Sent 0 ''one'', Sent 1 ''two'', Sent 0 ''three'']"
  by code_simp+

theorem udp_session_invariant_witness:
  "chan_open (fold (proxy_step demo_proxy) demo_events no_sessions) 1 \<and>
   \<not> chan_open (fold (proxy_step demo_proxy) demo_events no_sessions) 0"
proof -
  from udp_session_invariant [where pc = demo_proxy and evs = demo_events and p = 1, THEN conjunct1]
    udp_session_invariant [where pc = demo_proxy and evs = demo_events and p = 0, THEN conjunct1]
  show ?thesis by (simp add: demo_run)
qed

text \<open>
  C15: One pass of the reaper removes exactly the registered sessions idle for at least the timeout and
  closes the channel of each; the others stay registered with their channels open.
\<close>

theorem reap_exact:
  assumes "table_inv st"
  shows "set (st_table (reap dur now st)) =
      {(k, p) \<in> set (st_table st). \<exists>s. st_heap st p = Some s \<and> time_Sub now (ss_lastActive s) < dur} \<and>
    (\<forall>p. chan_open (reap dur now st) p \<longleftrightarrow>
       chan_open st p \<and> (\<exists>s. st_heap st p = Some s \<and> time_Sub now (ss_lastActive s) < dur))"
proof -
  have tab: "set (st_table (reap dur now st)) = {x \<in> set (st_table st). \<not> stale dur now st (snd x)}"
    by (rule reap_inv(2) [OF assms])
  then have "set (st_table (reap dur now st)) =
      {(k, p) \<in> set (st_table st). \<exists>s. st_heap st p = Some s \<and> time_Sub now (ss_lastActive s) < dur}"
    by (fastforce simp: stale_def expired_def chan_open_def dest: table_invD(2) [OF assms])
  moreover have "chan_open (reap dur now st) p \<longleftrightarrow> (\<exists>k. (k, p) \<in> set (st_table (reap dur now st)))" for p
    using table_invD(2,3) [OF reap_inv(1) [OF assms]] by blast
  ultimately show ?thesis
    using table_invD(2,3) [OF assms] by auto
qed

theorem reap_exact_witness:
  "\<not> chan_open (reap (seconds 30) (seconds 31)
     (fold (proxy_step demo_proxy) [Packet ''a'' ''x'' (Inr 1) 0] no_sessions)) 0"
proof -
  let ?st = "fold (proxy_step demo_proxy) [Packet ''a'' ''x'' (Inr 1) 0] no_sessions"
  have "table_inv ?st" using proxy_run_inv by (simp only: proxy_inv_def)
  moreover have "map_option ss_lastActive (st_heap ?st 0) = Some 0" by code_simp
  moreover have "\<not> time_Sub (seconds 31) 0 < seconds 30" by code_simp
  ultimately show ?thesis using reap_exact [of ?st "seconds 30" "seconds 31"] by auto
qed

text \<open>
  C14: A goroutine that unregisters its session never removes another session that has since taken its
  key: \<open>removeSession\<close> (and the server's \<open>closeSession\<close>) changes nothing unless the key still maps to
  that very session, in which case exactly this entry goes and its channel is closed.
\<close>

theorem removeSession_identity:
  assumes "table_inv st"
  shows "(map_of (st_table st) src \<noteq> Some p \<longrightarrow> removeSession src p st = st) \<and>
    (map_of (st_table st) src = Some p \<longrightarrow>
       map_of (st_table (removeSession src p st)) = (map_of (st_table st))(src := None) \<and>
       (\<forall>q. chan_open (removeSession src p st) q \<longleftrightarrow> chan_open st q \<and> q \<noteq> p))"
  using chan_open_close [of p st] by (auto simp: removeSession_def delete_conv' chan_open_def)

theorem removeSession_identity_witness:
  "removeSession ''a'' 0 (fold (proxy_step demo_proxy) [Packet ''a'' ''x'' (Inr 1) 0, Tick (seconds 40),
      Packet ''a'' ''y'' (Inr 2) (seconds 41)] no_sessions) =
   fold (proxy_step demo_proxy) [Packet ''a'' ''x'' (Inr 1) 0, Tick (seconds 40),
      Packet ''a'' ''y'' (Inr 2) (seconds 41)] no_sessions"
proof -
  let ?st = "fold (proxy_step demo_proxy) [Packet ''a'' ''x'' (Inr 1) 0, Tick (seconds 40),
      Packet ''a'' ''y'' (Inr 2) (seconds 41)] no_sessions"
  have "table_inv ?st" using proxy_run_inv by (simp only: proxy_inv_def)
  moreover have "map_of (st_table ?st) ''a'' \<noteq> Some 0" by code_simp
  ultimately show ?thesis using removeSession_identity by blast
qed

section \<open>Stopping\<close>

text \<open>The flags of the state are moved by three events only.\<close>

definition flags :: "'s sessions \<Rightarrow> bool \<times> bool \<times> bool" where
  "flags st = (st_serving st, st_flag st, st_done st)"

lemma flags_simps [simp]:
  "flags (touch p now st) = flags st" "flags (emit x st') = flags st'" "flags (set_phase p ph st') = flags st'"
  "flags (closeSessionChan p st) = flags st" "flags (removeSession src p st) = flags st"
  "flags (hang_up p st') = flags st'" "flags (end_handler p st') = flags st'"
  "flags (snd (add_session src s st')) = flags st'"
  by (auto simp: flags_def touch_def emit_def set_phase_def closeSessionChan_def removeSession_def hang_up_def
      end_handler_def add_session_def split: option.split chan.split)

lemma flags_reap [simp]: "flags (reap dur now st) = flags st"
proof -
  have "flags (reap_entry dur now e st) = flags st" for e and st :: "'a session_scheme sessions"
    by (auto simp: reap_entry_def flags_def closeSessionChan_def split: option.split chan.split)
  then have "flags (fold (reap_entry dur now) es st) = flags st" for es
    by (induction es arbitrary: st) simp_all
  then show ?thesis by (simp add: reap_def)
qed

lemma proxy_flags:
  "flags (proxy_step pc ev st) = (case ev of
     ReadFails e \<Rightarrow> (st_serving st \<and> \<not> (st_flag st \<or> errors_Is_ErrClosed e), st_flag st, st_done st)
   | CloseCalled \<Rightarrow> (st_serving st, True, True)
   | _ \<Rightarrow> flags st)"
proof (cases ev)
  case (Packet src payload dialled now)
  have "flags (snd (getOrCreateSession pc dialled now src st)) = flags st"
    by (auto simp: getOrCreateSession_def case_prod_unfold Let_def split: option.split sum.split)
  then show ?thesis
    by (auto simp: Packet case_prod_unfold split: sum.split)
next
  case (Check p)
  then show ?thesis
    by (auto simp: handleRemoteToLocal_check_def proxy_leave_def split: option.split phase.split)
next
  case (ReadReturns p d err now resolves writes)
  then show ?thesis
    by (auto simp: handleRemoteToLocal_read_def proxy_leave_def Let_def split: option.split phase.split)
next
  case (Finish p)
  then show ?thesis
    by (auto simp: handleRemoteToLocal_finish_def split: option.split phase.split)
next
  case (Tick now)
  then show ?thesis by auto
qed (auto simp: flags_def closedByUs_def stopping_def)

lemma server_flags:
  "flags (server_step sc ev st) = (case ev of
     ReadFails e \<Rightarrow> (st_serving st \<and> \<not> (st_flag st \<or> errors_Is_ErrClosed e), st_flag st, st_done st)
   | CloseCalled \<Rightarrow> (st_serving st, True, True)
   | _ \<Rightarrow> flags st)"
proof (cases ev)
  case (Packet src payload dialled now)
  then show ?thesis
    by (auto simp: server_packet_def case_prod_unfold Let_def split: option.split sum.split)
next
  case (Check p)
  then show ?thesis
    by (auto simp: server_check_def server_leave_def split: option.split phase.split)
next
  case (ReadReturns p d err now resolves writes)
  then show ?thesis
    by (auto simp: server_read_def server_leave_def Let_def split: option.split phase.split)
next
  case (Finish p)
  then show ?thesis
    by (auto simp: server_finish_def split: option.split phase.split)
next
  case (Tick now)
  then show ?thesis by auto
qed (auto simp: flags_def closedByUs_def stopping_def)

text \<open>When a read loop has seen enough to stop: its flag was set, or the error says closed.\<close>

fun stops :: "bool \<Rightarrow> udp_event list \<Rightarrow> bool" where
  "stops flag [] = False"
| "stops flag (ReadFails e # evs) = (flag \<or> errors_Is_ErrClosed e \<or> stops flag evs)"
| "stops flag (CloseCalled # evs) = stops True evs"
| "stops flag (_ # evs) = stops flag evs"

lemma stops_Cons:
  "stops flag (ev # evs) \<longleftrightarrow>
     (\<exists>e. ev = ReadFails e \<and> (flag \<or> errors_Is_ErrClosed e)) \<or> stops (flag \<or> ev = CloseCalled) evs"
  by (cases ev) auto

lemma stops_iff:
  "stops flag evs \<longleftrightarrow> (\<exists>e before after. evs = before @ ReadFails e # after \<and>
     (flag \<or> CloseCalled \<in> set before \<or> errors_Is_ErrClosed e))"
proof (induction evs arbitrary: flag)
  case (Cons ev evs)
  show ?case (is "_ = ?rhs")
  proof
    assume "stops flag (ev # evs)"
    then consider e where "ev = ReadFails e" "flag \<or> errors_Is_ErrClosed e"
      | e before after where "evs = before @ ReadFails e # after"
          "flag \<or> ev = CloseCalled \<or> CloseCalled \<in> set before \<or> errors_Is_ErrClosed e"
      unfolding stops_Cons Cons.IH by blast
    then show ?rhs
    proof cases
      case (1 e)
      then have "ev # evs = [] @ ReadFails e # evs" by simp
      with 1 show ?thesis by blast
    next
      case (2 e before after)
      then have "ev # evs = (ev # before) @ ReadFails e # after" by simp
      moreover have "flag \<or> CloseCalled \<in> set (ev # before) \<or> errors_Is_ErrClosed e"
        using 2 by (auto simp del: split_paired_Ex)
      ultimately show ?thesis by blast
    qed
  next
    assume ?rhs
    then obtain e before after where "ev # evs = before @ ReadFails e # after"
      "flag \<or> CloseCalled \<in> set before \<or> errors_Is_ErrClosed e" by blast
    then show "stops flag (ev # evs)"
      unfolding stops_Cons Cons.IH by (cases before) auto
  qed
qed simp

lemma run_stops:
  assumes "\<And>ev st. flags (step ev st) = (case ev of
     ReadFails e \<Rightarrow> (st_serving st \<and> \<not> (st_flag st \<or> errors_Is_ErrClosed e), st_flag st, st_done st)
   | CloseCalled \<Rightarrow> (st_serving st, True, True)
   | _ \<Rightarrow> flags st)"
  shows "st_serving (fold step evs st) \<longleftrightarrow> st_serving st \<and> \<not> stops (st_flag st) evs"
proof (induction evs arbitrary: st)
  case (Cons ev evs)
  then show ?case using assms [of ev st] by (cases ev) (auto simp: flags_def)
qed simp

lemma udp_bound:
  "UDPProxyTunnel_Bind N c = (None, pc) \<Longrightarrow> upt_listener pc \<noteq> None"
  "UDPServerTunnel_Bind N d = (None, sc) \<Longrightarrow> ust_listener sc \<noteq> None"
  by (auto simp: UDPProxyTunnel_Bind_def UDPServerTunnel_Bind_def Let_def split: sum.splits)

text \<open>
  C17: After \<open>Bind\<close>, \<open>Serve\<close> of a UDP tunnel runs until a read fails after \<open>Close\<close> was called, or fails with
  \<open>net.ErrClosed\<close>; nothing else ends it, and it never returns an error: any other read error is
  logged and the loop goes on.
\<close>

theorem udp_serve_until_close:
  assumes "UDPProxyTunnel_Bind N c = (None, pc)" and "UDPServerTunnel_Bind N d = (None, sc)"
  shows "(\<exists>st. UDPProxyTunnel_Serve pc evs = Inr st \<and>
      (st_serving st \<longleftrightarrow> \<not> (\<exists>e before after. evs = before @ ReadFails e # after \<and>
         (CloseCalled \<in> set before \<or> errors_Is_ErrClosed e)))) \<and>
    (\<exists>st. UDPServerTunnel_Serve sc evs = Inr st \<and>
      (st_serving st \<longleftrightarrow> \<not> (\<exists>e before after. evs = before @ ReadFails e # after \<and>
         (CloseCalled \<in> set before \<or> errors_Is_ErrClosed e))))"
proof -
  have "stops False evs \<longleftrightarrow> (\<exists>e before after. evs = before @ ReadFails e # after \<and>
      (CloseCalled \<in> set before \<or> errors_Is_ErrClosed e))"
    using stops_iff [of False evs] by simp
  then show ?thesis
    using udp_bound(1) [OF assms(1)] udp_bound(2) [OF assms(2)]
      run_stops [where step = "proxy_step pc", OF proxy_flags, of evs no_sessions]
      run_stops [where step = "server_step sc", OF server_flags, of evs no_sessions]
    by (auto simp: UDPProxyTunnel_Serve_def UDPServerTunnel_Serve_def no_sessions_def)
qed

definition udp_net :: net_env where
  "udp_net = \<lparr>net_Listen = (\<lambda>n a. Inr 1), tls_LoadX509KeyPair = (\<lambda>c k. Inr 0), tls_Listen = (\<lambda>n a c. Inr 2),
     net_ListenTCP = (\<lambda>a. Inr 3), tnet_ListenTCP = (\<lambda>p. Inr 4), net_ResolveUDPAddr = Inr,
     net_ListenUDP = (\<lambda>a. Inr 5), tnet_ListenUDP = (\<lambda>p. Inr 6)\<rparr>"

definition demo_udp_server :: UDPServerTunnelConfig where
  "demo_udp_server = \<lparr>closed = False, ust_ListenPort = 53, ust_Target = ''127.0.0.1:53'', ust_InactivityTimeout = 30,
     ust_listener = None, ust_targetAddr = None, ust_done = None\<rparr>"

theorem udp_serve_until_close_witness:
  "\<exists>st. UDPProxyTunnel_Serve (snd (UDPProxyTunnel_Bind udp_net demo_proxy))
      [ReadFails (ErrMsg ''message too long''), CloseCalled, ReadFails (ErrMsg ''endpoint is in invalid state'')] = Inr st \<and>
    \<not> st_serving st"
proof -
  let ?pc = "snd (UDPProxyTunnel_Bind udp_net demo_proxy)" and ?sc = "snd (UDPServerTunnel_Bind udp_net demo_udp_server)"
  let ?evs = "[ReadFails (ErrMsg ''message too long''), CloseCalled, ReadFails (ErrMsg ''endpoint is in invalid state'')]"
  have "UDPProxyTunnel_Bind udp_net demo_proxy = (None, ?pc)"
    and "UDPServerTunnel_Bind udp_net demo_udp_server = (None, ?sc)"
    by (simp_all add: UDPProxyTunnel_Bind_def UDPServerTunnel_Bind_def udp_net_def)
  from udp_serve_until_close [OF this, of ?evs, THEN conjunct1] obtain st where
    "UDPProxyTunnel_Serve ?pc ?evs = Inr st"
    and "st_serving st \<longleftrightarrow> \<not> (\<exists>e before after. ?evs = before @ ReadFails e # after \<and>
         (CloseCalled \<in> set before \<or> errors_Is_ErrClosed e))" by blast
  moreover have "?evs = [ReadFails (ErrMsg ''message too long''), CloseCalled] @
      ReadFails (ErrMsg ''endpoint is in invalid state'') # []" by simp
  ultimately show ?thesis by (metis list.set_intros)
qed

text \<open>The events that leave session \<open>p\<close> idle: its own reads time out; all others are unrestricted.\<close>

fun idle_event :: "nat \<Rightarrow> udp_event \<Rightarrow> bool" where
  "idle_event p (ReadReturns q d err now resolves writes) =
     (q = p \<longrightarrow> (case err of Some e \<Rightarrow> net_Error_Timeout e | None \<Rightarrow> False))"
| "idle_event p _ = True"

definition idling :: "string \<Rightarrow> nat \<Rightarrow> udpSession sessions \<Rightarrow> bool" where
  "idling k p st \<longleftrightarrow> proxy_inv st \<and> \<not> st_reaper st \<and> (k, p) \<in> set (st_table st) \<and>
     st_handler st p \<in> {Some (k, AtTop), Some (k, Reading)}"

lemma reaper_simps [simp]:
  "st_reaper (touch p now st) = st_reaper st" "st_reaper (emit x st') = st_reaper st'"
  "st_reaper (set_phase p ph st') = st_reaper st'" "st_reaper (removeSession src p st) = st_reaper st"
  "st_reaper (hang_up p st') = st_reaper st'" "st_reaper (end_handler p st') = st_reaper st'"
  "st_reaper (snd (add_session src s st')) = st_reaper st'"
  by (auto simp: touch_def emit_def set_phase_def closeSessionChan_def removeSession_def hang_up_def
      end_handler_def add_session_def split: option.split chan.split)

lemma removeSession_other:
  assumes "table_inv st" and "(k, p) \<in> set (st_table st)" and "p \<noteq> q"
  shows "(k, p) \<in> set (st_table (removeSession src q st))"
  using assms table_invD(1) [OF assms(1)]
  by (auto simp: removeSession_def in_delete dest: eq_key_imp_eq_value)

lemma idling_leave:
  assumes "idling k p st" and "q \<noteq> p" and "st_handler st q = Some (src, ph)"
  shows "idling k p (proxy_leave q src st)"
  using assms proxy_leave_inv [of st q src ph] removeSession_other [of st k p q src]
  by (auto simp: idling_def proxy_leave_def proxy_inv_def set_phase_handler)

lemma idling_phase:
  assumes "idling k p st" and "ph \<noteq> Finishing"
  shows "idling k p (set_phase q ph st)"
  using assms by (cases ph) (auto simp: idling_def set_phase_handler proxy_inv_phase)

lemma idling_simps [simp]:
  "idling k p (touch q now st) = idling k p st" "idling k p (emit x st) = idling k p st"
  by (simp_all add: idling_def)

lemma idling_open: "idling k p st \<Longrightarrow> chan_open st p"
  using table_invD(2) [of st k p] by (simp add: idling_def proxy_inv_def)

lemma idling_create:
  assumes "idling k p st"
  shows "idling k p (snd (getOrCreateSession pc dialled now src st))"
proof (cases "map_of (st_table st) src")
  case None
  have "p \<noteq> st_next st" using assms handler_allocated [of st p] by (auto simp: idling_def proxy_inv_def)
  moreover have "(k, p) \<in> set (st_table (snd (add_session src s st)))" for s
    using assms None by (simp add: idling_def add_session_def update_fresh map_of_eq_None_iff)
  ultimately show ?thesis
    using assms None by (auto simp: idling_def getOrCreateSession_def add_session_fields proxy_inv_add
        case_prod_unfold Let_def split: sum.split)
qed (use assms in \<open>simp add: getOrCreateSession_def\<close>)

lemma idle_step:
  assumes "idling k p st" and "idle_event p ev"
  shows "idling k p (proxy_step pc ev st)"
proof (cases ev)
  case (Packet src payload dialled now)
  show ?thesis
    using assms(1) idling_create [OF assms(1), of pc dialled now src]
    by (auto simp: Packet case_prod_unfold split: sum.split)
next
  case (Check q)
  then show ?thesis
    using assms(1) idling_open [OF assms(1)]
    by (cases "q = p") (auto simp: handleRemoteToLocal_check_def idling_phase idling_leave
        split: option.split phase.split)
next
  case (ReadReturns q d err now resolves writes)
  then show ?thesis
    using assms idling_open [OF assms(1)]
    by (cases "q = p") (auto simp: handleRemoteToLocal_read_def idling_phase idling_leave Let_def
        split: option.splits phase.split)
next
  case (Finish q)
  have "q \<noteq> p" if "st_handler st q = Some (src, Finishing)" for src
    using that assms(1) by (auto simp: idling_def)
  then show ?thesis
    using assms(1) proxy_inv_finish [of st q]
    by (auto simp: Finish idling_def handleRemoteToLocal_finish_def end_handler_def hang_up_def
        split: option.split phase.split)
qed (use assms(1) in \<open>auto simp: idling_def\<close>)

lemma idle_run: "idling k p st \<Longrightarrow> \<forall>ev \<in> set ls. idle_event p ev \<Longrightarrow> idling k p (fold (proxy_step pc) ls st)"
  by (induction ls arbitrary: st) (auto simp: idle_step)

text \<open>
  C40: \<open>Close\<close> does not end the sessions: once the reaper has seen \<open>done\<close>, a session whose remote end stays
  silent keeps its goroutine, its registration and its connection for ever, whatever else happens.
\<close>

theorem close_leaves_sessions:
  assumes "(k, p) \<in> set (st_table (fold (proxy_step pc) evs no_sessions))"
    and "st_handler (fold (proxy_step pc) evs no_sessions) p \<in> {Some (k, AtTop), Some (k, Reading)}"
    and "\<forall>ev \<in> set later. idle_event p ev"
  shows "(k, p) \<in> set (st_table (fold (proxy_step pc) (evs @ CloseCalled # ReaperExits # later) no_sessions)) \<and>
    p \<notin> set (st_hungup (fold (proxy_step pc) (evs @ CloseCalled # ReaperExits # later) no_sessions))"
proof -
  have "idling k p (fold (proxy_step pc) (evs @ [CloseCalled, ReaperExits]) no_sessions)"
    using assms(1,2) proxy_run_inv [of pc "evs @ [CloseCalled, ReaperExits]"] by (auto simp: idling_def)
  from idle_run [OF this assms(3), of pc]
  have "idling k p (fold (proxy_step pc) (evs @ CloseCalled # ReaperExits # later) no_sessions)" by simp
  then show ?thesis by (auto simp: idling_def proxy_inv_def)
qed

theorem close_leaves_sessions_witness:
  "0 \<notin> set (st_hungup (fold (proxy_step demo_proxy) ([Packet ''a'' ''x'' (Inr 1) 0, Check 0] @ CloseCalled # ReaperExits #
     [ReadFails ErrClosed, ReadReturns 0 [] (Some (ErrTimeout ''i/o timeout'')) (seconds 5) True True, Check 0,
      Tick (seconds 3600)]) no_sessions))"
proof -
  have "(''a'', 0) \<in> set (st_table (fold (proxy_step demo_proxy) [Packet ''a'' ''x'' (Inr 1) 0, Check 0] no_sessions))"
    and "st_handler (fold (proxy_step demo_proxy) [Packet ''a'' ''x'' (Inr 1) 0, Check 0] no_sessions) 0 \<in>
      {Some (''a'', AtTop), Some (''a'', Reading)}" by code_simp+
  from close_leaves_sessions [OF this, of "[ReadFails ErrClosed,
      ReadReturns 0 [] (Some (ErrTimeout ''i/o timeout'')) (seconds 5) True True, Check 0, Tick (seconds 3600)]"]
  show ?thesis by simp
qed

end
