(* ===== verification/UdpFlows.thy ===== *)
theory UdpFlows
  imports Udp
begin

text \<open>
  What the UDP tunnels promise, without session objects, pointers into a heap and channels: a table of
  flows, from the source address to the session serving it and the time it was last active.
  \<open>flow_step\<close> is the specification, a function of the event; both tunnels compute exactly it.  The second
  half is about progress: a session whose channel is closed ends.
\<close>

section \<open>The table of flows\<close>

type_synonym flows = "string \<rightharpoonup> nat \<times> int"

text \<open>
  The table, the goroutines with the source each serves, the number of the next session, the datagrams
  sent so far, and the switches of the shutdown.  Whether a session goes on is not stored: it goes on
  exactly while the table has it under its source.
\<close>

record flow_state =
  fl_table :: flows
  fl_worker :: "nat \<rightharpoonup> string \<times> phase"
  fl_next :: nat
  fl_out :: "udp_out list"
  fl_serving :: bool
  fl_flag :: bool
  fl_done :: bool
  fl_reaper :: bool

definition no_flows :: flow_state where
  "no_flows = \<lparr>fl_table = Map.empty, fl_worker = Map.empty, fl_next = 0, fl_out = [], fl_serving = True,
     fl_flag = False, fl_done = False, fl_reaper = True\<rparr>"

text \<open>The proxy drops a flow when its goroutine leaves the loop, the server tunnel when the goroutine ends.\<close>

datatype tunnel = ProxyTunnel | ServerTunnel

definition registered :: "string \<Rightarrow> nat \<Rightarrow> flow_state \<Rightarrow> bool" where
  "registered src p F \<longleftrightarrow> map_option fst (fl_table F src) = Some p"

definition refresh :: "string \<Rightarrow> nat \<Rightarrow> int \<Rightarrow> flow_state \<Rightarrow> flow_state" where
  "refresh src p now F = (if registered src p F then F\<lparr>fl_table := (fl_table F)(src \<mapsto> (p, now))\<rparr> else F)"

definition drop_flow :: "string \<Rightarrow> nat \<Rightarrow> flow_state \<Rightarrow> flow_state" where
  "drop_flow src p F = (if registered src p F then F\<lparr>fl_table := (fl_table F)(src := None)\<rparr> else F)"

definition age :: "int \<Rightarrow> int \<Rightarrow> flows \<Rightarrow> flows" where
  "age dur now T = (\<lambda>k. case T k of None \<Rightarrow> None
     | Some (p, t) \<Rightarrow> if dur \<le> time_Sub now t then None else Some (p, t))"

definition deliver :: "udp_out \<Rightarrow> flow_state \<Rightarrow> flow_state" where
  "deliver x F = F\<lparr>fl_out := fl_out F @ [x]\<rparr>"

definition open_flow :: "string \<Rightarrow> int \<Rightarrow> flow_state \<Rightarrow> flow_state" where
  "open_flow src now F = F\<lparr>fl_table := (fl_table F)(src \<mapsto> (fl_next F, now)),
     fl_worker := (fl_worker F)(fl_next F \<mapsto> (src, AtTop)), fl_next := Suc (fl_next F)\<rparr>"

definition move :: "string \<Rightarrow> nat \<Rightarrow> phase \<Rightarrow> flow_state \<Rightarrow> flow_state" where
  "move src p ph F = F\<lparr>fl_worker := (fl_worker F)(p \<mapsto> (src, ph))\<rparr>"

definition retire :: "nat \<Rightarrow> flow_state \<Rightarrow> flow_state" where
  "retire p F = F\<lparr>fl_worker := (fl_worker F)(p := None)\<rparr>"

definition leave_loop :: "tunnel \<Rightarrow> string \<Rightarrow> nat \<Rightarrow> flow_state \<Rightarrow> flow_state" where
  "leave_loop T src p F = move src p Finishing (if T = ProxyTunnel then drop_flow src p F else F)"

lemmas flow_ops = refresh_def drop_flow_def deliver_def open_flow_def move_def retire_def leave_loop_def registered_def

text \<open>
  One event.  A datagram of a known source refreshes its flow and goes to its session; one of an unknown
  source opens a flow when the dial succeeds and is lost otherwise.  A tick drops exactly the flows idle
  for the timeout.  An answer refreshes the flow of the session that got it, if that session still has
  the flow, and goes to its source; a failure makes the goroutine leave.
\<close>

fun flow_step :: "tunnel \<Rightarrow> int \<Rightarrow> udp_event \<Rightarrow> flow_state \<Rightarrow> flow_state" where
  "flow_step T secs (Packet src payload dialled now) F =
     (if \<not> fl_serving F then F
      else case fl_table F src of
             Some (p, _) \<Rightarrow> deliver (Sent p payload) (refresh src p now F)
           | None \<Rightarrow> (case dialled of
               Inl e \<Rightarrow> F
             | Inr conn \<Rightarrow> deliver (Sent (fl_next F) payload) (open_flow src now F)))"
| "flow_step T secs (ReadFails e) F =
     F\<lparr>fl_serving := fl_serving F \<and> \<not> (fl_flag F \<or> errors_Is_ErrClosed e)\<rparr>"
| "flow_step T secs (Tick now) F =
     (if secs > 0 \<and> fl_reaper F then F\<lparr>fl_table := age (seconds secs) now (fl_table F)\<rparr> else F)"
| "flow_step T secs (Check p) F =
     (case fl_worker F p of
        Some (src, AtTop) \<Rightarrow> if registered src p F then move src p Reading F else leave_loop T src p F
      | _ \<Rightarrow> F)"
| "flow_step T secs (ReadReturns p d err now resolves writes) F =
     (case fl_worker F p of
        Some (src, Reading) \<Rightarrow>
          (case err of
             Some e \<Rightarrow> if net_Error_Timeout e \<and> registered src p F then move src p AtTop F
                       else leave_loop T src p F
           | None \<Rightarrow> if (T = ProxyTunnel \<longrightarrow> resolves) \<and> writes
                     then move src p AtTop (deliver (Replied src d) (refresh src p now F))
                     else leave_loop T src p (refresh src p now F))
      | _ \<Rightarrow> F)"
| "flow_step T secs (Finish p) F =
     (case fl_worker F p of
        Some (src, Finishing) \<Rightarrow> retire p (if T = ServerTunnel then drop_flow src p F else F)
      | _ \<Rightarrow> F)"
| "flow_step T secs CloseCalled F = F\<lparr>fl_flag := True, fl_done := True\<rparr>"
| "flow_step T secs ReaperExits F = (if fl_done F then F\<lparr>fl_reaper := False\<rparr> else F)"
| "flow_step T secs OddSource F = F"

text \<open>What the specification promises: a flow exists only for a source that has sent a datagram.\<close>

lemma flow_step_dom:
  "k \<in> dom (fl_table (flow_step T secs ev F)) \<Longrightarrow>
     k \<in> dom (fl_table F) \<or> (\<exists>payload dialled now. ev = Packet k payload dialled now)"
  by (cases ev) (auto simp: flow_ops age_def split: if_splits option.splits sum.splits phase.splits)

lemma flow_run_dom:
  "k \<in> dom (fl_table (fold (flow_step T secs) evs F)) \<Longrightarrow>
     k \<in> dom (fl_table F) \<or> (\<exists>payload dialled now. Packet k payload dialled now \<in> set evs)"
proof (induction evs arbitrary: F)
  case (Cons ev evs)
  then consider "k \<in> dom (fl_table (flow_step T secs ev F))"
    | payload dialled now where "Packet k payload dialled now \<in> set evs" by fastforce
  then show ?case
    by cases (metis flow_step_dom list.set_intros(1), metis list.set_intros(2))
qed simp

section \<open>Refinement\<close>

definition flows_of :: "'a session_scheme sessions \<Rightarrow> flows" where
  "flows_of st = (\<lambda>k. case map_of (st_table st) k of None \<Rightarrow> None
     | Some p \<Rightarrow> map_option (\<lambda>s. (p, ss_lastActive s)) (st_heap st p))"

definition abs_udp :: "'a session_scheme sessions \<Rightarrow> flow_state" where
  "abs_udp st = \<lparr>fl_table = flows_of st, fl_worker = st_handler st, fl_next = st_next st, fl_out = st_out st,
     fl_serving = st_serving st, fl_flag = st_flag st, fl_done = st_done st, fl_reaper = st_reaper st\<rparr>"

lemma abs_fields [simp]:
  "fl_table (abs_udp st) = flows_of st" "fl_worker (abs_udp st) = st_handler st" "fl_next (abs_udp st) = st_next st"
  "fl_out (abs_udp st) = st_out st" "fl_serving (abs_udp st) = st_serving st" "fl_flag (abs_udp st) = st_flag st"
  "fl_done (abs_udp st) = st_done st" "fl_reaper (abs_udp st) = st_reaper st"
  by (simp_all add: abs_udp_def)

text \<open>The contract: one step of the tunnel is one step of the specification.\<close>

locale refines_flows = event_machine step inv
  for step :: "udp_event \<Rightarrow> 'a session_scheme sessions \<Rightarrow> 'a session_scheme sessions"
    and inv :: "'a session_scheme sessions \<Rightarrow> bool" +
  fixes kind :: tunnel and secs :: int
  assumes step_refines: "inv s \<Longrightarrow> abs_udp (step ev s) = flow_step kind secs ev (abs_udp s)"
begin

lemma run_refines: "inv s \<Longrightarrow> abs_udp (fold step evs s) = fold (flow_step kind secs) evs (abs_udp s)"
  by (induction evs arbitrary: s) (simp_all add: step_refines inv_step)

end

text \<open>How the operations on the table look from outside.\<close>

lemma flags_eqD:
  assumes "flags s = flags t"
  shows "st_flag s = st_flag t" "st_done s = st_done t"
  using assms by (simp_all add: flags_def)

lemmas bits_simps [simp] = flags_simps [THEN flags_eqD(1)] flags_simps [THEN flags_eqD(2)]
  flags_reap [THEN flags_eqD(1)] flags_reap [THEN flags_eqD(2)]

lemma reaper_reap [simp]: "st_reaper (reap dur now st) = st_reaper st"
proof -
  have "st_reaper (reap_entry dur now e st) = st_reaper st" for e and st :: "'a session_scheme sessions"
    by (auto simp: reap_entry_def closeSessionChan_def split: option.split chan.split)
  then have "st_reaper (fold (reap_entry dur now) es st) = st_reaper st" for es
    by (induction es arbitrary: st) simp_all
  then show ?thesis by (simp add: reap_def)
qed

lemma flows_of_cong: "st_heap s = st_heap t \<Longrightarrow> st_table s = st_table t \<Longrightarrow> flows_of s = flows_of t"
  by (simp add: flows_of_def cong: option.case_cong)

lemma flows_simps [simp]:
  "flows_of (emit x st) = flows_of st" "flows_of (set_phase p ph st) = flows_of st"
  "flows_of (hang_up p st) = flows_of st" "flows_of (end_handler p st) = flows_of st"
  "flows_of (st\<lparr>st_serving := b\<rparr>) = flows_of st" "flows_of (st\<lparr>st_reaper := b\<rparr>) = flows_of st"
  "flows_of (st\<lparr>st_flag := b, st_done := c\<rparr>) = flows_of st"
  by (rule flows_of_cong; simp add: end_handler_def)+

lemma abs_simps [simp]:
  "abs_udp (emit x st) = deliver x (abs_udp st)" "abs_udp (hang_up p st) = abs_udp st"
  "abs_udp (end_handler p st) = retire p (abs_udp st)"
  "abs_udp (st\<lparr>st_serving := b\<rparr>) = (abs_udp st)\<lparr>fl_serving := b\<rparr>"
  "abs_udp (st\<lparr>st_reaper := b\<rparr>) = (abs_udp st)\<lparr>fl_reaper := b\<rparr>"
  "abs_udp (st\<lparr>st_flag := b, st_done := c\<rparr>) = (abs_udp st)\<lparr>fl_flag := b, fl_done := c\<rparr>"
  by (simp_all add: abs_udp_def deliver_def retire_def) (simp_all add: emit_def hang_up_def end_handler_def)

lemma abs_phase:
  "st_handler st p = Some (src, ph') \<Longrightarrow> abs_udp (set_phase p ph st) = move src p ph (abs_udp st)"
  by (simp add: abs_udp_def move_def) (simp add: set_phase_def)

lemma registered_heap:
  assumes "table_inv st" and "map_of (st_table st) k = Some p"
  shows "\<exists>s. st_heap st p = Some s" and "map_option fst (st_handler st p) = Some k"
  using table_invD(2) [OF assms(1) map_of_SomeD [OF assms(2)]] by (auto simp: chan_open_def)

lemma registered_abs:
  "table_inv st \<Longrightarrow> registered k p (abs_udp st) \<longleftrightarrow> map_of (st_table st) k = Some p"
  using registered_heap(1) [of st k] by (fastforce simp: registered_def flows_of_def split: option.splits)

lemma flows_None_iff: "table_inv st \<Longrightarrow> flows_of st k = None \<longleftrightarrow> map_of (st_table st) k = None"
  using registered_heap(1) [of st k] by (fastforce simp: flows_of_def split: option.splits)

text \<open>A session's channel is open exactly while the table has the session under its source.\<close>

lemma chan_open_registered:
  assumes "table_inv st" and "st_handler st p = Some (src, ph)"
  shows "chan_open st p \<longleftrightarrow> registered src p (abs_udp st)"
  unfolding registered_abs [OF assms(1)]
  using assms(2) table_invD(1-3) [OF assms(1)] by (metis map_of_SomeD map_of_is_SomeI old.prod.inject option.inject)

lemma abs_touch:
  assumes "table_inv st" and "map_option fst (st_handler st p) = Some src"
  shows "abs_udp (touch p now st) = refresh src p now (abs_udp st)"
proof -
  have reg: "k = src \<and> (\<exists>s. st_heap st p = Some s)" if "map_of (st_table st) k = Some p" for k
    using registered_heap [OF assms(1) that] assms(2) by simp
  have "flows_of (touch p now st) k =
      (if map_of (st_table st) src = Some p then (flows_of st)(src \<mapsto> (p, now)) else flows_of st) k" for k
  proof (cases "map_of (st_table st) k = Some p")
    case True
    with reg [OF True] show ?thesis by (auto simp: flows_of_def touch_def)
  next
    case False
    then have "flows_of (touch p now st) k = flows_of st k"
      by (cases "map_of (st_table st) k"; cases "st_heap st p") (simp_all add: flows_of_def touch_def)
    with False show ?thesis by auto
  qed
  then have "flows_of (touch p now st) =
      (if map_of (st_table st) src = Some p then (flows_of st)(src \<mapsto> (p, now)) else flows_of st)" ..
  with registered_abs [OF assms(1), of src p] show ?thesis
    unfolding refresh_def by (simp only:) (simp add: abs_udp_def)
qed

lemma lastActive_closed:
  "map_option ss_lastActive (st_heap (closeSessionChan p st) q) = map_option ss_lastActive (st_heap st q)"
  by (auto simp: closeSessionChan_def split: option.split chan.split)

lemma lastActive_pair:
  "map_option ss_lastActive x = map_option ss_lastActive y \<Longrightarrow>
     map_option (\<lambda>s. (r, ss_lastActive s)) x = map_option (\<lambda>s. (r, ss_lastActive s)) y"
  by (cases x; cases y) auto

lemma abs_removeSession:
  assumes "table_inv st"
  shows "abs_udp (removeSession src p st) = drop_flow src p (abs_udp st)"
proof -
  have "flows_of (removeSession src p st) =
      (if map_of (st_table st) src = Some p then (flows_of st)(src := None) else flows_of st)"
    using lastActive_pair [OF lastActive_closed, of _ p st]
    by (intro ext) (auto simp: removeSession_def flows_of_def delete_conv' split: option.split)
  with registered_abs [OF assms, of src p] show ?thesis
    unfolding drop_flow_def by (simp only:) (simp add: abs_udp_def)
qed

lemma abs_add:
  assumes "table_inv st" and "ss_lastActive s = now"
  shows "abs_udp (snd (add_session src s st)) = open_flow src now (abs_udp st)"
proof -
  have "p \<noteq> st_next st" if "map_of (st_table st) k = Some p" for k p
    using registered_heap(1) [OF assms(1) that] table_invD(4) [OF assms(1), of "st_next st"] by auto
  then have "flows_of (snd (add_session src s st)) = (flows_of st)(src \<mapsto> (st_next st, now))"
    by (intro ext) (auto simp: flows_of_def add_session_def update_conv' assms(2) split: option.split)
  then show ?thesis by (simp add: open_flow_def) (simp add: abs_udp_def add_session_def)
qed

lemma flows_Some_iff:
  assumes "table_inv st"
  shows "flows_of st k = Some (p, t) \<longleftrightarrow>
    (k, p) \<in> set (st_table st) \<and> (\<exists>s. st_heap st p = Some s \<and> ss_lastActive s = t)"
proof (cases "map_of (st_table st) k")
  case None
  then have "(k, p) \<notin> set (st_table st)" by (metis weak_map_of_SomeI option.distinct(1))
  with None show ?thesis by (simp add: flows_of_def)
next
  case (Some q)
  then have "(k, p) \<in> set (st_table st) \<longleftrightarrow> p = q"
    using table_invD(1) [OF assms] by (metis map_of_SomeD map_of_is_SomeI option.inject)
  then show ?thesis by (auto simp: flows_of_def Some)
qed

lemma reap_lastActive:
  "map_option ss_lastActive (st_heap (reap dur now st) q) = map_option ss_lastActive (st_heap st q)"
proof -
  have "map_option ss_lastActive (st_heap (reap_entry dur now e st) q) = map_option ss_lastActive (st_heap st q)"
    for e and st :: "'a session_scheme sessions"
    using lastActive_closed [of "snd e" st q] by (simp add: reap_entry_def split: option.split)
  then have "map_option ss_lastActive (st_heap (fold (reap_entry dur now) es st) q) =
      map_option ss_lastActive (st_heap st q)" for es
    by (induction es arbitrary: st) simp_all
  then show ?thesis by (simp add: reap_def)
qed

lemma flows_reap:
  assumes "table_inv st"
  shows "flows_of (reap dur now st) = age dur now (flows_of st)"
proof -
  have heap: "(\<exists>s. st_heap (reap dur now st) q = Some s \<and> ss_lastActive s = t) \<longleftrightarrow>
      (\<exists>s. st_heap st q = Some s \<and> ss_lastActive s = t)" for q t
    using reap_lastActive [of dur now st q] by (auto simp: map_option_eq_Some dest: sym)
  have "flows_of (reap dur now st) k = Some (p, t) \<longleftrightarrow> age dur now (flows_of st) k = Some (p, t)" for k p t
  proof -
    have "flows_of (reap dur now st) k = Some (p, t) \<longleftrightarrow>
        (k, p) \<in> set (st_table st) \<and> \<not> stale dur now st p \<and> (\<exists>s. st_heap st p = Some s \<and> ss_lastActive s = t)"
      using heap by (auto simp: flows_Some_iff [OF reap_inv(1) [OF assms]] reap_inv(2) [OF assms])
    also have "\<dots> \<longleftrightarrow> flows_of st k = Some (p, t) \<and> time_Sub now t < dur"
      by (auto simp: flows_Some_iff [OF assms] stale_def expired_def)
    also have "\<dots> \<longleftrightarrow> age dur now (flows_of st) k = Some (p, t)"
      by (auto simp: age_def split: option.split)
    finally show ?thesis .
  qed
  then show ?thesis by (metis ext not_None_eq surj_pair)
qed

lemma abs_reap:
  assumes "table_inv st"
  shows "abs_udp (reap dur now st) = (abs_udp st)\<lparr>fl_table := age dur now (flows_of st)\<rparr>"
  by (simp add: abs_udp_def flows_reap [OF assms])

text \<open>The datagrams of the read loop.\<close>

lemma refresh_again: "refresh src p now (refresh src p now F) = refresh src p now F"
  by (simp add: refresh_def registered_def)

lemma refresh_open: "refresh src (fl_next F) now (open_flow src now F) = open_flow src now F"
  by (simp add: refresh_def registered_def open_flow_def)

lemma flows_of_registered:
  assumes "table_inv st" and "map_of (st_table st) src = Some p"
  shows "\<exists>t. flows_of st src = Some (p, t)"
  using registered_heap(1) [OF assms] assms(2) by (auto simp: flows_of_def)

lemma proxy_packet_refines:
  assumes "table_inv st"
  shows "abs_udp (proxy_step conf (Packet src payload dialled now) st) =
    flow_step T secs (Packet src payload dialled now) (abs_udp st)"
proof (cases "map_of (st_table st) src")
  case None
  let ?s = "\<lambda>c. \<lparr>ss_conn = c, ss_lastActive = now, ss_closeChan = ChanOpen,
    us_inactivityDur = seconds (upt_InactivityTimeout conf)\<rparr>"
  have "abs_udp (touch (st_next st) now (snd (add_session src (?s c) st))) = open_flow src now (abs_udp st)" for c
    using abs_touch [OF add_session_inv [OF assms None], of "?s c" "st_next st" src now]
      abs_add [OF assms, of "?s c" now src] refresh_open [of src "abs_udp st" now]
    by (simp add: add_session_fields)
  then show ?thesis
    using None flows_None_iff [OF assms, of src]
    by (cases dialled) (simp_all add: getOrCreateSession_def case_prod_unfold Let_def)
next
  case (Some p)
  with flows_of_registered [OF assms Some] registered_heap(2) [OF assms Some] show ?thesis
    by (auto simp: getOrCreateSession_def abs_touch assms refresh_again)
qed

lemma server_packet_refines:
  assumes "table_inv st"
  shows "abs_udp (server_step conf (Packet src payload dialled now) st) =
    flow_step T secs (Packet src payload dialled now) (abs_udp st)"
proof (cases "map_of (st_table st) src")
  case None
  then show ?thesis
    using flows_None_iff [OF assms, of src] abs_add [OF assms, of _ now src]
    by (cases dialled) (simp_all add: server_packet_def case_prod_unfold Let_def)
next
  case (Some p)
  with flows_of_registered [OF assms Some] registered_heap(2) [OF assms Some] show ?thesis
    by (auto simp: server_packet_def abs_touch assms)
qed

text \<open>The goroutine of a session.\<close>

lemmas flow_defs = handleRemoteToLocal_check_def handleRemoteToLocal_read_def handleRemoteToLocal_finish_def
  proxy_leave_def server_check_def server_read_def server_leave_def server_finish_def

lemma proxy_worker_refines:
  assumes "table_inv st"
  shows "abs_udp (handleRemoteToLocal_check p st) = flow_step ProxyTunnel secs (Check p) (abs_udp st)"
    and "abs_udp (handleRemoteToLocal_read p d err now resolves writes st) =
      flow_step ProxyTunnel secs (ReadReturns p d err now resolves writes) (abs_udp st)"
    and "abs_udp (handleRemoteToLocal_finish p st) = flow_step ProxyTunnel secs (Finish p) (abs_udp st)"
  by (auto simp: flow_defs leave_loop_def Let_def assms chan_open_registered abs_touch abs_removeSession abs_phase
      split: option.split phase.split)

lemma server_worker_refines:
  assumes "table_inv st"
  shows "abs_udp (server_check p st) = flow_step ServerTunnel secs (Check p) (abs_udp st)"
    and "abs_udp (server_read p d err now writes st) =
      flow_step ServerTunnel secs (ReadReturns p d err now resolves writes) (abs_udp st)"
    and "abs_udp (server_finish p st) = flow_step ServerTunnel secs (Finish p) (abs_udp st)"
  by (auto simp: flow_defs leave_loop_def Let_def assms chan_open_registered abs_touch abs_removeSession abs_phase
      split: option.split phase.split)

interpretation proxy_flows: refines_flows "proxy_step conf" proxy_inv ProxyTunnel "upt_InactivityTimeout conf" for conf
proof
  fix st :: "udpSession sessions" and ev
  assume "proxy_inv st"
  then have t: "table_inv st" by (simp add: proxy_inv_def)
  show "abs_udp (proxy_step conf ev st) = flow_step ProxyTunnel (upt_InactivityTimeout conf) ev (abs_udp st)"
    using proxy_packet_refines [OF t] proxy_worker_refines [OF t]
    by (cases ev) (auto simp: abs_reap [OF t] closedByUs_def stopping_def)
qed

interpretation server_flows: refines_flows "server_step conf" server_inv ServerTunnel "ust_InactivityTimeout conf" for conf
proof
  fix st :: "udpServerSession sessions" and ev
  assume "server_inv st"
  then have t: "table_inv st" by (simp add: server_inv_def)
  show "abs_udp (server_step conf ev st) = flow_step ServerTunnel (ust_InactivityTimeout conf) ev (abs_udp st)"
    using server_packet_refines [OF t] server_worker_refines [OF t]
    by (cases ev) (auto simp: abs_reap [OF t] closedByUs_def stopping_def)
qed

lemma abs_no_sessions: "abs_udp no_sessions = no_flows"
  by (simp add: abs_udp_def flows_of_def no_sessions_def no_flows_def)

lemma proxy_run_refines:
  "abs_udp (fold (proxy_step pc) evs no_sessions) =
     fold (flow_step ProxyTunnel (upt_InactivityTimeout pc)) evs no_flows"
  using proxy_flows.run_refines [of no_sessions pc evs] proxy_run_inv [of pc "[]"] by (simp add: abs_no_sessions)

lemma server_run_refines:
  "abs_udp (fold (server_step sc) evs no_sessions) =
     fold (flow_step ServerTunnel (ust_InactivityTimeout sc)) evs no_flows"
  using server_flows.run_refines [of no_sessions sc evs] server_run_inv [of sc "[]"] by (simp add: abs_no_sessions)

text \<open>
  C7: Both UDP tunnels compute the table of flows: after any events, the table (source, session, time of
  last activity), the goroutines, the datagrams sent each way and the switches are exactly what the
  specification \<open>flow_step\<close> gives on the same events, for the configured timeout.  In particular a tick of a
  running reaper leaves exactly the flows that were active within the timeout, and no flow exists for a
  source that never sent a datagram.
\<close>

theorem udp_tunnels_refine_flows:
  fixes pc :: UDPProxyTunnelConfig and sc :: UDPServerTunnelConfig and evs :: "udp_event list"
  defines "u \<equiv> fold (proxy_step pc) evs no_sessions"
  defines "v \<equiv> fold (server_step sc) evs no_sessions"
  shows "abs_udp u = fold (flow_step ProxyTunnel (upt_InactivityTimeout pc)) evs no_flows \<and>
    abs_udp v = fold (flow_step ServerTunnel (ust_InactivityTimeout sc)) evs no_flows \<and>
    flows_of (proxy_step pc (Tick now) u) = (\<lambda>k. case flows_of u k of None \<Rightarrow> None | Some (p, t) \<Rightarrow>
      if 0 < upt_InactivityTimeout pc \<and> st_reaper u \<and> seconds (upt_InactivityTimeout pc) \<le> time_Sub now t
      then None else Some (p, t)) \<and>
    flows_of (server_step sc (Tick now) v) = (\<lambda>k. case flows_of v k of None \<Rightarrow> None | Some (p, t) \<Rightarrow>
      if 0 < ust_InactivityTimeout sc \<and> st_reaper v \<and> seconds (ust_InactivityTimeout sc) \<le> time_Sub now t
      then None else Some (p, t)) \<and>
    fst ` set (st_table u) \<union> fst ` set (st_table v) \<subseteq> {k. \<exists>payload dialled now. Packet k payload dialled now \<in> set evs}"
proof (intro conjI)
  have t: "table_inv u" "table_inv v"
    using proxy_run_inv [of pc evs] server_run_inv [of sc evs]
    by (simp_all add: u_def v_def proxy_inv_def server_inv_def)
  show u: "abs_udp u = fold (flow_step ProxyTunnel (upt_InactivityTimeout pc)) evs no_flows"
    unfolding u_def by (rule proxy_run_refines)
  show v: "abs_udp v = fold (flow_step ServerTunnel (ust_InactivityTimeout sc)) evs no_flows"
    unfolding v_def by (rule server_run_refines)
  show "flows_of (proxy_step pc (Tick now) u) = (\<lambda>k. case flows_of u k of None \<Rightarrow> None | Some (p, t) \<Rightarrow>
      if 0 < upt_InactivityTimeout pc \<and> st_reaper u \<and> seconds (upt_InactivityTimeout pc) \<le> time_Sub now t
      then None else Some (p, t))"
    by (auto simp: flows_reap [OF t(1)] age_def fun_eq_iff split: option.split)
  show "flows_of (server_step sc (Tick now) v) = (\<lambda>k. case flows_of v k of None \<Rightarrow> None | Some (p, t) \<Rightarrow>
      if 0 < ust_InactivityTimeout sc \<and> st_reaper v \<and> seconds (ust_InactivityTimeout sc) \<le> time_Sub now t
      then None else Some (p, t))"
    by (auto simp: flows_reap [OF t(2)] age_def fun_eq_iff split: option.split)
  have "fst ` set (st_table st) = dom (flows_of st)" if "table_inv st" for st :: "'b session_scheme sessions"
    using flows_None_iff [OF that] by (auto simp: dom_def map_of_eq_None_iff)
  note dom = this [OF t(1)] this [OF t(2)]
  have "fl_table no_flows k = None" for k by (simp add: no_flows_def)
  then show "fst ` set (st_table u) \<union> fst ` set (st_table v) \<subseteq>
      {k. \<exists>payload dialled now. Packet k payload dialled now \<in> set evs}"
    using flow_run_dom [of _ ProxyTunnel "upt_InactivityTimeout pc" evs no_flows]
      flow_run_dom [of _ ServerTunnel "ust_InactivityTimeout sc" evs no_flows]
    unfolding u [symmetric] v [symmetric] dom abs_fields by blast
qed

theorem udp_tunnels_refine_flows_witness:
  "fl_table (abs_udp (fold (proxy_step demo_proxy) demo_events no_sessions)) ''a'' = None \<and>
   fl_table (abs_udp (fold (proxy_step demo_proxy) demo_events no_sessions)) ''b'' = Some (1, seconds 25) \<and>
   fl_out (abs_udp (fold (proxy_step demo_proxy) demo_events no_sessions)) = [Sent 0 ''one'', Sent 1 ''two'', Sent 0 ''three'']"
  unfolding udp_tunnels_refine_flows [where pc = demo_proxy and evs = demo_events, THEN conjunct1]
  by code_simp

section \<open>Progress\<close>

text \<open>How far the goroutine of a session whose channel is closed is from its end.\<close>

fun remaining :: "(string \<times> phase) option \<Rightarrow> nat" where
  "remaining None = 0"
| "remaining (Some (src, Finishing)) = 1"
| "remaining (Some (src, AtTop)) = 2"
| "remaining (Some (src, Reading)) = 3"

definition stopped :: "nat \<Rightarrow> 'a session_scheme sessions \<Rightarrow> bool" where
  "stopped p st \<longleftrightarrow> p < st_next st \<and> \<not> chan_open st p"

locale session_worker = event_machine step inv
  for step :: "udp_event \<Rightarrow> 'a session_scheme sessions \<Rightarrow> 'a session_scheme sessions"
    and inv :: "'a session_scheme sessions \<Rightarrow> bool" +
  assumes stays_stopped: "inv st \<Longrightarrow> stopped p st \<Longrightarrow> stopped p (step ev st)"
    and never_back: "inv st \<Longrightarrow> stopped p st \<Longrightarrow> remaining (st_handler (step ev st) p) \<le> remaining (st_handler st p)"
    and read_returns: "inv st \<Longrightarrow> stopped p st \<Longrightarrow>
      remaining (st_handler (step (ReadReturns p d err now resolves writes) st) p) \<le> 2"
    and checked: "inv st \<Longrightarrow> stopped p st \<Longrightarrow> remaining (st_handler st p) \<le> 2 \<Longrightarrow>
      remaining (st_handler (step (Check p) st) p) \<le> 1"
    and finishes: "inv st \<Longrightarrow> stopped p st \<Longrightarrow> remaining (st_handler st p) \<le> 1 \<Longrightarrow>
      remaining (st_handler (step (Finish p) st) p) = 0"
begin

lemma run_stopped:
  "inv st \<Longrightarrow> stopped p st \<Longrightarrow> inv (fold step evs st) \<and> stopped p (fold step evs st) \<and>
     remaining (st_handler (fold step evs st) p) \<le> remaining (st_handler st p)"
proof (induction evs arbitrary: st)
  case (Cons ev evs)
  from Cons.IH [OF inv_step stays_stopped] never_back [of st p ev] Cons.prems show ?case
    by (fastforce intro: order_trans)
qed simp

text \<open>One more turn of each blocking call is enough, whatever happens in between.\<close>

lemma ends:
  assumes "inv st" and "stopped p st"
    and "subseq [ReadReturns p d err now resolves writes, Check p, Finish p] later"
  shows "st_handler (fold step later st) p = None"
proof -
  let ?r = "ReadReturns p d err now resolves writes"
  obtain a b c e where later: "later = a @ ?r # b @ Check p # c @ Finish p # e"
    using assms(3) by (fastforce dest!: list_emb_ConsD)
  let ?s1 = "fold step (a @ [?r]) st"
  let ?s2 = "fold step (b @ [Check p]) ?s1"
  let ?s3 = "fold step (c @ [Finish p]) ?s2"
  have 1: "inv ?s1" "stopped p ?s1" "remaining (st_handler ?s1 p) \<le> 2"
    using run_stopped [OF assms(1,2), of "a @ [?r]"] run_stopped [OF assms(1,2), of a] read_returns by auto
  have 2: "inv ?s2" "stopped p ?s2" "remaining (st_handler ?s2 p) \<le> 1"
    using run_stopped [OF 1(1,2), of "b @ [Check p]"] run_stopped [OF 1(1,2), of b] 1(3) checked [of "fold step b ?s1" p]
    by auto
  have 3: "inv ?s3" "stopped p ?s3" "remaining (st_handler ?s3 p) = 0"
    using run_stopped [OF 2(1,2), of "c @ [Finish p]"] run_stopped [OF 2(1,2), of c] 2(3) finishes [of "fold step c ?s2" p]
    by auto
  have "remaining (st_handler (fold step later st) p) = 0"
    using run_stopped [OF 3(1,2), of e] 3(3) by (simp add: later)
  then show ?thesis by (cases "st_handler (fold step later st) p" rule: remaining.cases) auto
qed

end

text \<open>The operations never reopen a channel, and a goroutine's phase is moved by its own events only.\<close>

lemma stopped_simps [simp]:
  "stopped p (touch q now st) = stopped p st" "stopped p (emit x st) = stopped p st"
  "stopped p (set_phase q ph st) = stopped p st" "stopped p (hang_up q st) = stopped p st"
  "stopped p (end_handler q st) = stopped p st" "stopped p (st\<lparr>st_serving := b\<rparr>) = stopped p st"
  "stopped p (st\<lparr>st_reaper := b\<rparr>) = stopped p st" "stopped p (st\<lparr>st_flag := b, st_done := c\<rparr>) = stopped p st"
  by (simp_all add: stopped_def) (simp_all add: chan_open_def end_handler_def)

lemma stopped_intros [intro]:
  "stopped p st \<Longrightarrow> stopped p (removeSession src q st)"
  "table_inv st \<Longrightarrow> stopped p st \<Longrightarrow> stopped p (reap dur now st)"
  "stopped p st \<Longrightarrow> stopped p (snd (add_session src s st))"
  by (auto simp: stopped_def add_session_fields dest: chan_open_removeSession chan_open_reap)
    (auto simp: chan_open_def add_session_fields)

lemma end_handler_handler [simp]: "st_handler (end_handler p st) = (st_handler st)(p := None)"
  by (simp add: end_handler_def)

lemma proxy_packet_handler:
  assumes "stopped p st"
  shows "st_handler (proxy_step conf (Packet src payload dialled now) st) p = st_handler st p"
    and "stopped p (proxy_step conf (Packet src payload dialled now) st)"
  using assms
  by (auto simp: getOrCreateSession_def case_prod_unfold Let_def stopped_intros split: option.split sum.split)
    (auto simp: add_session_fields stopped_def)

lemma server_packet_handler:
  assumes "stopped p st"
  shows "st_handler (server_step conf (Packet src payload dialled now) st) p = st_handler st p"
    and "stopped p (server_step conf (Packet src payload dialled now) st)"
  using assms
  by (auto simp: server_packet_def case_prod_unfold Let_def stopped_intros split: option.split sum.split)
    (auto simp: add_session_fields stopped_def)

interpretation proxy_worker: session_worker "proxy_step conf" proxy_inv for conf
proof
  fix st :: "udpSession sessions" and p ev d err now resolves writes
  assume inv: "proxy_inv st" and stop: "stopped p st"
  have t: "table_inv st" and no: "\<not> chan_open st p" using inv stop by (simp_all add: proxy_inv_def stopped_def)
  show "stopped p (proxy_step conf ev st)"
    using stop proxy_packet_handler [OF stop] stopped_intros(2) [OF t stop]
    by (cases ev) (auto simp: flow_defs Let_def stopped_intros split: option.split phase.split)
  show "remaining (st_handler (proxy_step conf ev st) p) \<le> remaining (st_handler st p)"
    using no proxy_packet_handler [OF stop]
    by (cases ev) (auto simp: flow_defs Let_def set_phase_handler split: option.split phase.split)
  show "remaining (st_handler (proxy_step conf (ReadReturns p d err now resolves writes) st) p) \<le> 2"
    using no by (cases "st_handler st p" rule: remaining.cases)
      (auto simp: flow_defs Let_def set_phase_handler split: option.split)
  show "remaining (st_handler (proxy_step conf (Check p) st) p) \<le> 1" if "remaining (st_handler st p) \<le> 2"
    using no that by (cases "st_handler st p" rule: remaining.cases) (auto simp: flow_defs set_phase_handler)
  show "remaining (st_handler (proxy_step conf (Finish p) st) p) = 0" if "remaining (st_handler st p) \<le> 1"
    using that by (cases "st_handler st p" rule: remaining.cases) (auto simp: flow_defs)
qed

interpretation server_worker: session_worker "server_step conf" server_inv for conf
proof
  fix st :: "udpServerSession sessions" and p ev d err now resolves writes
  assume inv: "server_inv st" and stop: "stopped p st"
  have t: "table_inv st" and no: "\<not> chan_open st p" using inv stop by (simp_all add: server_inv_def stopped_def)
  show "stopped p (server_step conf ev st)"
    using stop server_packet_handler [OF stop] stopped_intros(2) [OF t stop]
    by (cases ev) (auto simp: flow_defs Let_def stopped_intros split: option.split phase.split)
  show "remaining (st_handler (server_step conf ev st) p) \<le> remaining (st_handler st p)"
    using no server_packet_handler [OF stop]
    by (cases ev) (auto simp: flow_defs Let_def set_phase_handler split: option.split phase.split)
  show "remaining (st_handler (server_step conf (ReadReturns p d err now resolves writes) st) p) \<le> 2"
    using no by (cases "st_handler st p" rule: remaining.cases)
      (auto simp: flow_defs Let_def set_phase_handler split: option.split)
  show "remaining (st_handler (server_step conf (Check p) st) p) \<le> 1" if "remaining (st_handler st p) \<le> 2"
    using no that by (cases "st_handler st p" rule: remaining.cases) (auto simp: flow_defs set_phase_handler)
  show "remaining (st_handler (server_step conf (Finish p) st) p) = 0" if "remaining (st_handler st p) \<le> 1"
    using that by (cases "st_handler st p" rule: remaining.cases) (auto simp: flow_defs)
qed

lemma reaped_stopped:
  assumes "table_inv st" and "(k, p) \<in> set (st_table st)" and "st_heap st p = Some s"
    and "dur \<le> time_Sub now (ss_lastActive s)"
  shows "stopped p (reap dur now st)"
proof -
  have "stale dur now st p" using assms(3,4) by (auto simp: stale_def expired_def)
  then have "\<not> chan_open (reap dur now st) p"
    using table_invD(3) [OF reap_inv(1) [OF assms(1)]] reap_inv(2) [OF assms(1)] by fastforce
  moreover have "p < st_next st"
    using table_invD(2) [OF assms(1,2)] handler_allocated [OF assms(1)] by blast
  ultimately show ?thesis by (simp add: stopped_def)
qed

text \<open>
  C16: An idle session ends: with a timeout configured and the reaper running, once a tick finds a session
  idle for the timeout, its goroutine returns and its connection is closed as soon as its blocking read
  has returned and the goroutine has had two more turns, whatever else happens in between.
\<close>

theorem idle_session_ends:
  fixes pc :: UDPProxyTunnelConfig and sc :: UDPServerTunnelConfig and evs :: "udp_event list"
  defines "u \<equiv> fold (proxy_step pc) evs no_sessions"
  defines "v \<equiv> fold (server_step sc) evs no_sessions"
  assumes "subseq [ReadReturns p d err t resolves writes, Check p, Finish p] later"
  shows "(0 < upt_InactivityTimeout pc \<and> st_reaper u \<and> (k, p) \<in> set (st_table u) \<and> st_heap u p = Some s \<and>
      seconds (upt_InactivityTimeout pc) \<le> time_Sub now (ss_lastActive s) \<longrightarrow>
      st_handler (fold (proxy_step pc) (evs @ Tick now # later) no_sessions) p = None \<and>
      p \<in> set (st_hungup (fold (proxy_step pc) (evs @ Tick now # later) no_sessions))) \<and>
    (0 < ust_InactivityTimeout sc \<and> st_reaper v \<and> (k, p) \<in> set (st_table v) \<and> st_heap v p = Some s' \<and>
      seconds (ust_InactivityTimeout sc) \<le> time_Sub now (ss_lastActive s') \<longrightarrow>
      st_handler (fold (server_step sc) (evs @ Tick now # later) no_sessions) p = None \<and>
      p \<in> set (st_hungup (fold (server_step sc) (evs @ Tick now # later) no_sessions)))"
proof (intro conjI [of "_ \<longrightarrow> _" "_ \<longrightarrow> _"] impI)
  assume *: "0 < upt_InactivityTimeout pc \<and> st_reaper u \<and> (k, p) \<in> set (st_table u) \<and> st_heap u p = Some s \<and>
      seconds (upt_InactivityTimeout pc) \<le> time_Sub now (ss_lastActive s)"
  have inv: "proxy_inv u" unfolding u_def by (rule proxy_run_inv)
  have "stopped p (proxy_step pc (Tick now) u)"
    using * inv by (auto simp: proxy_inv_def intro: reaped_stopped)
  from proxy_worker.ends [OF proxy_machine.inv_step [OF inv] this assms(3)]
    proxy_worker.run_stopped [OF proxy_machine.inv_step [OF inv] this, of pc later]
  show "st_handler (fold (proxy_step pc) (evs @ Tick now # later) no_sessions) p = None \<and>
      p \<in> set (st_hungup (fold (proxy_step pc) (evs @ Tick now # later) no_sessions))"
    by (auto simp: u_def proxy_inv_def stopped_def)
next
  assume *: "0 < ust_InactivityTimeout sc \<and> st_reaper v \<and> (k, p) \<in> set (st_table v) \<and> st_heap v p = Some s' \<and>
      seconds (ust_InactivityTimeout sc) \<le> time_Sub now (ss_lastActive s')"
  have inv: "server_inv v" unfolding v_def by (rule server_run_inv)
  have "stopped p (server_step sc (Tick now) v)"
    using * inv by (auto simp: server_inv_def intro: reaped_stopped)
  from server_worker.ends [OF server_machine.inv_step [OF inv] this assms(3)]
    server_worker.run_stopped [OF server_machine.inv_step [OF inv] this, of sc later]
  show "st_handler (fold (server_step sc) (evs @ Tick now # later) no_sessions) p = None \<and>
      p \<in> set (st_hungup (fold (server_step sc) (evs @ Tick now # later) no_sessions))"
    by (auto simp: v_def server_inv_def stopped_def)
qed

theorem idle_session_ends_witness:
  "0 \<in> set (st_hungup (fold (proxy_step demo_proxy) ([Packet ''a'' ''x'' (Inr 1) 0, Check 0] @ Tick (seconds 40) #
     [Packet ''a'' ''y'' (Inr 2) (seconds 41), ReadReturns 0 [] (Some (ErrTimeout ''i/o timeout'')) (seconds 45) True True,
      Check 0, Check 1, Finish 0]) no_sessions))"
proof -
  let ?u = "fold (proxy_step demo_proxy) [Packet ''a'' ''x'' (Inr 1) 0, Check 0] no_sessions"
  let ?r = "ReadReturns 0 [] (Some (ErrTimeout ''i/o timeout'')) (seconds 45) True True"
  have "subseq [?r, Check 0, Finish 0] [Packet ''a'' ''y'' (Inr 2) (seconds 41), ?r, Check 0, Check 1, Finish 0]"
    by simp
  note * = idle_session_ends [where pc = demo_proxy and evs = "[Packet ''a'' ''x'' (Inr 1) 0, Check 0]" and k = "''a''"
      and now = "seconds 40", OF this, THEN conjunct1]
  have "(''a'', 0) \<in> set (st_table ?u)" "st_reaper ?u" "0 < upt_InactivityTimeout demo_proxy"
    and last: "map_option ss_lastActive (st_heap ?u 0) = Some 0"
    and idle: "seconds (upt_InactivityTimeout demo_proxy) \<le> time_Sub (seconds 40) 0"
    by code_simp+
  moreover from last obtain s where "st_heap ?u 0 = Some s" "ss_lastActive s = 0"
    by (auto simp only: map_option_eq_Some)
  ultimately show ?thesis using * [of s] by metis
qed

end
