(* ===== verification/Forwarding.thy ===== *)
theory Forwarding
  imports Spawner
begin

text \<open>
  What happens to an accepted connection of the TCP tunnels (\<open>routine.go\<close>): the target is resolved
  and dialled, and two goroutines run \<open>connForward\<close>, one per direction.  A goroutine's run is the list
  of its effects in order.
\<close>

section \<open>Copying\<close>

text \<open>What a \<open>Read\<close> gives: data, the end of the stream, or an error.\<close>

datatype read_event = ReadData string | ReadEOF | ReadErr go_error

text \<open>
  \<open>io.Copy\<close>, with \<open>w k d\<close> what the \<open>k\<close>-th write, of the bytes \<open>d\<close>, returns: the count and the error.  The
  result is what each write took and how the copy ended, \<open>None\<close> while it still waits for its source.
\<close>

fun io_Copy :: "(nat \<Rightarrow> string \<Rightarrow> int \<times> go_error option) \<Rightarrow> nat \<Rightarrow> read_event list \<Rightarrow>
    string list \<times> go_error option option" where
  "io_Copy w k [] = ([], None)"
| "io_Copy w k (ReadEOF # rs) = ([], Some None)"
| "io_Copy w k (ReadErr e # rs) = ([], Some (Some e))"
| "io_Copy w k (ReadData d # rs) =
     (if d = [] then io_Copy w k rs
      else
        (let (nw, ew) = w k d;
             bad = (nw < 0 \<or> int (length d) < nw);
             nw = (if bad then 0 else nw);
             ew = (if bad \<and> ew = None then Some (ErrMsg ''invalid write result'') else ew)
         in case ew of
              Some e \<Rightarrow> ([take (nat nw) d], Some (Some e))
            | None \<Rightarrow>
                if nw \<noteq> int (length d) then ([take (nat nw) d], Some (Some (ErrMsg ''short write'')))
                else (case io_Copy w (Suc k) rs of (out, r) \<Rightarrow> (d # out, r))))"

fun read_data :: "read_event list \<Rightarrow> string" where
  "read_data [] = []"
| "read_data (ReadEOF # rs) = []"
| "read_data (ReadErr e # rs) = []"
| "read_data (ReadData d # rs) = d @ read_data rs"

text \<open>How a stream ended: not yet, at its end, or with an error.\<close>

fun read_end :: "read_event list \<Rightarrow> go_error option option" where
  "read_end [] = None"
| "read_end (ReadEOF # rs) = Some None"
| "read_end (ReadErr e # rs) = Some (Some e)"
| "read_end (ReadData d # rs) = read_end rs"

datatype 'h effect = ELog string | EWrote 'h string | EClosed 'h

text \<open>Deferred calls run last in, first out: \<open>to\<close> is closed before \<open>from\<close>.\<close>

definition connForward ::
  "(nat \<Rightarrow> string \<Rightarrow> int \<times> go_error option) \<Rightarrow> 'h \<Rightarrow> 'h \<Rightarrow> read_event list \<Rightarrow> 'h effect list" where
  "connForward w src dst rs =
     (case io_Copy w 0 rs of
        (out, None) \<Rightarrow> map (EWrote dst) out
      | (out, Some None) \<Rightarrow> map (EWrote dst) out @ [EClosed dst, EClosed src]
      | (out, Some (Some e)) \<Rightarrow>
          map (EWrote dst) out @ [ELog (''Cannot forward traffic: '' @ err_Error e), EClosed dst, EClosed src])"

text \<open>The bytes written to one connection, the connections written to and the closes performed.\<close>

fun written :: "'h \<Rightarrow> 'h effect list \<Rightarrow> string" where
  "written h [] = []"
| "written h (EWrote g d # es) = (if g = h then d @ written h es else written h es)"
| "written h (_ # es) = written h es"

fun closes :: "'h effect list \<Rightarrow> 'h list" where
  "closes [] = []"
| "closes (EClosed h # es) = h # closes es"
| "closes (_ # es) = closes es"

lemma written_append [simp]: "written h (es @ fs) = written h es @ written h fs"
  by (induction h es rule: written.induct) auto

lemma closes_append [simp]: "closes (es @ fs) = closes es @ closes fs"
  by (induction es rule: closes.induct) auto

lemma written_map [simp]: "written h (map (EWrote g) ds) = (if g = h then concat ds else [])"
  by (induction ds) auto

lemma closes_map [simp]: "closes (map (EWrote h) ds) = []"
  by (induction ds) auto

lemma io_Copy_prefix: "prefix (concat (fst (io_Copy w k rs))) (read_data rs)"
proof (induction rs arbitrary: k)
  case (Cons r rs)
  have "prefix (take n d) (d @ x)" for n d and x :: string
    by (metis append_assoc append_take_drop_id prefixI)
  with Cons.IH show ?case
    by (cases r) (simp_all add: Let_def case_prod_unfold split: option.split)
qed simp

text \<open>While the destination takes all it is given, the copy is the stream.\<close>

definition takes_all :: "(nat \<Rightarrow> string \<Rightarrow> int \<times> go_error option) \<Rightarrow> bool" where
  "takes_all w \<longleftrightarrow> (\<forall>k d. w k d = (int (length d), None))"

lemma io_Copy_complete:
  "takes_all w \<Longrightarrow> concat (fst (io_Copy w k rs)) = read_data rs \<and> snd (io_Copy w k rs) = read_end rs"
  by (induction w k rs rule: io_Copy.induct) (auto simp: takes_all_def case_prod_unfold)

text \<open>A copy up to a write that fails.\<close>

lemma io_Copy_fails:
  assumes "\<forall>j < length ds. ds ! j \<noteq> [] \<and> w (k + j) (ds ! j) = (int (length (ds ! j)), None)"
    and "d \<noteq> []" and "w (k + length ds) d = (int n, Some e)" and "n \<le> length d"
  shows "io_Copy w k (map ReadData ds @ ReadData d # rest) = (ds @ [take n d], Some (Some e))"
  using assms(1,3)
proof (induction ds arbitrary: k)
  case Nil
  then show ?case using assms(2,4) by simp
next
  case (Cons c ds)
  have "c \<noteq> []" "w k c = (int (length c), None)" using Cons.prems(1) by force+
  moreover have "\<forall>j < length ds. ds ! j \<noteq> [] \<and> w (Suc k + j) (ds ! j) = (int (length (ds ! j)), None)"
    using Cons.prems(1) by force
  ultimately show ?case using Cons.IH [of "Suc k"] Cons.prems(2) by simp
qed

text \<open>
  C13: \<open>connForward\<close> writes to its destination, and to nothing else, a prefix of the bytes its source
  delivered, in order.  When every write takes all its bytes that is all of them, and the copy ends as
  the source does: it closes the destination and then the source, each once, after logging the error if
  it was one, and closes neither while the source may deliver more.  When a write fails, exactly the
  bytes taken until then were written, nothing read later is, the error is logged and both are closed.
\<close>

theorem connForward_faithful:
  fixes src dst :: 'h
  defines "failed e \<equiv> [ELog (''Cannot forward traffic: '' @ err_Error e), EClosed dst, EClosed src]"
  shows "prefix (written dst (connForward w src dst rs)) (read_data rs) \<and>
    (\<forall>h. h \<noteq> dst \<longrightarrow> written h (connForward w src dst rs) = []) \<and>
    (takes_all w \<longrightarrow> written dst (connForward w src dst rs) = read_data rs \<and>
       closes (connForward w src dst rs) = (if read_end rs = None then [] else [dst, src]) \<and>
       (\<forall>l. ELog l \<in> set (connForward w src dst rs) \<longleftrightarrow>
         (\<exists>e. read_end rs = Some (Some e) \<and> l = ''Cannot forward traffic: '' @ err_Error e))) \<and>
    (\<forall>ds d rest n e. rs = map ReadData ds @ ReadData d # rest \<and> d \<noteq> [] \<and>
       (\<forall>j < length ds. ds ! j \<noteq> [] \<and> w j (ds ! j) = (int (length (ds ! j)), None)) \<and>
       w (length ds) d = (int n, Some e) \<and> n \<le> length d \<longrightarrow>
       connForward w src dst rs = map (EWrote dst) (ds @ [take n d]) @ failed e)"
proof (intro conjI allI impI)
  obtain out r where c: "io_Copy w 0 rs = (out, r)" by force
  have eff: "connForward w src dst rs = map (EWrote dst) out @
      (case r of None \<Rightarrow> [] | Some None \<Rightarrow> [EClosed dst, EClosed src] | Some (Some e) \<Rightarrow> failed e)"
    by (simp add: connForward_def c failed_def split: option.split)
  have w: "written h (connForward w src dst rs) = (if h = dst then concat out else [])" for h
    by (auto simp: eff failed_def split: option.split)
  show "prefix (written dst (connForward w src dst rs)) (read_data rs)"
    using io_Copy_prefix [of w 0 rs] by (simp add: w c)
  show "written h (connForward w src dst rs) = []" if "h \<noteq> dst" for h
    using that by (simp add: w)
  show "written dst (connForward w src dst rs) = read_data rs" if "takes_all w"
    using io_Copy_complete [OF that, of 0 rs] by (simp add: w c)
  show "closes (connForward w src dst rs) = (if read_end rs = None then [] else [dst, src])" if "takes_all w"
    using io_Copy_complete [OF that, of 0 rs] by (auto simp: eff failed_def c split: option.split)
  show "ELog l \<in> set (connForward w src dst rs) \<longleftrightarrow>
      (\<exists>e. read_end rs = Some (Some e) \<and> l = ''Cannot forward traffic: '' @ err_Error e)" if "takes_all w" for l
  proof -
    have "read_end rs = r" using io_Copy_complete [OF that, of 0 rs] by (simp add: c)
    then show ?thesis
      by (cases r; cases "the r") (auto simp: eff failed_def)
  qed
  show "connForward w src dst rs = map (EWrote dst) (ds @ [take n d]) @ failed e"
    if "rs = map ReadData ds @ ReadData d # rest \<and> d \<noteq> [] \<and>
       (\<forall>j < length ds. ds ! j \<noteq> [] \<and> w j (ds ! j) = (int (length (ds ! j)), None)) \<and>
       w (length ds) d = (int n, Some e) \<and> n \<le> length d" for ds d rest n e
  proof -
    have "out = ds @ [take n d] \<and> r = Some (Some e)"
      using io_Copy_fails [of ds w 0 d n e rest] that c by simp
    then show ?thesis by (simp add: eff)
  qed
qed

definition sink :: "nat \<Rightarrow> string \<Rightarrow> int \<times> go_error option" where
  "sink k d = (int (length d), None)"

theorem connForward_faithful_witness:
  "written 2 (connForward sink (1 :: nat) 2 [ReadData ''ab'', ReadData ''c'', ReadEOF]) = ''abc'' \<and>
   written 1 (connForward sink (1 :: nat) 2 [ReadData ''ab'', ReadData ''c'', ReadEOF]) = [] \<and>
   connForward (\<lambda>k d. if k = 0 then sink k d else (2, Some ErrClosed)) (1 :: nat) 2
     [ReadData ''ab'', ReadData ''cdef'', ReadData ''gh''] =
   [EWrote 2 ''ab'', EWrote 2 ''cd'', ELog (''Cannot forward traffic: '' @ err_Error ErrClosed), EClosed 2, EClosed 1]"
proof -
  let ?w = "\<lambda>k d. if k = 0 then sink k d else (2, Some ErrClosed)"
  have "takes_all sink" by (simp add: takes_all_def sink_def)
  with connForward_faithful [where w = sink and src = "1 :: nat" and dst = 2 and rs = "[ReadData ''ab'', ReadData ''c'', ReadEOF]"]
  have "written 2 (connForward sink (1 :: nat) 2 [ReadData ''ab'', ReadData ''c'', ReadEOF]) = ''abc''"
    and "written 1 (connForward sink (1 :: nat) 2 [ReadData ''ab'', ReadData ''c'', ReadEOF]) = []" by simp_all
  moreover have "[ReadData ''ab'', ReadData ''cdef'', ReadData ''gh''] =
      map ReadData [''ab''] @ ReadData ''cdef'' # [ReadData ''gh''] \<and> ''cdef'' \<noteq> [] \<and>
      (\<forall>j < length [''ab'']. [''ab''] ! j \<noteq> [] \<and> ?w j ([''ab''] ! j) = (int (length ([''ab''] ! j)), None)) \<and>
      ?w (length [''ab'']) ''cdef'' = (int 2, Some ErrClosed) \<and> 2 \<le> length ''cdef''"
    by (simp add: sink_def)
  note connForward_faithful [where w = ?w and src = "1 :: nat" and dst = 2,
      THEN conjunct2, THEN conjunct2, THEN conjunct2, rule_format, OF this]
  ultimately show ?thesis by simp
qed

section \<open>Forwarding an accepted connection\<close>

text \<open>A TCP dial through the WireGuard stack or on the host, and the goroutines started.\<close>

datatype tcp_effect =
    TLog string
  | TDialTunnel addr_port
  | TDialDirect addr_port
  | TGoForward handle handle

record tcp_env =
  tnet_DialTCP :: "addr_port \<Rightarrow> handle result"
  net_DialTCP :: "addr_port \<Rightarrow> handle result"

definition AddrPort_String :: "addr_port \<Rightarrow> string" where
  "AddrPort_String ap = net_JoinHostPort (Addr_String (fst ap)) (strconv_Itoa (uint (snd ap)))"

text \<open>A failed resolution leaves the nil pointer \<open>target\<close> to be printed.\<close>

definition tcpClientForward ::
  "resolver_env \<Rightarrow> tcp_env \<Rightarrow> VirtualTun \<Rightarrow> addressPort \<Rightarrow> handle \<Rightarrow> tcp_effect list" where
  "tcpClientForward R T vt raddr conn =
     (case resolveToAddrPort R vt raddr of
        Inl e \<Rightarrow> [TLog (''TCP Server Tunnel to <nil>: '' @ err_Error e)]
      | Inr target \<Rightarrow>
          TDialTunnel target #
          (case tnet_DialTCP T target of
             Inl e \<Rightarrow> [TLog (''TCP Client Tunnel to '' @ AddrPort_String target @ '': '' @ err_Error e)]
           | Inr sconn \<Rightarrow> [TGoForward sconn conn, TGoForward conn sconn]))"

definition STDIOTcpForward ::
  "resolver_env \<Rightarrow> tcp_env \<Rightarrow> VirtualTun \<Rightarrow> addressPort \<Rightarrow> handle \<Rightarrow> handle \<Rightarrow> tcp_effect list" where
  "STDIOTcpForward R T vt raddr input output =
     (case resolveToAddrPort R vt raddr of
        Inl e \<Rightarrow> [TLog (''Name resolution error for '' @ ap_address raddr @ '': '' @ err_Error e)]
      | Inr target \<Rightarrow>
          TDialTunnel target #
          (case tnet_DialTCP T target of
             Inl e \<Rightarrow> [TLog (''TCP Client Tunnel to '' @ AddrPort_String target @ '' ('' @
                        AddrPort_String target @ ''): '' @ err_Error e)]
           | Inr sconn \<Rightarrow> [TGoForward input sconn, TGoForward sconn output]))"

definition tcpServerForward ::
  "resolver_env \<Rightarrow> tcp_env \<Rightarrow> VirtualTun \<Rightarrow> addressPort \<Rightarrow> handle \<Rightarrow> tcp_effect list" where
  "tcpServerForward R T vt raddr conn =
     (case resolveToAddrPort R vt raddr of
        Inl e \<Rightarrow> [TLog (''TCP Server Tunnel to <nil>: '' @ err_Error e)]
      | Inr target \<Rightarrow>
          TDialDirect target #
          (case net_DialTCP T target of
             Inl e \<Rightarrow> [TLog (''TCP Server Tunnel to '' @ AddrPort_String target @ '': '' @ err_Error e)]
           | Inr sconn \<Rightarrow> [TGoForward sconn conn, TGoForward conn sconn]))"

lemmas forward_defs = tcpClientForward_def STDIOTcpForward_def tcpServerForward_def

text \<open>
  Forwarding starts in both directions exactly when the target resolves and the dial succeeds,
  with the configured port.  The client and stdio tunnels only ever dial through WireGuard, the
  server tunnel only ever on the host.
\<close>

theorem tcp_forward_spec:
  "(TGoForward conn s \<in> set (tcpClientForward R T vt raddr conn) \<and>
      TGoForward s conn \<in> set (tcpClientForward R T vt raddr conn) \<longleftrightarrow>
    (\<exists>a. ResolveAddrWithContext R vt (ap_address raddr) = Inr a \<and> tnet_DialTCP T (a, ap_port raddr) = Inr s)) \<and>
   (TGoForward conn s \<in> set (tcpServerForward R T vt raddr conn) \<and>
      TGoForward s conn \<in> set (tcpServerForward R T vt raddr conn) \<longleftrightarrow>
    (\<exists>a. ResolveAddrWithContext R vt (ap_address raddr) = Inr a \<and> net_DialTCP T (a, ap_port raddr) = Inr s)) \<and>
   TDialDirect ap \<notin> set (tcpClientForward R T vt raddr conn) \<and>
   TDialDirect ap \<notin> set (STDIOTcpForward R T vt raddr input output) \<and>
   TDialTunnel ap \<notin> set (tcpServerForward R T vt raddr conn)"
  by (auto simp: forward_defs resolveToAddrPort_def split: sum.splits)

text \<open>
  The goroutines a forwarder has started, each with its run so far: \<open>reads h\<close> is what connection \<open>h\<close> has
  delivered, \<open>writes h k d\<close> what the \<open>k\<close>-th write to it, of \<open>d\<close>, returns.
\<close>

fun forward_goroutine ::
  "(handle \<Rightarrow> read_event list) \<Rightarrow> (handle \<Rightarrow> nat \<Rightarrow> string \<Rightarrow> int \<times> go_error option) \<Rightarrow> tcp_effect \<Rightarrow> handle effect list list" where
  "forward_goroutine reads writes (TGoForward src dst) = [connForward (writes dst) src dst (reads src)]"
| "forward_goroutine reads writes _ = []"

definition goroutines ::
  "(handle \<Rightarrow> read_event list) \<Rightarrow> (handle \<Rightarrow> nat \<Rightarrow> string \<Rightarrow> int \<times> go_error option) \<Rightarrow> tcp_effect list \<Rightarrow> handle effect list list" where
  "goroutines reads writes effs = concat (map (forward_goroutine reads writes) effs)"

definition copy_ended :: "(handle \<Rightarrow> read_event list) \<Rightarrow> (handle \<Rightarrow> nat \<Rightarrow> string \<Rightarrow> int \<times> go_error option) \<Rightarrow> handle \<Rightarrow> handle \<Rightarrow> bool" where
  "copy_ended reads writes src dst \<longleftrightarrow> snd (io_Copy (writes dst) 0 (reads src)) \<noteq> None"

lemma connForward_closes:
  "closes (connForward w src dst rs) = (if snd (io_Copy w 0 rs) = None then [] else [dst, src])"
  by (simp add: connForward_def split: prod.split option.split)

text \<open>
  C31: The life of a connection the TCP tunnels accept: it is closed exactly when the target was resolved and
  dialled (through WireGuard for the client tunnel, on the host for the server tunnel) and one of the two
  copies has ended, and the backend is closed with it.  When the target does not resolve or cannot be
  dialled, nothing ever closes the accepted connection: the client is left waiting.
\<close>

theorem tcp_connection_lifecycle:
  fixes R T vt raddr conn reads writes
  defines "dials dial \<equiv> \<lambda>s. \<exists>a. ResolveAddrWithContext R vt (ap_address raddr) = Inr a \<and> dial (a, ap_port raddr) = Inr s"
  defines "closed_in effs h \<equiv> \<exists>g \<in> set (goroutines reads writes effs). h \<in> set (closes g)"
  shows "(closed_in (tcpClientForward R T vt raddr conn) conn \<longleftrightarrow>
      (\<exists>s. dials (tnet_DialTCP T) s \<and> (copy_ended reads writes conn s \<or> copy_ended reads writes s conn))) \<and>
    (closed_in (tcpServerForward R T vt raddr conn) conn \<longleftrightarrow>
      (\<exists>s. dials (net_DialTCP T) s \<and> (copy_ended reads writes conn s \<or> copy_ended reads writes s conn))) \<and>
    (dials (tnet_DialTCP T) s \<and> closed_in (tcpClientForward R T vt raddr conn) conn \<longrightarrow>
      closed_in (tcpClientForward R T vt raddr conn) s) \<and>
    (dials (net_DialTCP T) s \<and> closed_in (tcpServerForward R T vt raddr conn) conn \<longrightarrow>
      closed_in (tcpServerForward R T vt raddr conn) s)"
proof -
  have pair: "(\<exists>g \<in> set (goroutines reads writes (d # [TGoForward s conn, TGoForward conn s])). h \<in> set (closes g)) \<longleftrightarrow>
      h \<in> {conn, s} \<and> (copy_ended reads writes conn s \<or> copy_ended reads writes s conn)"
    if "forward_goroutine reads writes d = []" for d s h
    using that by (auto simp: goroutines_def copy_ended_def connForward_closes)
  have none: "goroutines reads writes [TLog l] = []" "goroutines reads writes [d, TLog l] = []"
    if "forward_goroutine reads writes d = []" for d l
    using that by (simp_all add: goroutines_def)
  show ?thesis
  proof (cases "ResolveAddrWithContext R vt (ap_address raddr)")
    case (Inl e)
    then show ?thesis
      by (simp add: dials_def closed_in_def forward_defs resolveToAddrPort_def goroutines_def)
  next
    case (Inr a)
    show ?thesis
      by (cases "tnet_DialTCP T (a, ap_port raddr)"; cases "net_DialTCP T (a, ap_port raddr)")
        (auto simp: Inr dials_def closed_in_def forward_defs resolveToAddrPort_def none pair)
  qed
qed

theorem tcp_connection_lifecycle_witness:
  "\<not> (\<exists>g \<in> set (goroutines (\<lambda>h. [ReadEOF]) (\<lambda>h. sink) (tcpServerForward demo_resolver
     \<lparr>tnet_DialTCP = (\<lambda>_. Inr 8), net_DialTCP = (\<lambda>_. Inl ErrClosed)\<rparr>
     (demo_tun ''ipv4'') \<lparr>ap_address = ''example.com'', ap_port = 80\<rparr> 7)). 7 \<in> set (closes g))"
  using tcp_connection_lifecycle [where R = demo_resolver and vt = "demo_tun ''ipv4''" and conn = 7
      and T = "\<lparr>tnet_DialTCP = (\<lambda>_. Inr 8), net_DialTCP = (\<lambda>_. Inl ErrClosed)\<rparr>"
      and raddr = "\<lparr>ap_address = ''example.com'', ap_port = 80\<rparr>" and reads = "\<lambda>h. [ReadEOF]" and writes = "\<lambda>h. sink"]
  by simp

end
