(* ===== verification/Sni.thy ===== *)
theory Sni
  imports Forwarding
begin

text \<open>
  \<open>sni.go\<close>: reading the server name from a TLS ClientHello without consuming it, and forwarding the
  connection to that name.  The handshake of \<open>crypto/tls\<close> is a parameter: any program that reads from
  and writes to the connection it is given and ends with the hello it saw and an error.
\<close>

section \<open>Connections as byte streams\<close>

text \<open>
  What the peer will send, and how many bytes each \<open>Read\<close> finds ready; after the data every \<open>Read\<close>
  fails with \<open>st_end\<close> (the end of the stream, or the deadline).
\<close>

record stream =
  st_data :: string
  st_ready :: "nat list"
  st_end :: go_error

definition stream_Read :: "stream \<Rightarrow> nat \<Rightarrow> (string \<times> go_error option) \<times> stream" where
  "stream_Read st n =
     (if st_data st = [] then (([], Some (st_end st)), st)
      else
        (let ready = (case st_ready st of [] \<Rightarrow> length (st_data st) | r # _ \<Rightarrow> max 1 r);
             k = min n ready
         in ((take k (st_data st), None), st\<lparr>st_data := drop k (st_data st), st_ready := tl (st_ready st)\<rparr>)))"

text \<open>\<open>io.TeeReader\<close>: what is read is appended to the buffer.\<close>

definition tee_Read :: "string \<Rightarrow> stream \<Rightarrow> nat \<Rightarrow> (string \<times> go_error option) \<times> string \<times> stream" where
  "tee_Read buf st n = (case stream_Read st n of ((d, e), st') \<Rightarrow> ((d, e), buf @ d, st'))"

section \<open>The handshake\<close>

text \<open>A program over a connection: \<open>Read\<close> with a buffer of some size, \<open>Write\<close>, and the end.\<close>

datatype handshake =
    HandshakeDone "string option" "go_error option"
  | HandshakeRead nat "string \<times> go_error option \<Rightarrow> handshake"
  | HandshakeWrite string "nat \<times> go_error option \<Rightarrow> handshake"

text \<open>The methods of \<open>readOnlyConn\<close> that a handshake calls; \<open>Close\<close> and the deadlines do nothing.\<close>

definition readOnlyConn_Read :: "string \<Rightarrow> stream \<Rightarrow> nat \<Rightarrow> (string \<times> go_error option) \<times> string \<times> stream" where
  "readOnlyConn_Read buf st n = tee_Read buf st n"

definition readOnlyConn_Write :: "string \<Rightarrow> nat \<times> go_error option" where
  "readOnlyConn_Write p = (0, Some (ErrMsg ''io: read/write on closed pipe''))"

definition readOnlyConn_Close :: "go_error option" where
  "readOnlyConn_Close = None"

definition readOnlyConn_SetDeadline :: "int \<Rightarrow> go_error option" where
  "readOnlyConn_SetDeadline t = None"

text \<open>The hello, the error, the peeked bytes and what is left of the stream.\<close>

primrec run_handshake ::
  "handshake \<Rightarrow> string \<Rightarrow> stream \<Rightarrow> string option \<times> go_error option \<times> string \<times> stream" where
  "run_handshake (HandshakeDone hello e) buf st = (hello, e, buf, st)"
| "run_handshake (HandshakeRead n f) buf st =
     (case readOnlyConn_Read buf st n of (r, buf', st') \<Rightarrow> run_handshake (f r) buf' st')"
| "run_handshake (HandshakeWrite p f) buf st = run_handshake (f (readOnlyConn_Write p)) buf st"

text \<open>
  The anonymous struct \<open>wrappedConn\<close>: its reader is \<open>io.MultiReader\<close> of the peeked bytes and the
  connection.
\<close>

record wrapped =
  wr_peeked :: string
  wr_conn :: stream

definition wrapped_bytes :: "wrapped \<Rightarrow> string" where
  "wrapped_bytes w = wr_peeked w @ st_data (wr_conn w)"

definition peekClientHello :: "handshake \<Rightarrow> stream \<Rightarrow> string \<times> wrapped \<times> go_error option" where
  "peekClientHello tls st =
     (let (hello, err, peeked, rest) = run_handshake tls [] st;
          wrappedConn = \<lparr>wr_peeked = peeked, wr_conn = rest\<rparr>
      in case hello of
           Some name \<Rightarrow> (name, wrappedConn, None)
         | None \<Rightarrow> ([], wrappedConn, err))"

section \<open>Forwarding\<close>

datatype sni_effect =
    SDeadline bool
  | SDial dial
  | SLog string
  | SClose handle
  | SGoForward handle handle wrapped

text \<open>
  \<open>SDeadline True\<close> sets the five-second read deadline, \<open>SDeadline False\<close> clears it.  \<open>sn_deadline\<close> gives
  the outcome of each.
\<close>

record 're sni_env =
  sn_match :: "'re \<Rightarrow> string \<Rightarrow> bool"
  sn_uni :: "string \<Rightarrow> string"
  sn_dial :: "dial \<Rightarrow> handle result"
  sn_deadline :: "bool \<Rightarrow> go_error option"
  sn_tls :: handshake

definition sniProxyForward ::
  "'re sni_env \<Rightarrow> 're DomainRouter \<Rightarrow> handle \<Rightarrow> stream \<Rightarrow> sni_effect list \<times> go_error option" where
  "sniProxyForward E router conn st =
     (case sn_deadline E True of
        Some e \<Rightarrow> ([SDeadline True], Some (ErrWrap ''set read deadline failed: '' e))
      | None \<Rightarrow>
          (case peekClientHello (sn_tls E) st of
             (_, _, Some e) \<Rightarrow> ([SDeadline True], Some (ErrWrap ''peek client hello failed: '' e))
           | (hostname, clientConn, None) \<Rightarrow>
               (case sn_deadline E False of
                  Some e \<Rightarrow> ([SDeadline True, SDeadline False], Some (ErrWrap ''clear read deadline failed: '' e))
                | None \<Rightarrow>
                    if hostname = [] then
                      ([SDeadline True, SDeadline False], Some (ErrMsg ''no SNI hostname in ClientHello''))
                    else
                      (let (d, logs) = RoutedDial (sn_match E) (sn_uni E) (Some router) ''tcp''
                                         (net_JoinHostPort hostname ''443'');
                           pre = [SDeadline True, SDeadline False] @ map SLog logs @ [SDial d]
                       in case sn_dial E d of
                            Inl e \<Rightarrow> (pre, Some (ErrWrap ''tun tcp dial failed: '' e))
                          | Inr backend \<Rightarrow>
                              (pre @ [SGoForward conn backend clientConn, SGoForward backend conn clientConn], None)))))"

definition sniServe :: "'re sni_env \<Rightarrow> 're DomainRouter \<Rightarrow> handle \<Rightarrow> stream \<Rightarrow> sni_effect list" where
  "sniServe E router conn st =
     (case sniProxyForward E router conn st of
        (effs, None) \<Rightarrow> effs
      | (effs, Some e) \<Rightarrow> effs @ [SLog (''SNI proxy: '' @ err_Error e), SClose conn])"

section \<open>Lemmas\<close>

lemma stream_Read_split:
  assumes "stream_Read st n = ((d, e), st')"
  shows "st_data st = d @ st_data st'"
proof (cases "st_data st = []")
  case True
  with assms show ?thesis by (simp add: stream_Read_def)
next
  case False
  define k where "k = min n (case st_ready st of [] \<Rightarrow> length (st_data st) | r # _ \<Rightarrow> max 1 r)"
  from False assms have "d = take k (st_data st)" and "st_data st' = drop k (st_data st)"
    by (auto simp: stream_Read_def Let_def k_def)
  then show ?thesis by simp
qed

lemma run_handshake_keeps:
  "run_handshake h buf st = (hello, e, buf', st') \<Longrightarrow> buf' @ st_data st' = buf @ st_data st"
proof (induction h arbitrary: buf st)
  case (HandshakeRead n f)
  obtain d er st1 where r: "stream_Read st n = ((d, er), st1)" by (metis surj_pair)
  with HandshakeRead.prems have "run_handshake (f (d, er)) (buf @ d) st1 = (hello, e, buf', st')"
    by (simp add: readOnlyConn_Read_def tee_Read_def)
  with HandshakeRead.IH have "buf' @ st_data st' = (buf @ d) @ st_data st1" by blast
  with stream_Read_split [OF r] show ?case by simp
next
  case (HandshakeWrite p f)
  from HandshakeWrite.prems have "run_handshake (f (readOnlyConn_Write p)) buf st = (hello, e, buf', st')"
    by simp
  from HandshakeWrite.IH [OF rangeI this] show ?case .
qed simp

lemma peek_bytes:
  assumes "peekClientHello tls st = (name, w, err)"
  shows "wrapped_bytes w = st_data st"
proof -
  obtain hello e buf st' where r: "run_handshake tls [] st = (hello, e, buf, st')" by (metis surj_pair)
  from run_handshake_keeps [OF r] r assms show ?thesis
    by (cases hello) (auto simp: peekClientHello_def wrapped_bytes_def)
qed

section \<open>Properties\<close>

text \<open>
  C10: Peeking is transparent: whatever the TLS handshake reads and writes, and however the bytes
  arrive, the wrapped connection delivers exactly the bytes the client sent from the start.  The
  handshake's own failure is forgotten as soon as a hello was seen.
\<close>

theorem peekClientHello_transparent:
  "case peekClientHello tls st of (name, w, err) \<Rightarrow>
     wrapped_bytes w = st_data st \<and>
     (case run_handshake tls [] st of (hello, e, _) \<Rightarrow>
        (hello = None \<longrightarrow> name = [] \<and> err = e) \<and> (\<forall>n. hello = Some n \<longrightarrow> name = n \<and> err = None))"
proof -
  obtain hello e buf st' where r: "run_handshake tls [] st = (hello, e, buf, st')" by (metis surj_pair)
  from run_handshake_keeps [OF r] r show ?thesis
    by (cases hello) (simp_all add: peekClientHello_def wrapped_bytes_def)
qed

text \<open>A handshake that reads twelve bytes, five at most at a time, and takes them for the name.\<close>

definition demo_tls :: handshake where
  "demo_tls = HandshakeRead 5 (\<lambda>(a, _). HandshakeRead 20 (\<lambda>(b, _).
     HandshakeWrite ''alert'' (\<lambda>(_, e). HandshakeDone (Some (a @ b)) e)))"

definition demo_stream :: stream where
  "demo_stream = \<lparr>st_data = ''example.com:rest'', st_ready = [3, 8], st_end = ErrTimeout ''i/o timeout''\<rparr>"

definition demo_sni :: "string sni_env" where
  "demo_sni = \<lparr>sn_match = (\<lambda>p h. p = h), sn_uni = id, sn_dial = (\<lambda>d. Inr 9), sn_deadline = (\<lambda>_. None),
     sn_tls = demo_tls\<rparr>"

lemma demo_peek:
  "peekClientHello demo_tls demo_stream =
     (''example.com'', \<lparr>wr_peeked = ''example.com'', wr_conn = demo_stream\<lparr>st_data := '':rest'', st_ready := []\<rparr>\<rparr>, None)"
  by code_simp

theorem peekClientHello_transparent_witness:
  "wrapped_bytes \<lparr>wr_peeked = ''example.com'', wr_conn = demo_stream\<lparr>st_data := '':rest'', st_ready := []\<rparr>\<rparr> =
     st_data demo_stream"
  using peekClientHello_transparent [where tls = demo_tls and st = demo_stream] by (simp add: demo_peek)

text \<open>
  C21: Every connection the SNI proxy accepts is settled one way: either both forwarding directions are
  started on the untouched byte stream, to the backend dialled for the peeked server name on port 443
  by the routing decision, or the connection is closed and no forwarding is started.
\<close>

theorem sniServe_settles:
  "(\<exists>backend w name d. st_data st = wrapped_bytes w \<and> name \<noteq> [] \<and>
      peekClientHello (sn_tls E) st = (name, w, None) \<and>
      d = fst (RoutedDial (sn_match E) (sn_uni E) (Some router) ''tcp'' (net_JoinHostPort name ''443'')) \<and>
      sn_dial E d = Inr backend \<and> SClose conn \<notin> set (sniServe E router conn st) \<and>
      {SDial d, SGoForward conn backend w, SGoForward backend conn w} \<subseteq> set (sniServe E router conn st)) \<or>
   (SClose conn \<in> set (sniServe E router conn st) \<and>
      (\<forall>f t w. SGoForward f t w \<notin> set (sniServe E router conn st)))"
proof -
  obtain name w err where p: "peekClientHello (sn_tls E) st = (name, w, err)" by (metis surj_pair)
  note bytes = peek_bytes [OF p]
  obtain d logs where r: "RoutedDial (sn_match E) (sn_uni E) (Some router) ''tcp'' (net_JoinHostPort name ''443'') = (d, logs)"
    by (metis surj_pair)
  show ?thesis
  proof (cases "sn_deadline E True = None \<and> err = None \<and> sn_deadline E False = None \<and> name \<noteq> [] \<and> is_ok (sn_dial E d)")
    case True
    then obtain b where "sn_dial E d = Inr b" by (cases "sn_dial E d") auto
    with True p r bytes show ?thesis
      by (auto simp: sniServe_def sniProxyForward_def)
  next
    case False
    then show ?thesis
      by (cases "sn_dial E d")
        (auto simp: sniServe_def sniProxyForward_def p r split: option.splits)
  qed
qed

end
