(* ===== verification/Http.thy ===== *)
theory Http
  imports Spawner
begin

unbundle bit_operations_syntax

text \<open>
  \<open>http.go\<close>, \<open>util.go\<close> and \<open>CredentialValidator.Valid\<close>: the HTTP proxy's treatment of one
  connection.  The parsed request is an input; dialling and writing are the environment.  The run of
  \<open>serve\<close> is the list of its effects.
\<close>

section \<open>Credentials\<close>

text \<open>\<open>crypto/subtle\<close>: the comparison folds the differences of all bytes.\<close>

definition byte_of :: "char \<Rightarrow> 8 word" where
  "byte_of c = of_nat (of_char c)"

definition ConstantTimeByteEq :: "8 word \<Rightarrow> 8 word \<Rightarrow> int" where
  "ConstantTimeByteEq x y = (if x = y then 1 else 0)"

definition ConstantTimeCompare :: "string \<Rightarrow> string \<Rightarrow> int" where
  "ConstantTimeCompare x y =
     (if length x \<noteq> length y then 0
      else ConstantTimeByteEq (fold (\<lambda>(a, b) v. v OR (byte_of a XOR byte_of b)) (zip x y) 0) 0)"

definition Valid :: "CredentialValidator \<Rightarrow> string \<Rightarrow> string \<Rightarrow> bool" where
  "Valid c username password =
     (let u = ConstantTimeCompare (cv_username c) username;
          p = ConstantTimeCompare (cv_password c) password
      in u AND p = 1)"

lemma byte_of_inject: "byte_of a = byte_of b \<longleftrightarrow> a = b"
proof
  assume "byte_of a = byte_of b"
  then have "unat (of_nat (of_char a) :: 8 word) = unat (of_nat (of_char b) :: 8 word)"
    by (simp add: byte_of_def)
  then have "(of_char a :: nat) = of_char b"
    by (simp add: unat_of_nat)
  then show "a = b" by simp
qed simp

lemma word_or_zero: "(v :: 8 word) OR w = 0 \<longleftrightarrow> v = 0 \<and> w = 0"
  by (auto simp: bit_eq_iff bit_or_iff)

lemma word_xor_zero: "(v :: 8 word) XOR w = 0 \<longleftrightarrow> v = w"
  by (auto simp: bit_eq_iff bit_xor_iff)

lemma fold_differences:
  "length x = length y \<Longrightarrow>
     fold (\<lambda>(a, b) v. v OR (byte_of a XOR byte_of b)) (zip x y) v = 0 \<longleftrightarrow> v = 0 \<and> x = y"
  by (induction x y arbitrary: v rule: list_induct2) (auto simp: word_or_zero word_xor_zero byte_of_inject)

lemma ConstantTimeCompare_iff: "ConstantTimeCompare x y = (if x = y then 1 else 0)"
  by (auto simp: ConstantTimeCompare_def ConstantTimeByteEq_def fold_differences)

text \<open>
  \<open>Valid\<close>, which folds the differences of all byte pairs instead of stopping at the first, accepts
  exactly the configured pair.
\<close>

lemma Valid_iff: "Valid c u p \<longleftrightarrow> u = cv_username c \<and> p = cv_password c"
  by (auto simp: Valid_def Let_def ConstantTimeCompare_iff)

section \<open>Requests and responses\<close>

text \<open>Header keys are kept in canonical form, as \<open>http.ReadRequest\<close> stores them.\<close>

record http_request =
  rq_Method :: string
  rq_Host :: string
  rq_Proto :: string
  rq_ProtoMajor :: int
  rq_ProtoMinor :: int
  rq_Header :: "(string \<times> string list) list"

record http_response =
  rp_StatusCode :: int
  rp_Status :: string
  rp_Proto :: string
  rp_ProtoMajor :: int
  rp_ProtoMinor :: int
  rp_Header :: "(string \<times> string list) list"
  rp_Body :: string

definition proxyAuthHeaderKey :: string where
  "proxyAuthHeaderKey = ''Proxy-Authorization''"

definition Header_Get :: "(string \<times> string list) list \<Rightarrow> string \<Rightarrow> string" where
  "Header_Get h k = (case map_of h k of None \<Rightarrow> [] | Some [] \<Rightarrow> [] | Some (v # _) \<Rightarrow> v)"

definition Header_Set :: "(string \<times> string list) list \<Rightarrow> string \<Rightarrow> string \<Rightarrow> (string \<times> string list) list" where
  "Header_Set h k v = (k, [v]) # filter (\<lambda>p. fst p \<noteq> k) h"

text \<open>\<open>http.StatusText\<close> on the codes the proxy answers with.\<close>

definition http_StatusText :: "int \<Rightarrow> string" where
  "http_StatusText code =
     (if code = 401 then ''Unauthorized''
      else if code = 405 then ''Method Not Allowed''
      else if code = 406 then ''Not Acceptable''
      else if code = 407 then ''Proxy Authentication Required''
      else if code = 411 then ''Length Required''
      else [])"

definition responseWith :: "http_request \<Rightarrow> int \<Rightarrow> http_response" where
  "responseWith req statusCode =
     (let statusText = http_StatusText statusCode;
          body = ''wireproxy:'' @ '' '' @ rq_Proto req @ '' '' @ strconv_Itoa statusCode @ '' '' @ statusText
                   @ [CHR 0x0D, CHR 0x0A]
      in \<lparr>rp_StatusCode = statusCode, rp_Status = statusText, rp_Proto = rq_Proto req,
          rp_ProtoMajor = rq_ProtoMajor req, rp_ProtoMinor = rq_ProtoMinor req, rp_Header = [], rp_Body = body\<rparr>)"

section \<open>Serving a connection\<close>

definition authenticate :: "'re HTTPServer \<Rightarrow> http_request \<Rightarrow> int \<times> go_error option" where
  "authenticate s req =
     (if \<not> hs_authRequired s then (0, None)
      else
        (let auth = Header_Get (rq_Header req) proxyAuthHeaderKey in
         if auth = [] then (407, Some (ErrMsg (http_StatusText 407)))
         else
           (let enc = strings_TrimPrefix auth ''Basic '' in
            case base64_DecodeString enc of
              None \<Rightarrow> (406, Some (ErrWrap ''decode username and password failed: '' (ErrMsg ''illegal base64 data'')))
            | Some str \<Rightarrow>
                (case strings_SplitN2 (CHR '':'') str of
                   [u, p] \<Rightarrow>
                     if Valid (hs_auth s) u p then (0, None)
                     else (401, Some (ErrMsg ''username and password not matching''))
                 | _ \<Rightarrow> (411, Some (ErrMsg ''username and password format invalid''))))))"

datatype http_effect =
    HDial dial
  | HWrite handle string
  | HWriteRequest handle http_request
  | HWriteResponse handle http_response
  | HClose handle
  | HLog string
  | HGoCopy handle handle

text \<open>
  \<open>HGoCopy dst src\<close> is a goroutine that runs \<open>io.Copy(dst, src)\<close> and then closes the peer and the
  client's connection.  The regular expression engine and case tables are those of the router.
\<close>

record 're http_env =
  he_match :: "'re \<Rightarrow> string \<Rightarrow> bool"
  he_uni :: "string \<Rightarrow> string"
  he_dial :: "dial \<Rightarrow> handle result"
  he_write :: "handle \<Rightarrow> string \<Rightarrow> go_error option"
  he_writeRequest :: "handle \<Rightarrow> http_request \<Rightarrow> go_error option"

definition http_dial :: "'re http_env \<Rightarrow> 're HTTPServer \<Rightarrow> string \<Rightarrow> string \<Rightarrow> dial \<times> string list" where
  "http_dial E s network address =
     RoutedDial (he_match E) (he_uni E) (Some (hs_router s)) network address"

definition established :: string where
  "established = ''HTTP/1.1 200 Connection established'' @ [CHR 0x0D, CHR 0x0A, CHR 0x0D, CHR 0x0A]"

definition http_target :: "string \<Rightarrow> string \<Rightarrow> string" where
  "http_target host port = (if \<not> strings_Contains host '':'' then net_JoinHostPort host port else host)"

text \<open>The effects, the peer and the error.\<close>

definition handleConn ::
  "'re http_env \<Rightarrow> 're HTTPServer \<Rightarrow> http_request \<Rightarrow> handle \<Rightarrow>
     http_effect list \<times> handle option \<times> go_error option" where
  "handleConn E s req conn =
     (let addr = http_target (rq_Host req) ''443'';
          (d, logs) = http_dial E s ''tcp'' addr;
          pre = map HLog logs @ [HDial d]
      in case he_dial E d of
           Inl e \<Rightarrow> (pre, None, Some (ErrWrap ''tun tcp dial failed: '' e))
         | Inr peer \<Rightarrow>
             (case he_write E conn established of
                None \<Rightarrow> (pre @ [HWrite conn established], Some peer, None)
              | Some e \<Rightarrow> (pre @ [HWrite conn established, HClose peer], None, Some e)))"

definition handle_request ::
  "'re http_env \<Rightarrow> 're HTTPServer \<Rightarrow> http_request \<Rightarrow>
     http_effect list \<times> handle option \<times> go_error option" where
  "handle_request E s req =
     (let addr = http_target (rq_Host req) ''80'';
          (d, logs) = http_dial E s ''tcp'' addr;
          pre = map HLog logs @ [HDial d]
      in case he_dial E d of
           Inl e \<Rightarrow> (pre, None, Some (ErrWrap ''tun tcp dial failed: '' e))
         | Inr peer \<Rightarrow>
             (case he_writeRequest E peer req of
                None \<Rightarrow> (pre @ [HWriteRequest peer req], Some peer, None)
              | Some e \<Rightarrow> (pre @ [HWriteRequest peer req, HClose peer], None,
                           Some (ErrWrap ''conn write failed: '' e))))"

definition http_serve ::
  "'re http_env \<Rightarrow> 're HTTPServer \<Rightarrow> http_request result \<Rightarrow> handle \<Rightarrow> http_effect list" where
  "http_serve E s read conn =
     (case read of
        Inl e \<Rightarrow> [HLog (''read request failed: '' @ err_Error e)]
      | Inr req \<Rightarrow>
          (case authenticate s req of
             (code, Some e) \<Rightarrow>
               (let resp = responseWith req code;
                    resp = (if code = 407
                            then resp\<lparr>rp_Header := Header_Set (rp_Header resp) ''Proxy-Authenticate''
                                       (''Basic realm='' @ fmt_q ''Proxy'')\<rparr>
                            else resp)
                in [HWriteResponse conn resp, HLog (err_Error e)])
           | (code, None) \<Rightarrow>
               if rq_Method req = ''CONNECT'' \<or> rq_Method req = ''GET'' then
                 (let (effs, peer, err) =
                        (if rq_Method req = ''CONNECT'' then handleConn E s req conn
                         else handle_request E s req)
                  in case err of
                       Some e \<Rightarrow> effs @ [HLog (''dial proxy failed: '' @ err_Error e)]
                     | None \<Rightarrow>
                         (case peer of
                            None \<Rightarrow> effs @ [HLog ''dial proxy failed: peer nil'']
                          | Some peer \<Rightarrow> effs @ [HGoCopy conn peer, HGoCopy peer conn]))
               else [HWriteResponse conn (responseWith req 405),
                     HLog (''unsupported protocol: '' @ rq_Method req)]))"

section \<open>Listening\<close>

definition HTTPServer_listen :: "net_env \<Rightarrow> 're HTTPServer \<Rightarrow> string \<Rightarrow> string \<Rightarrow> handle result" where
  "HTTPServer_listen N s network address =
     (if hs_tlsRequired s then
        (case tls_LoadX509KeyPair N (http_CertFile (hs_config s)) (http_KeyFile (hs_config s)) of
           Inl e \<Rightarrow> Inl e
         | Inr cert \<Rightarrow> tls_Listen N network address cert)
      else net_Listen N network address)"

text \<open>The result of \<open>ListenAndServe\<close> and the listeners it has closed by then.\<close>

definition ListenAndServe ::
  "net_env \<Rightarrow> 're HTTPServer \<Rightarrow> string \<Rightarrow> string \<Rightarrow> 'c accept list \<Rightarrow> 'c served \<times> handle list" where
  "ListenAndServe N s network address evs =
     (case HTTPServer_listen N s network address of
        Inl e \<Rightarrow> (Returned [] (Some (ErrWrap ''listen tcp failed: '' e)), [])
      | Inr l \<Rightarrow>
          (case HTTPServer_Serve evs of
             Serving cs \<Rightarrow> (Serving cs, [])
           | Returned cs r \<Rightarrow> (Returned cs r, [l])))"

section \<open>Lemmas\<close>

lemma SplitN2_cases:
  "strings_SplitN2 c s = [s] \<and> c \<notin> set s \<or>
   (\<exists>a b. strings_SplitN2 c s = [a, b] \<and> s = a @ c # b \<and> c \<notin> set a)"
proof (cases "c \<in> set s")
  case True
  then have "strings_SplitN2 c s = [takeWhile (\<lambda>x. x \<noteq> c) s, tl (dropWhile (\<lambda>x. x \<noteq> c) s)]"
    by (simp add: strings_SplitN2_def)
  with strings_SplitN2_two [OF this] show ?thesis by blast
qed (simp add: strings_SplitN2_def)

lemma sep_inject: "(c :: char) \<notin> set u \<Longrightarrow> c \<notin> set v \<Longrightarrow> u @ c # p = v @ c # q \<longleftrightarrow> u = v \<and> p = q"
  by (metis list.inject strings_SplitN2_append)

text \<open>The three ways the two handlers end, and what they leave in the trace.\<close>

lemma handleConn_cases:
  fixes E :: "'re http_env" and s :: "'re HTTPServer" and req conn
  defines "D \<equiv> http_dial E s ''tcp'' (http_target (rq_Host req) ''443'')"
  shows "handleConn E s req conn =
    (case he_dial E (fst D) of
       Inl e \<Rightarrow> (map HLog (snd D) @ [HDial (fst D)], None, Some (ErrWrap ''tun tcp dial failed: '' e))
     | Inr peer \<Rightarrow>
         (case he_write E conn established of
            None \<Rightarrow> (map HLog (snd D) @ [HDial (fst D), HWrite conn established], Some peer, None)
          | Some e \<Rightarrow> (map HLog (snd D) @ [HDial (fst D), HWrite conn established, HClose peer], None, Some e)))"
  unfolding D_def handleConn_def
  by (cases "http_dial E s ''tcp'' (http_target (rq_Host req) ''443'')")
    (simp add: Let_def split: sum.split option.split)

lemma handle_request_cases:
  fixes E :: "'re http_env" and s :: "'re HTTPServer" and req
  defines "D \<equiv> http_dial E s ''tcp'' (http_target (rq_Host req) ''80'')"
  shows "handle_request E s req =
    (case he_dial E (fst D) of
       Inl e \<Rightarrow> (map HLog (snd D) @ [HDial (fst D)], None, Some (ErrWrap ''tun tcp dial failed: '' e))
     | Inr peer \<Rightarrow>
         (case he_writeRequest E peer req of
            None \<Rightarrow> (map HLog (snd D) @ [HDial (fst D), HWriteRequest peer req], Some peer, None)
          | Some e \<Rightarrow> (map HLog (snd D) @ [HDial (fst D), HWriteRequest peer req, HClose peer], None,
              Some (ErrWrap ''conn write failed: '' e))))"
  unfolding D_def handle_request_def
  by (cases "http_dial E s ''tcp'' (http_target (rq_Host req) ''80'')")
    (simp add: Let_def split: sum.split option.split)

text \<open>What \<open>serve\<close> does with an authenticated request, over the result of the handler.\<close>

definition finish :: "handle \<Rightarrow> http_effect list \<times> handle option \<times> go_error option \<Rightarrow> http_effect list" where
  "finish conn r = (case r of
       (effs, _, Some e) \<Rightarrow> effs @ [HLog (''dial proxy failed: '' @ err_Error e)]
     | (effs, None, None) \<Rightarrow> effs @ [HLog ''dial proxy failed: peer nil'']
     | (effs, Some peer, None) \<Rightarrow> effs @ [HGoCopy conn peer, HGoCopy peer conn])"

lemma http_serve_simps:
  "snd (authenticate s req) = None \<Longrightarrow> rq_Method req = ''CONNECT'' \<Longrightarrow>
     http_serve E s (Inr req) conn = finish conn (handleConn E s req conn)"
  "snd (authenticate s req) = None \<Longrightarrow> rq_Method req = ''GET'' \<Longrightarrow>
     http_serve E s (Inr req) conn = finish conn (handle_request E s req)"
  by (cases "authenticate s req"; cases "handleConn E s req conn"; cases "handle_request E s req";
      simp add: http_serve_def finish_def split: option.split)+

lemma http_serve_refused:
  "snd (authenticate s req) = Some e \<or> rq_Method req \<notin> {''CONNECT'', ''GET''} \<Longrightarrow>
     \<exists>resp l. http_serve E s (Inr req) conn = [HWriteResponse conn resp, HLog l]"
  by (cases "authenticate s req") (auto simp: http_serve_def Let_def split: option.split)

lemma http_serve_exhaust:
  obtains (Unread) e where "read = Inl e" "http_serve E s read conn = [HLog (''read request failed: '' @ err_Error e)]"
  | (Refused) req resp l where "read = Inr req" "http_serve E s read conn = [HWriteResponse conn resp, HLog l]"
      "snd (authenticate s req) \<noteq> None \<or> rq_Method req \<notin> {''CONNECT'', ''GET''}"
  | (Connect) req where "read = Inr req" "snd (authenticate s req) = None" "rq_Method req = ''CONNECT''"
      "http_serve E s read conn = finish conn (handleConn E s req conn)"
  | (Get) req where "read = Inr req" "snd (authenticate s req) = None" "rq_Method req = ''GET''"
      "http_serve E s read conn = finish conn (handle_request E s req)"
proof (cases read)
  case (Inl e)
  then show ?thesis using Unread by (simp add: http_serve_def)
next
  case (Inr req)
  then show ?thesis
    using Refused Connect Get http_serve_simps [of s req E conn] http_serve_refused [of s req _ E conn] by blast
qed

section \<open>Properties\<close>

text \<open>
  C19: The HTTP proxy's authentication, on every branch: it returns 0 and no error exactly when no
  credentials are configured or the header decodes to the configured user name, a colon and the
  configured password; otherwise it returns an error, and the status is 407 without a header, 406 for
  bad base64, 411 without a colon and 401 for wrong credentials.  A user name that contains a colon can
  never be authenticated.
\<close>

theorem authenticate_spec:
  fixes s :: "'re HTTPServer" and req :: http_request
  defines "header \<equiv> Header_Get (rq_Header req) proxyAuthHeaderKey"
  defines "plain \<equiv> base64_DecodeString (strings_TrimPrefix header ''Basic '')"
  shows "if \<not> hs_authRequired s \<or>
      header \<noteq> [] \<and> CHR '':'' \<notin> set (cv_username (hs_auth s)) \<and>
      plain = Some (cv_username (hs_auth s) @ CHR '':'' # cv_password (hs_auth s))
    then authenticate s req = (0, None)
    else \<exists>e. authenticate s req = (if header = [] then 407 else case plain of None \<Rightarrow> 406
        | Some t \<Rightarrow> if CHR '':'' \<in> set t then 401 else 411, Some e)"
proof (cases "\<not> hs_authRequired s \<or> header = [] \<or> plain = None")
  case True
  then show ?thesis by (auto simp: authenticate_def header_def plain_def Let_def)
next
  case False
  then obtain t where t: "plain = Some t" by auto
  have a: "authenticate s req = (case strings_SplitN2 (CHR '':'') t of
        [u, p] \<Rightarrow> if Valid (hs_auth s) u p then (0, None)
                  else (401, Some (ErrMsg ''username and password not matching''))
      | _ \<Rightarrow> (411, Some (ErrMsg ''username and password format invalid'')))"
    using False t by (simp add: authenticate_def header_def plain_def Let_def)
  from SplitN2_cases [of "CHR '':''" t] show ?thesis
  proof (elim disjE exE conjE)
    assume "strings_SplitN2 (CHR '':'') t = [t]" and "CHR '':'' \<notin> set t"
    with a False t show ?thesis by auto
  next
    fix u p assume sp: "strings_SplitN2 (CHR '':'') t = [u, p]" and tu: "t = u @ CHR '':'' # p" and u: "CHR '':'' \<notin> set u"
    have "Valid (hs_auth s) u p \<longleftrightarrow> CHR '':'' \<notin> set (cv_username (hs_auth s)) \<and>
        t = cv_username (hs_auth s) @ CHR '':'' # cv_password (hs_auth s)"
      using u by (auto simp: Valid_iff tu sep_inject)
    with a sp False t tu show ?thesis by auto
  qed
qed

definition demo_server :: "nat HTTPServer" where
  "demo_server = HTTP_server (demo_http\<lparr>http_Username := ''peter'', http_Password := ''hunter2''\<rparr>)"

definition demo_request :: "string \<Rightarrow> string \<Rightarrow> http_request" where
  "demo_request meth auth = \<lparr>rq_Method = meth, rq_Host = ''example.com'', rq_Proto = ''HTTP/1.1'',
     rq_ProtoMajor = 1, rq_ProtoMinor = 1, rq_Header = [(''Proxy-Authorization'', [auth])]\<rparr>"

theorem authenticate_spec_witness:
  "fst (authenticate demo_server (demo_request ''GET'' ''Basic cGV0ZXI='')) = 411 \<and>
   authenticate demo_server (demo_request ''GET'' ''Basic cGV0ZXI6aHVudGVyMg=='') = (0, None)"
proof -
  have h: "Header_Get (rq_Header (demo_request ''GET'' a)) proxyAuthHeaderKey = a" for a
    by (simp add: demo_request_def Header_Get_def proxyAuthHeaderKey_def)
  have s: "hs_authRequired demo_server" "cv_username (hs_auth demo_server) = ''peter''"
    "cv_password (hs_auth demo_server) = ''hunter2''"
    and d: "base64_DecodeString (strings_TrimPrefix ''Basic cGV0ZXI='' ''Basic '') = Some ''peter''"
    "base64_DecodeString (strings_TrimPrefix ''Basic cGV0ZXI6aHVudGVyMg=='' ''Basic '') = Some ''peter:hunter2''"
    by code_simp+
  show ?thesis
    using authenticate_spec [of demo_server "demo_request ''GET'' ''Basic cGV0ZXI=''"]
      authenticate_spec [of demo_server "demo_request ''GET'' ''Basic cGV0ZXI6aHVudGVyMg==''"]
    by (auto simp: h s d)
qed

text \<open>
  C20: A client that sends the configured user name and password in the form of RFC 7617 is accepted,
  and one that sends another pair is refused with 401, for every user name without a colon.
\<close>

theorem basic_auth_roundtrip:
  assumes "Header_Get (rq_Header req) proxyAuthHeaderKey = ''Basic '' @ base64_EncodeToString (u @ CHR '':'' # p)"
    and "CHR '':'' \<notin> set u" and "hs_authRequired s"
  shows "if u = cv_username (hs_auth s) \<and> p = cv_password (hs_auth s)
    then authenticate s req = (0, None)
    else fst (authenticate s req) = 401 \<and> snd (authenticate s req) \<noteq> None"
proof -
  have "strings_TrimPrefix (''Basic '' @ t) ''Basic '' = t" for t
    by (simp add: strings_TrimPrefix_def)
  then show ?thesis
    using assms by (auto simp: authenticate_def base64_decode_encode strings_SplitN2_append Valid_iff Let_def)
qed

theorem basic_auth_roundtrip_witness:
  "authenticate demo_server (demo_request ''GET'' (''Basic '' @ base64_EncodeToString ''peter:hunter2'')) = (0, None)"
proof -
  have "Header_Get (rq_Header (demo_request ''GET'' (''Basic '' @ base64_EncodeToString ''peter:hunter2'')))
      proxyAuthHeaderKey = ''Basic '' @ base64_EncodeToString (''peter'' @ CHR '':'' # ''hunter2'')"
    by (simp add: demo_request_def Header_Get_def proxyAuthHeaderKey_def)
  moreover have "hs_authRequired demo_server" "cv_username (hs_auth demo_server) = ''peter''"
    "cv_password (hs_auth demo_server) = ''hunter2''" by code_simp+
  ultimately show ?thesis using basic_auth_roundtrip [of _ "''peter''" "''hunter2''" demo_server] by auto
qed

lemma dial_in_handlers:
  "HDial d \<in> set (fst (handleConn E s req conn)) \<Longrightarrow>
     d = fst (http_dial E s ''tcp'' (http_target (rq_Host req) ''443''))"
  "HDial d \<in> set (fst (handle_request E s req)) \<Longrightarrow>
     d = fst (http_dial E s ''tcp'' (http_target (rq_Host req) ''80''))"
  by (auto simp: handleConn_cases handle_request_cases split: sum.splits option.splits)

lemma in_finish:
  "x \<in> set (finish conn r) \<longleftrightarrow> x \<in> set (fst r) \<or>
     (case snd r of (_, Some e) \<Rightarrow> x = HLog (''dial proxy failed: '' @ err_Error e)
      | (None, None) \<Rightarrow> x = HLog ''dial proxy failed: peer nil''
      | (Some peer, None) \<Rightarrow> x = HGoCopy conn peer \<or> x = HGoCopy peer conn)"
  by (cases r) (auto simp: finish_def split: option.split)

text \<open>
  C4: With a user name or a password configured, the proxy dials nothing on behalf of a request
  unless the request carried exactly these credentials; and it dials only for \<open>CONNECT\<close> and \<open>GET\<close>, to
  the request's host with 443 or 80 as the default port, by the routing decision of the domain
  router.
\<close>

theorem dial_requires_credentials:
  fixes E :: "'re http_env" and config :: "'re HTTPConfig"
  assumes "HDial d \<in> set (http_serve E (HTTP_server config) (Inr req) conn)"
  shows "(http_Username config \<noteq> [] \<or> http_Password config \<noteq> [] \<longrightarrow>
      base64_DecodeString (strings_TrimPrefix (Header_Get (rq_Header req) ''Proxy-Authorization'') ''Basic '') =
        Some (http_Username config @ CHR '':'' # http_Password config)) \<and>
    (\<exists>port. (rq_Method req, port) \<in> {(''CONNECT'', ''443''), (''GET'', ''80'')} \<and>
      d = fst (RoutedDial (he_match E) (he_uni E)
        (Some (NewDomainRouter (http_TunnelDomains config) (http_LogDomains config))) ''tcp''
        (http_target (rq_Host req) port)))"
proof -
  let ?s = "HTTP_server config"
  have dial: "http_dial E ?s network address = RoutedDial (he_match E) (he_uni E)
      (Some (NewDomainRouter (http_TunnelDomains config) (http_LogDomains config))) network address"
    for network address by (simp add: http_dial_def HTTP_server_def)
  have ok: "snd (authenticate ?s req) = None \<and>
      (\<exists>port. (rq_Method req, port) \<in> {(''CONNECT'', ''443''), (''GET'', ''80'')} \<and>
        d = fst (http_dial E ?s ''tcp'' (http_target (rq_Host req) port)))"
    using assms
    by (cases E ?s "Inr req :: http_request result" conn rule: http_serve_exhaust)
      (auto simp: in_finish dest: dial_in_handlers split: option.splits prod.splits)
  have "http_Username config \<noteq> [] \<or> http_Password config \<noteq> [] \<Longrightarrow> hs_authRequired ?s"
    by (simp add: HTTP_server_def)
  with ok show ?thesis
    unfolding dial by (auto simp: authenticate_def HTTP_server_def Let_def Valid_iff proxyAuthHeaderKey_def
        dest!: strings_SplitN2_two split: if_splits option.splits list.splits)
qed

lemma sample_dial:
  "http_serve \<lparr>he_match = (\<lambda>p h. p = 0), he_uni = id, he_dial = (\<lambda>d. Inr 9), he_write = (\<lambda>h t. None),
      he_writeRequest = (\<lambda>h r. None)\<rparr> demo_server
      (Inr (demo_request ''CONNECT'' ''Basic cGV0ZXI6aHVudGVyMg=='')) 4 =
    [HDial (TunnelDial ''tcp'' ''example.com:443''), HWrite 4 established, HGoCopy 4 9, HGoCopy 9 4]"
  by code_simp

theorem dial_requires_credentials_witness:
  "base64_DecodeString ''cGV0ZXI6aHVudGVyMg=='' = Some ''peter:hunter2''"
proof -
  let ?c = "demo_http\<lparr>http_Username := ''peter'', http_Password := ''hunter2''\<rparr>"
  let ?r = "demo_request ''CONNECT'' ''Basic cGV0ZXI6aHVudGVyMg==''"
  let ?E = "\<lparr>he_match = (\<lambda>p h. p = (0 :: nat)), he_uni = id, he_dial = (\<lambda>d. Inr 9), he_write = (\<lambda>h t. None),
      he_writeRequest = (\<lambda>h r. None)\<rparr>"
  have "HDial (TunnelDial ''tcp'' ''example.com:443'') \<in> set (http_serve ?E (HTTP_server ?c) (Inr ?r) 4)"
    using sample_dial by (simp add: demo_server_def)
  from dial_requires_credentials [OF this]
  have "base64_DecodeString (strings_TrimPrefix (Header_Get (rq_Header ?r) ''Proxy-Authorization'') ''Basic '') =
      Some ''peter:hunter2''" by simp
  then show ?thesis by (simp add: demo_request_def Header_Get_def strings_TrimPrefix_def)
qed

text \<open>The first write of a request that was dialled, to the client or to the peer, and its outcome.\<close>

definition first_write :: "'re http_env \<Rightarrow> http_request \<Rightarrow> handle \<Rightarrow> handle \<Rightarrow> http_effect \<times> go_error option" where
  "first_write E req conn peer =
     (if rq_Method req = ''CONNECT'' then (HWrite conn established, he_write E conn established)
      else (HWriteRequest peer req, he_writeRequest E peer req))"

lemma authenticate_ok: "snd (authenticate s req) = None \<longleftrightarrow> authenticate s req = (0, None)"
  by (auto simp: authenticate_def Let_def split: option.splits list.splits if_splits)

lemma http_serve_authenticated:
  fixes E :: "'re http_env" and s :: "'re HTTPServer"
  assumes "authenticate s req = (0, None)"
    and "(rq_Method req, port) \<in> {(''CONNECT'', ''443''), (''GET'', ''80'')}"
  shows "http_serve E s (Inr req) conn =
    (let D = http_dial E s ''tcp'' (http_target (rq_Host req) port) in
     map HLog (snd D) @ HDial (fst D) #
     (case he_dial E (fst D) of
        Inl e \<Rightarrow> [HLog (''dial proxy failed: tun tcp dial failed: '' @ err_Error e)]
      | Inr peer \<Rightarrow> fst (first_write E req conn peer) #
          (case snd (first_write E req conn peer) of
             None \<Rightarrow> [HGoCopy conn peer, HGoCopy peer conn]
           | Some e \<Rightarrow> [HClose peer, HLog (''dial proxy failed: '' @
               (if rq_Method req = ''CONNECT'' then [] else ''conn write failed: '') @ err_Error e)])))"
  using assms http_serve_simps [of s req E conn]
  by (auto simp: finish_def handleConn_cases handle_request_cases first_write_def Let_def split: sum.split option.split)

lemma http_serve_denied:
  fixes E :: "'re http_env" and s :: "'re HTTPServer"
  assumes "authenticate s req \<noteq> (0, None)"
  shows "\<exists>resp l. http_serve E s (Inr req) conn = [HWriteResponse conn resp, HLog l] \<and>
    rp_StatusCode resp = fst (authenticate s req) \<and> rp_Status resp = http_StatusText (fst (authenticate s req)) \<and>
    Header_Get (rp_Header resp) ''Proxy-Authenticate'' =
      (if fst (authenticate s req) = 407 then ''Basic realm='' @ fmt_q ''Proxy'' else [])"
  using assms authenticate_ok [of s req]
  by (cases "authenticate s req") (auto simp: http_serve_def responseWith_def Header_Set_def Header_Get_def Let_def)


definition failing_env :: "nat http_env" where
  "failing_env = \<lparr>he_match = (\<lambda>p h. p = 0), he_uni = id, he_dial = (\<lambda>d. Inr 9), he_write = (\<lambda>h t. Some ErrClosed),
     he_writeRequest = (\<lambda>h r. None)\<rparr>"


end
