(* ===== verification/Spec2Isabelle.thy ===== *)
theory Spec2Isabelle
  imports Cli UdpFlows Sni Http Forwarding ShutdownRace
begin

text \<open>
  \<^bold>\<open>A verification library for wireproxy\<close>

  wireproxy is a userspace WireGuard client: it reads an INI file, brings up a WireGuard device on a
  userspace network stack and runs the routines the file asks for (SOCKS5, HTTP and SNI proxies, TCP
  and UDP tunnels, a stdio tunnel) through it.  This library models the Go sources under \<open>src/\<close> function by
  function and proves what makes them correct.

  \<^bold>\<open>The parts and where they are modelled\<close>

  \<^item> \<open>Prelude\<close>, \<open>GoStrings\<close>, \<open>GoCodec\<close>, \<open>GoEncoding\<close>, \<open>GoNet\<close>, \<open>GoNetIP\<close>: what the sources use of the Go
    language and its standard library: errors and results, 64-bit integers, \<open>strings\<close>, \<open>strconv\<close>, \<open>hex\<close>,
    \<open>base64\<close>, \<open>net.SplitHostPort\<close> and \<open>JoinHostPort\<close>, \<open>netip\<close>.  The locales \<open>text_codec\<close> and \<open>field_codec\<close> state
    what a printer and its parser owe each other; numbers, hexadecimal text, base64, addresses and
    prefixes are interpretations.
  \<^item> \<open>Router\<close>: \<open>router.go\<close> and the dialers of \<open>routine.go\<close> that use it: which connection goes through the tunnel.
  \<^item> \<open>Config\<close>, \<open>ConfigParse\<close>, \<open>ConfigProps\<close>: \<open>config.go\<close>.  The structs as records, each parser as a definition
    over the parameter record \<open>config_env\<close> (go-ini, the environment, resolvers, the regular expression
    compiler), and what a parsed configuration satisfies.  \<open>IniConcrete\<close> is an executable instance of that
    record, on which the witnesses run.
  \<^item> \<open>VirtualTun\<close>: \<open>LookupAddr\<close>, \<open>ResolveAddrWithContext\<close>, \<open>parseAddressPort\<close> of \<open>routine.go\<close>.
  \<^item> \<open>Lifecycle\<close>, \<open>Spawner\<close>: \<open>Bind\<close>, \<open>Serve\<close> and \<open>Close\<close> of every routine.  The locales \<open>accept_server\<close>,
    \<open>closing_routine\<close> and \<open>routine_spawner\<close> are the contract of the interface \<open>RoutineSpawner\<close>; the five
    accepting routines are interpretations of all three, the UDP tunnels of \<open>closing_routine\<close>.
  \<^item> \<open>ShutdownRace\<close>: \<open>Close\<close> as a program of atomic instructions; an inductive step relation interleaves any
    number of its callers with the serve loop.
  \<^item> \<open>Forwarding\<close>: \<open>connForward\<close> and the TCP forwarders of \<open>routine.go\<close>, with the effects on connections as traces.
  \<^item> \<open>Http\<close>: \<open>http.go\<close>, \<open>util.go\<close> and \<open>CredentialValidator\<close>.  \<open>Sni\<close>: \<open>sni.go\<close>.
  \<^item> \<open>UdpSession\<close>, \<open>Udp\<close>: \<open>udp_proxy.go\<close> and \<open>udp_server_tunnel.go\<close>.  Sessions are heap objects shared by the
    read loop, the reaper and one goroutine each; an event is what a blocking call returned.  \<open>UdpFlows\<close>
    gives the abstract table of flows, a deterministic machine on the same events, and both tunnels are shown
    to compute it step by step.
  \<^item> \<open>ClientBind\<close>: \<open>clientbind/clientbind.go\<close>, an interpretation of the contract \<open>conn_bind\<close>.
  \<^item> \<open>Wireguard\<close>: \<open>wireguard.go\<close>; the request for the device is read back by a model of the userspace protocol.
  \<^item> \<open>Health\<close>: the health endpoint and the pings of \<open>routine.go\<close>.
  \<^item> \<open>Cli\<close>: \<open>cmd/wireproxy\<close>; \<open>main\<close> is the trace of the actions it takes on the system and how it ends,
    \<open>main_running\<close> what a failing \<open>Serve\<close>, a failing info server or a signal makes of a running program.
  \<^item> This theory: what holds across components, from the file to the device, to name resolution and to the
    credentials of a running proxy.

  \<^bold>\<open>What the theorems show\<close>

  \<^item> Configuration: whatever the file, a parsed configuration is well formed; the values written in its
    \<open>[Interface]\<close> and \<open>[Peer]\<close> sections reach the device request, which reads back as those keys, ports,
    endpoints and routes; text in memory and in a file agree; lists of prefixes survive printing and parsing.
  \<^item> Routing: which connections are tunnelled, alike for every spelling of a name and for all three proxies.
  \<^item> Lifecycle: \<open>Bind\<close>, \<open>Serve\<close> and \<open>Close\<close> keep the contract of \<open>RoutineSpawner\<close>; under every interleaving a
    deliberate stop is never reported as a fault, \<open>Close\<close> takes a bounded number of steps and has then
    recorded the intent and closed what it has to, a second \<open>Close\<close> is no error, and once it has returned
    \<open>Serve\<close> returns nil.  Two concurrent \<open>Close\<close> calls on a UDP tunnel can panic.
  \<^item> Proxies: the HTTP proxy dials only for the configured credentials; peeking at a TLS connection changes
    no byte of it; an accepted connection is settled one way or, on the failure paths named, never closed.
  \<^item> UDP: sessions, table and goroutines stay consistent, both tunnels compute one table of flows, the reaper
    removes exactly the idle sessions, and a removed session ends; after \<open>Close\<close> a silent one does not.
  \<^item> Device, health and command line: the start-up sequence, the resolve strategy, readiness and the ping
    records, redaction of secrets, binding before serving, one fork, the network sandbox.

  \<^bold>\<open>Conventions\<close>

  A struct is a record, an interface value a datatype, a pointer that may be nil an option.  An error is
  a value of \<open>go_error\<close>, a fallible call returns \<open>go_error + 'a\<close>, a panic is an outcome of its own.  Methods
  with pointer receivers return the receiver as they leave it.  Goroutines are explicit: their steps are
  events or steps of a relation, and every theorem about them is for all interleavings.  Integers are \<open>int\<close>
  with \<open>wrap64\<close> written out where Go's \<open>int\<close> can overflow (durations), and words where a width is visible
  (ports, octets, ping records).

  \<^bold>\<open>Bounds and loops\<close>

  Accept, read and ping loops run over the finite list of what their blocking call has returned so far;
  a loop that has not returned is a value of its own (\<open>Serving\<close>, or \<open>st_serving\<close>), so that running on is
  never confused with returning.  No definition uses fuel.  Ranges appear as hypotheses only where the code
  computes with machine integers: the ages in \<open>/readyz\<close> and the ports and keep-alives the request prints.

  \<^bold>\<open>Parameters\<close>

  Third-party code and the outside world are arguments: go-ini, regular expressions, go-socks5, netstack,
  the device, heredoc, TLS, Landlock, pledge, the argument parser, clocks and the random source.  Where a
  theorem needs their documented behaviour it is a named hypothesis (\<open>ini_key_documented\<close>,
  \<open>heredoc_documented\<close>, \<open>serves_listener\<close>), and its witness instantiates it.

  \<^bold>\<open>Not modelled\<close>

  Log output as such, the sleeps of the reaper and of the ping loop, the bytes \<open>net/http\<close> reads and writes for a message, the buffered reader of
  the HTTP proxy, ICMP marshalling, data races on unsynchronised fields (a step is a critical section or the
  code between two blocking calls), and the text of errors that come from the standard library.
\<close>

section \<open>Shared lemmas\<close>

lemma parsed_resolve:
  assumes "ini_LoadSources E src = Inr cfg" and "parseConfigSource E src dir = Inr conf"
  shows "parse_resolve E cfg = Inr (conf_Resolve conf)"
  using assms by (auto simp: parseConfigSource_def split: sum.splits)

lemma started_strategy:
  assumes "StartWireguardWithLogger W conf lg = (calls, conf', Inr vt)"
  shows "rc_ResolveStrategy (vt_ResolveConfig vt) =
    resolved_strategy (dc_Endpoint (conf_Device conf)) (rc_ResolveStrategy (conf_Resolve conf))"
  using assms by (auto simp: StartWireguardWithLogger_def CreateIPCRequest_def Let_def split: option.splits)

lemma resolve_key_lower: "strings_ToLower u ''ResolveStrategy'' = ''resolvestrategy''"
  by code_simp

lemma username_key_lower: "strings_ToLower u ''Username'' = ''username''"
  by code_simp

lemma password_key_lower: "strings_ToLower u ''Password'' = ''password''"
  by code_simp

lemma password_key_ascii: "is_ascii ''Password''" "map lower_byte ''Password'' = ''password''"
  by code_simp+

lemmas password_text = parseString_text [OF _ password_key_ascii(1), unfolded password_key_ascii(2)]

lemma parseString_absent:
  assumes "ini_key_documented E" and "\<And>u. strings_ToLower u k = l" and "ini_GetKey E s l = Inl e"
  shows "parseString E s k = Inr []"
proof -
  obtain x where "ini_Key E s l = Some x" "key_String E x = []"
    using assms(1,3) unfolding ini_key_documented_def by metis
  then show ?thesis by (simp add: parseString_def assms(2) strings_HasPrefix_def)
qed

lemma parseString_unset:
  assumes "ini_key_documented E" and "\<And>u. strings_ToLower u k = l" and "ini_GetKey E s l = Inr key"
    and "key_String E key = CHR ''$'' # name" and "\<not> prefix ''$'' name" and "os_LookupEnv E name = None"
  shows "parseString_or_empty E s k = []"
proof -
  have "ini_Key E s l = Some key"
    using assms(1,3) unfolding ini_key_documented_def by metis
  then show ?thesis
    using assms(4-6)
    by (simp add: parseString_or_empty_def parseString_def assms(2) strings_HasPrefix_def strings_TrimPrefix_def)
qed

section \<open>From the configuration file to the device\<close>

text \<open>
  What an \<open>[Interface]\<close> section says of the device and its network stack, and a \<open>[Peer]\<close> section of a peer,
  in terms of the section's values only.  Peers and routes are those of the userspace protocol.
\<close>

definition interface_says ::
  "('file, 'sec, 'key, 're) config_env \<Rightarrow> 'sec \<Rightarrow> DeviceSetting \<Rightarrow> uapi_device \<Rightarrow> bool" where
  "interface_says E sec s dev \<longleftrightarrow>
     (\<exists>t. file_text E sec ''privatekey'' = Some t \<and> key_says t (ud_private_key dev)) \<and>
     ud_listen_port dev = file_int E sec ''ListenPort'' \<and>
     ds_MTU s = (case file_int E sec ''MTU'' of None \<Rightarrow> 1420 | Some i \<Rightarrow> i) \<and>
     list_all2 (\<lambda>f a. netip_ParseAddr f = Some a) (file_fields E sec ''dns'') (ds_DNS s) \<and>
     list_all2 (\<lambda>f a. netip_ParseAddr f = Some a \<or>
       netip_ParseAddr f = None \<and> (\<exists>p. netip_ParsePrefix f = Some p \<and> a = px_ip p))
       (file_fields E sec ''address'') (ds_DeviceAddr s)"

definition peer_says :: "('file, 'sec, 'key, 're) config_env \<Rightarrow> 'sec \<Rightarrow> uapi_peer \<Rightarrow> bool" where
  "peer_says E sec p \<longleftrightarrow>
     (\<exists>t. file_text E sec ''publickey'' = Some t \<and> key_says t (up_public_key p)) \<and>
     (case ini_GetKey E sec ''PreSharedKey'' of
        Inl _ \<Rightarrow> up_preshared_key p = replicate 64 CHR ''0''
      | Inr key \<Rightarrow> key_says (key_String E key) (up_preshared_key p)) \<and>
     (case ini_GetKey E sec ''Endpoint'' of
        Inl _ \<Rightarrow> up_endpoint p = None
      | Inr key \<Rightarrow> (\<exists>host port ip.
          net_SplitHostPort (strings_ToLower (unicode_ToLower E) (key_String E key)) = Inr (host, port) \<and>
          net_ResolveIPAddr E host = Inr ip \<and> up_endpoint p = Some (net_JoinHostPort ip port))) \<and>
     up_keepalive p = (case file_int E sec ''PersistentKeepalive'' of None \<Rightarrow> 0 | Some i \<Rightarrow> i) \<and>
     (\<exists>ps. list_all2 (\<lambda>f p. netip_ParsePrefix f = Some p) (file_fields E sec ''allowedips'') ps \<and>
       up_allowed_ips p = (if ps = [] then all_routes else ps))"

lemma key_names:
  "is_ascii ''PrivateKey''" "map lower_byte ''PrivateKey'' = ''privatekey''"
  "is_ascii ''PublicKey''" "map lower_byte ''PublicKey'' = ''publickey''"
  by code_simp+

lemmas private_key_says = parseBase64KeyToHex_says [OF _ key_names(1), unfolded key_names(2)]
lemmas public_key_says = parseBase64KeyToHex_says [OF _ key_names(3), unfolded key_names(4)]

lemma parse_peer_keepalive:
  "parse_peer E sec = Inr p \<Longrightarrow>
     pc_KeepAlive p = (case file_int E sec ''PersistentKeepalive'' of None \<Rightarrow> 0 | Some i \<Rightarrow> i)"
  by (auto simp: parse_peer_def dest!: optional_int_says split: sum.splits)

lemma parse_peer_says:
  assumes "ini_key_documented E" and "parse_peer E sec = Inr p"
  shows "peer_says E sec (wanted_peer p)"
proof -
  have pub: "\<exists>t. file_text E sec ''publickey'' = Some t \<and> key_says t (pc_PublicKey p)"
    using public_key_says [OF assms(1), of sec "pc_PublicKey p"] assms(2)
    by (auto simp: parse_peer_def split: sum.splits)
  have ips: "list_all2 (\<lambda>f p. netip_ParsePrefix f = Some p) (file_fields E sec ''allowedips'') (pc_AllowedIPs p)"
    using parseAllowedIPs_says [OF assms(1)] assms(2) by (auto simp: parse_peer_def split: sum.splits)
  have psk: "case ini_GetKey E sec ''PreSharedKey'' of Inl _ \<Rightarrow> pc_PreSharedKey p = replicate 64 CHR ''0''
      | Inr key \<Rightarrow> key_says (key_String E key) (pc_PreSharedKey p)"
    using assms(2) by (auto simp: parse_peer_def zero_key_def key_says_def encodeBase64ToHex_Inr split: sum.splits)
  have ep: "case ini_GetKey E sec ''Endpoint'' of Inl _ \<Rightarrow> pc_Endpoint p = None
      | Inr key \<Rightarrow> (\<exists>host port ip.
          net_SplitHostPort (strings_ToLower (unicode_ToLower E) (key_String E key)) = Inr (host, port) \<and>
          net_ResolveIPAddr E host = Inr ip \<and> pc_Endpoint p = Some (net_JoinHostPort ip port))"
    using assms(2) by (auto simp: parse_peer_def resolveIPPAndPort_def resolveIP_def split: sum.splits)
  show ?thesis
    unfolding peer_says_def wanted_peer_def uapi_peer.simps
    by (intro conjI exI [of _ "pc_AllowedIPs p"] pub psk ep parse_peer_keepalive [OF assms(2)] ips refl)
qed

lemma ParseInterface_values:
  assumes "ini_SectionsByName E wg ''Interface'' = Inr [sec]" and "ParseInterface E wg default_device = Inr d"
  shows "parseBase64KeyToHex E sec ''PrivateKey'' = Inr (dc_SecretKey d)" and "parseNetIP E sec ''DNS'' = Inr (dc_DNS d)"
    and "parseCIDRNetIP E sec ''Address'' = Inr (dc_Endpoint d)"
    and "dc_ListenPort d = file_int E sec ''ListenPort''"
    and "dc_MTU d = (case file_int E sec ''MTU'' of None \<Rightarrow> 1420 | Some i \<Rightarrow> i)"
  using assms
  by (auto simp: ParseInterface_def default_device_def dest!: optional_int_says split: sum.splits if_splits option.splits)

lemma ParseInterface_says:
  assumes "ini_key_documented E" and "ini_SectionsByName E wg ''Interface'' = Inr [sec]"
    and "ParseInterface E wg default_device = Inr d"
    and "ud_private_key dev = dc_SecretKey d" and "ud_listen_port dev = dc_ListenPort d"
    and "ds_DNS s = dc_DNS d" and "ds_DeviceAddr s = dc_Endpoint d" and "ds_MTU s = dc_MTU d"
  shows "interface_says E sec s dev"
  using ParseInterface_values [OF assms(2,3)] private_key_says [OF assms(1)] parseNetIP_says [OF assms(1)]
    parseCIDRNetIP_says [OF assms(1)] assms(4-8)
  by (simp add: interface_says_def)

lemma file_int_64: "\<forall>key i. key_Int E key = Inr i \<longrightarrow> in_int64 i \<Longrightarrow> file_int E s k = Some i \<Longrightarrow> in_int64 i"
  by (auto simp: file_int_def split: sum.splits)

lemma parsed_ipc_ready:
  assumes "parseConfigSource E src dir = Inr c" and "\<forall>key i. key_Int E key = Inr i \<longrightarrow> in_int64 i"
    and "\<forall>p \<in> set (dc_Peers (conf_Device c)). \<forall>ep. pc_Endpoint p = Some ep \<longrightarrow> LF \<notin> set ep"
  shows "ipc_ready (conf_Device c)"
proof -
  obtain wg isec psecs d where i: "ini_SectionsByName E wg ''Interface'' = Inr [isec]"
    and d: "ParseInterface E wg default_device = Inr d" "conf_Device c = d\<lparr>dc_Peers := dc_Peers (conf_Device c)\<rparr>"
    and ps: "list_all2 (\<lambda>s p. parse_peer E s = Inr p) psecs (dc_Peers (conf_Device c))"
    by (rule parseConfigSource_sections [OF assms(1)])
  have "dc_ListenPort (conf_Device c) = dc_ListenPort d" by (subst d(2)) simp
  then have "in_int64 i" if "dc_ListenPort (conf_Device c) = Some i" for i
    using ParseInterface_values(4) [OF i d(1)] that file_int_64 [OF assms(2)] by simp
  moreover have "in_int64 (pc_KeepAlive p)" if "parse_peer E s = Inr p" for s p
    using parse_peer_keepalive [OF that] file_int_64 [OF assms(2)]
    by (cases "file_int E s ''PersistentKeepalive''") (auto simp: in_int64_def)
  then have "list_all2 (\<lambda>s p. in_int64 (pc_KeepAlive p)) psecs (dc_Peers (conf_Device c))"
    by (rule list_all2_mono [OF ps])
  then have "\<forall>p \<in> set (dc_Peers (conf_Device c)). in_int64 (pc_KeepAlive p)"
    by (induction rule: list_all2_induct) simp_all
  ultimately show ?thesis
    using parseConfigSource_device [OF assms(1)] assms(3) by (simp add: ipc_ready_def)
qed

text \<open>
  C12: What the file says reaches the WireGuard device.  For any source and environment that parse, the
  request built from the configuration reads back, by the rules of the userspace protocol, as a device
  with the private key and port of the one \<open>[Interface]\<close> section and one peer per \<open>[Peer]\<close> section, in
  order: its public key, its preshared key or 64 zeros, its endpoint in lower case with the host
  resolved, its keep-alive or 0 and its allowed prefixes or all routes; and the network stack gets the
  section's addresses, DNS servers and MTU.
\<close>

theorem parsed_config_reaches_device:
  assumes "parseConfigSource E src dir = Inr c" and "ini_key_documented E" and "heredoc_documented doc"
    and "\<forall>key i. key_Int E key = Inr i \<longrightarrow> in_int64 i"
    and "\<forall>p \<in> set (dc_Peers (conf_Device c)). \<forall>ep. pc_Endpoint p = Some ep \<longrightarrow> LF \<notin> set ep"
  shows "\<exists>cfg wg isec psecs s dev. ini_LoadSources E src = Inr cfg \<and> load_wg_config E cfg dir = Inr wg \<and>
    ini_SectionsByName E wg ''Interface'' = Inr [isec] \<and> ini_SectionsByName E wg ''Peer'' = Inr psecs \<and>
    CreateIPCRequest doc (conf_Device c) = Inr s \<and> uapi_read (ds_IpcRequest s) = Some dev \<and>
    interface_says E isec s dev \<and> list_all2 (peer_says E) psecs (ud_peers dev)"
proof -
  obtain cfg wg isec psecs d where f: "ini_LoadSources E src = Inr cfg" "load_wg_config E cfg dir = Inr wg"
    "ini_SectionsByName E wg ''Interface'' = Inr [isec]" "ini_SectionsByName E wg ''Peer'' = Inr psecs"
    and d: "ParseInterface E wg default_device = Inr d" "conf_Device c = d\<lparr>dc_Peers := dc_Peers (conf_Device c)\<rparr>"
    and ps: "list_all2 (\<lambda>s p. parse_peer E s = Inr p) psecs (dc_Peers (conf_Device c))"
    by (rule parseConfigSource_sections [OF assms(1)])
  let ?dev = "wanted_device (conf_Device c)"
  obtain s where s: "CreateIPCRequest doc (conf_Device c) = Inr s" "uapi_read (ds_IpcRequest s) = Some ?dev"
    "ds_DNS s = dc_DNS (conf_Device c)" "ds_DeviceAddr s = dc_Endpoint (conf_Device c)" "ds_MTU s = dc_MTU (conf_Device c)"
    using IpcRequest_read [OF assms(3) parsed_ipc_ready [OF assms(1,4,5)]] by blast
  have "interface_says E isec s ?dev"
  proof (rule ParseInterface_says [OF assms(2) f(3) d(1)])
    show "ud_private_key ?dev = dc_SecretKey d" "ud_listen_port ?dev = dc_ListenPort d" "ds_DNS s = dc_DNS d"
      "ds_DeviceAddr s = dc_Endpoint d" "ds_MTU s = dc_MTU d"
      unfolding s wanted_device_def by (subst d(2), simp)+
  qed
  moreover have "list_all2 (peer_says E) psecs (ud_peers ?dev)"
    unfolding wanted_device_def using list_all2_mono [OF ps parse_peer_says [OF assms(2)]]
    by (simp add: list_all2_map2)
  ultimately show ?thesis using f s by blast
qed

definition sample_peer :: ini_section where
  "sample_peer = snd (sample_file ! 1)"

theorem parsed_config_reaches_device_witness:
  "\<exists>c s dev p. parseConfigSource sample_env (SourcePath ''wireproxy.conf'') ''.'' = Inr c \<and>
     CreateIPCRequest tab_doc (conf_Device c) = Inr s \<and> uapi_read (ds_IpcRequest s) = Some dev \<and>
     ud_peers dev = [p] \<and> up_keepalive p = 30 \<and> up_endpoint p = Some ''192.0.2.1:51820'' \<and>
     up_allowed_ips p = [\<lparr>px_ip = V4 10 0 0 1, px_bits = 32\<rparr>] \<and>
     key_says ''7ZKMOxBmLLXCKCXeGgLLW1LtRYKPvNvhSTk0kPYWUXA='' (up_public_key p)"
proof (cases "parseConfigSource sample_env (SourcePath ''wireproxy.conf'') ''.''" rule: result_cases)
  case (Err e)
  with sample_parses show ?thesis by simp
next
  case (Ok c)
  have "(case parseConfigSource sample_env (SourcePath ''wireproxy.conf'') ''.'' of Inl _ \<Rightarrow> None
      | Inr c \<Rightarrow> Some (map pc_Endpoint (dc_Peers (conf_Device c)))) = Some [Some ''192.0.2.1:51820'']"
    by code_simp
  then have ep: "\<forall>p \<in> set (dc_Peers (conf_Device c)). \<forall>ep. pc_Endpoint p = Some ep \<longrightarrow> LF \<notin> set ep"
    by (auto simp: Ok)
  have doc: "ini_key_documented sample_env" by (simp add: sample_env_def concrete_env_documented)
  have "key_Int sample_env = concrete_Int" by (simp add: sample_env_def concrete_env_def)
  then have int: "\<forall>key i. key_Int sample_env key = Inr i \<longrightarrow> in_int64 i"
    by (auto simp: concrete_Int_def dest: strconv_Atoi_range split: option.splits)
  have secs: "load_wg_config sample_env sample_file ''.'' = Inr sample_file"
    "ini_SectionsByName sample_env sample_file ''Peer'' = Inr [sample_peer]"
    and load: "ini_LoadSources sample_env (SourcePath ''wireproxy.conf'') = Inr sample_file"
    by code_simp+
  from parsed_config_reaches_device [OF Ok doc tab_doc_documented int ep] load secs
  obtain s dev where s: "CreateIPCRequest tab_doc (conf_Device c) = Inr s" "uapi_read (ds_IpcRequest s) = Some dev"
    and "list_all2 (peer_says sample_env) [sample_peer] (ud_peers dev)" by auto
  then obtain p where p: "ud_peers dev = [p]" "peer_says sample_env sample_peer p"
    by (auto simp: list_all2_Cons1)
  have vals: "file_int sample_env sample_peer ''PersistentKeepalive'' = Some 30"
    "file_text sample_env sample_peer ''publickey'' = Some ''7ZKMOxBmLLXCKCXeGgLLW1LtRYKPvNvhSTk0kPYWUXA=''"
    "file_fields sample_env sample_peer ''allowedips'' = [''10.0.0.1/32'']"
    "netip_ParsePrefix ''10.0.0.1/32'' = Some \<lparr>px_ip = V4 10 0 0 1, px_bits = 32\<rparr>"
    "ini_GetKey sample_env sample_peer ''Endpoint'' = Inr [''192.0.2.1:51820'']"
    "strings_ToLower (unicode_ToLower sample_env) (key_String sample_env [''192.0.2.1:51820'']) = ''192.0.2.1:51820''"
    "net_SplitHostPort ''192.0.2.1:51820'' = Inr (''192.0.2.1'', ''51820'')"
    "net_ResolveIPAddr sample_env ''192.0.2.1'' = Inr ''192.0.2.1''"
    "net_JoinHostPort ''192.0.2.1'' ''51820'' = ''192.0.2.1:51820''"
    by code_simp+
  have "up_keepalive p = 30" "up_endpoint p = Some ''192.0.2.1:51820''"
    "up_allowed_ips p = [\<lparr>px_ip = V4 10 0 0 1, px_bits = 32\<rparr>]"
    "key_says ''7ZKMOxBmLLXCKCXeGgLLW1LtRYKPvNvhSTk0kPYWUXA='' (up_public_key p)"
    using p(2) unfolding peer_says_def by (auto simp: vals list_all2_Cons1)
  with Ok s p(1) show ?thesis by blast
qed

section \<open>Name resolution as configured\<close>

text \<open>
  C23: With no \<open>[Resolve]\<close> section, a started tunnel resolves a name exactly when the resolver's answer
  has a parsable address; with a \<open>[Resolve]\<close> section that does not set \<open>ResolveStrategy\<close>, no name ever
  resolves, and with it neither do the targets of the TCP tunnels.
\<close>

theorem resolve_strategy_as_configured:
  assumes "ini_LoadSources E src = Inr cfg" and "parseConfigSource E src dir = Inr conf"
    and "ini_key_documented E" and "StartWireguardWithLogger W conf lg = (calls, conf', Inr vt)"
  shows "(ini_GetSection E cfg ''Resolve'' = Inl e \<longrightarrow>
      (is_ok (ResolveAddrWithContext R vt name) \<longleftrightarrow>
        (\<exists>addrs. LookupAddr R vt name = Inr addrs \<and> parsed_addrs addrs \<noteq> []))) \<and>
    (ini_GetSection E cfg ''Resolve'' = Inr sec \<and> ini_GetKey E sec ''resolvestrategy'' = Inl e' \<longrightarrow>
      \<not> is_ok (ResolveAddrWithContext R vt name) \<and>
      \<not> is_ok (resolveToAddrPort R vt \<lparr>ap_address = name, ap_port = p\<rparr>))"
proof (intro conjI impI)
  have rc: "parse_resolve E cfg = Inr (conf_Resolve conf)"
    by (rule parsed_resolve [OF assms(1,2)])
  have vt: "rc_ResolveStrategy (vt_ResolveConfig vt) =
      resolved_strategy (dc_Endpoint (conf_Device conf)) (rc_ResolveStrategy (conf_Resolve conf))"
    by (rule started_strategy [OF assms(4)])
  {
    assume "ini_GetSection E cfg ''Resolve'' = Inl e"
    with rc vt have "rc_ResolveStrategy (vt_ResolveConfig vt) \<in> {''ipv4'', ''ipv6''}"
      by (auto simp: parse_resolve_def resolved_strategy_def Let_def dest: sym)
    then show "is_ok (ResolveAddrWithContext R vt name) \<longleftrightarrow>
        (\<exists>addrs. LookupAddr R vt name = Inr addrs \<and> parsed_addrs addrs \<noteq> [])"
      by (simp add: resolve_ok_iff)
  next
    assume "ini_GetSection E cfg ''Resolve'' = Inr sec \<and> ini_GetKey E sec ''resolvestrategy'' = Inl e'"
    with rc parseString_absent [OF assms(3) resolve_key_lower, of sec]
    have "rc_ResolveStrategy (conf_Resolve conf) = []"
      by (auto simp: parse_resolve_def parseResolveConfig_def parseString_or_empty_def dest: sym)
    with vt have no: "\<not> is_ok (ResolveAddrWithContext R vt n)" for n
      by (auto simp: resolve_ok_iff resolved_strategy_def)
    show "\<not> is_ok (ResolveAddrWithContext R vt name)" by (rule no)
    then show "\<not> is_ok (resolveToAddrPort R vt \<lparr>ap_address = name, ap_port = p\<rparr>)"
      by (cases "ResolveAddrWithContext R vt name") (simp_all add: resolveToAddrPort_def)
  }
qed

text \<open>The configuration of the tests with an empty \<open>[Resolve]\<close> section.\<close>

definition resolve_env :: "(ini_file, ini_section, string list, string) config_env" where
  "resolve_env = concrete_env (\<lambda>src. Inr ((''resolve'', []) # sample_file)) []"

theorem resolve_strategy_as_configured_witness:
  "\<exists>conf. parseConfigSource resolve_env (SourcePath ''wireproxy.conf'') ''.'' = Inr conf \<and>
     (\<exists>calls conf' vt. StartWireguardWithLogger demo_wg conf None = (calls, conf', Inr vt) \<and>
        \<not> is_ok (ResolveAddrWithContext demo_resolver vt ''example.com''))"
proof -
  have "is_ok (parseConfigSource resolve_env (SourcePath ''wireproxy.conf'') ''.'')" by code_simp
  then obtain conf where conf: "parseConfigSource resolve_env (SourcePath ''wireproxy.conf'') ''.'' = Inr conf"
    by (cases "parseConfigSource resolve_env (SourcePath ''wireproxy.conf'') ''.''") auto
  obtain s where "CreateIPCRequest tab_doc (conf_Device conf) = Inr s"
    using IpcRequest_lines [OF tab_doc_documented] by blast
  then obtain calls conf' vt where st: "StartWireguardWithLogger demo_wg conf None = (calls, conf', Inr vt)"
    by (simp add: StartWireguardWithLogger_def demo_wg_def Let_def)
  have load: "ini_LoadSources resolve_env (SourcePath ''wireproxy.conf'') = Inr ((''resolve'', []) # sample_file)"
    and doc: "ini_key_documented resolve_env"
    by (simp_all add: resolve_env_def concrete_env_documented) (simp add: concrete_env_def)
  have sec: "ini_GetSection resolve_env ((''resolve'', []) # sample_file) ''Resolve'' = Inr []"
    and key: "ini_GetKey resolve_env [] ''resolvestrategy'' = Inl (ErrMsg ''error when getting key: resolvestrategy'')"
    by code_simp+
  from resolve_strategy_as_configured [OF load conf doc st, where sec = "[]"] sec key conf st
  show ?thesis by blast
qed

section \<open>Credentials from the environment\<close>

text \<open>
  C35: A \<open>Username\<close> that refers to an unset environment variable is parsed as if it were empty: the error is
  dropped.  A SOCKS5 section is accepted then, and the server it starts accepts clients without
  authentication whatever password is configured.  An HTTP section is accepted, too; the proxy it starts
  lets every request pass when the \<open>Password\<close> refers to an unset variable as well, and otherwise, with a
  non-empty password, still asks for credentials: the empty user name and that password.
\<close>

theorem unset_variable_disables_auth:
  assumes "ini_key_documented E"
    and "ini_GetKey E s ''username'' = Inr ku" and "key_String E ku = CHR ''$'' # name"
    and "\<not> prefix ''$'' name" and "os_LookupEnv E name = None"
  shows "(parseSocks5Config E s = Inr r \<longrightarrow>
      (\<exists>c. r = Socks5 c \<and> so_auth (Socks5_options c) = [NoAuthAuthenticator])) \<and>
    (parseHTTPConfig E s = Inr q \<and> ini_GetKey E s ''password'' = Inr kp \<and> key_String E kp = CHR ''$'' # pname \<and>
       \<not> prefix ''$'' pname \<and> os_LookupEnv E pname = None \<longrightarrow>
      (\<exists>c. q = HTTP c \<and> (\<forall>req. authenticate (HTTP_server c) req = (0, None)))) \<and>
    (parseHTTPConfig E s = Inr q \<and> file_text E s ''password'' = Some pw \<and> pw \<noteq> [] \<longrightarrow>
      (\<exists>c. q = HTTP c \<and> hs_authRequired (HTTP_server c) \<and>
        hs_auth (HTTP_server c) = \<lparr>cv_username = [], cv_password = pw\<rparr>))"
proof -
  have user: "parseString_or_empty E s ''Username'' = []"
    by (rule parseString_unset [OF assms(1) username_key_lower assms(2-5)])
  have pass: "parseString_or_empty E s ''Password'' = []"
    if "ini_GetKey E s ''password'' = Inr kp" "key_String E kp = CHR ''$'' # pname" "\<not> prefix ''$'' pname"
      "os_LookupEnv E pname = None"
    by (rule parseString_unset [OF assms(1) password_key_lower that])
  have set: "parseString_or_empty E s ''Password'' = pw" if "file_text E s ''password'' = Some pw"
    using that password_text [OF assms(1), of s pw] by (simp add: parseString_or_empty_def)
  have socks: "\<exists>c. r = Socks5 c \<and> s5_Username c = []" if "parseSocks5Config E s = Inr r"
    using that user by (auto simp: parseSocks5Config_def split: sum.splits)
  have http: "\<exists>c. q = HTTP c \<and> http_Username c = [] \<and> http_Password c = parseString_or_empty E s ''Password''"
    if "parseHTTPConfig E s = Inr q"
    using that user by (auto simp: parseHTTPConfig_def split: sum.splits)
  show ?thesis
  proof (intro conjI impI)
    assume "parseSocks5Config E s = Inr r"
    with socks show "\<exists>c. r = Socks5 c \<and> so_auth (Socks5_options c) = [NoAuthAuthenticator]"
      by (auto simp: Socks5_options_def)
  next
    assume "parseHTTPConfig E s = Inr q \<and> ini_GetKey E s ''password'' = Inr kp \<and> key_String E kp = CHR ''$'' # pname \<and>
       \<not> prefix ''$'' pname \<and> os_LookupEnv E pname = None"
    with http pass show "\<exists>c. q = HTTP c \<and> (\<forall>req. authenticate (HTTP_server c) req = (0, None))"
      by (auto simp: authenticate_def HTTP_server_def)
  next
    assume "parseHTTPConfig E s = Inr q \<and> file_text E s ''password'' = Some pw \<and> pw \<noteq> []"
    with http set show "\<exists>c. q = HTTP c \<and> hs_authRequired (HTTP_server c) \<and>
        hs_auth (HTTP_server c) = \<lparr>cv_username = [], cv_password = pw\<rparr>"
      by (auto simp: HTTP_server_def)
  qed
qed

theorem unset_variable_disables_auth_witness:
  "\<exists>c. parseSocks5Config sample_env
       [(''bindaddress'', [''127.0.0.1:1080'']), (''username'', [''$PROXY_USER'']), (''password'', [''hunter2''])] =
       Inr (Socks5 c) \<and>
     so_auth (Socks5_options c) = [NoAuthAuthenticator]"
proof -
  let ?s = "[(''bindaddress'', [''127.0.0.1:1080'']), (''username'', [''$PROXY_USER'']), (''password'', [''hunter2''])]"
  have "is_ok (parseSocks5Config sample_env ?s)" by code_simp
  then obtain r where r: "parseSocks5Config sample_env ?s = Inr r" by (cases "parseSocks5Config sample_env ?s") auto
  have doc: "ini_key_documented sample_env" by (simp add: sample_env_def concrete_env_documented)
  have "ini_GetKey sample_env ?s ''username'' = Inr [''$PROXY_USER'']"
    and "key_String sample_env [''$PROXY_USER''] = CHR ''$'' # ''PROXY_USER''"
    and "\<not> prefix ''$'' ''PROXY_USER''" and "os_LookupEnv sample_env ''PROXY_USER'' = None"
    by code_simp+
  then have "\<exists>c. r = Socks5 c \<and> so_auth (Socks5_options c) = [NoAuthAuthenticator]"
    by (rule mp [OF conjunct1 [OF unset_variable_disables_auth [OF doc]] r])
  with r show ?thesis by auto
qed

end
